(* ===== verification/Json.thy ===== *)
theory Json
  imports Prelude
begin

text \<open>
  The JSON documents of the operator (package encoding/json) as values: revert tokens and the
  verbatim specs of chaos objects. An integer is a \<open>JNum\<close>; any other number is a \<open>JFloat\<close>, its digits
  and its decimal exponent. A \<^verbatim>\<open>json.RawMessage\<close> is no bytes at all, bytes that do not
  parse (with the decoder's message), or a document. Marshalling a struct lists its fields in
  order; unmarshalling into a struct reads each field by its key, leaves a missing or null
  field at its zero value, ignores other keys and fails on a value of the wrong type. The text
  of a document, and the case-insensitive second search for a key, are not modelled.
\<close>

datatype json =
    JNull
  | JBool bool
  | JNum int
  | JStr string
  | JArr "json list"
  | JObj "(string \<times> json) list"
  | JFloat int int

datatype raw_json = RawEmpty | RawInvalid string | Raw json

text \<open>Errors of Go code: the Kubernetes reason a client error carries (kept by \<^verbatim>\<open>%w\<close>), and the text.\<close>

datatype reason = NoReason | NotFound | AlreadyExists | Conflict | OtherReason

datatype go_error = GoError (err_reason: reason) (err_text: string)

definition errorf :: "string \<Rightarrow> go_error" where
  "errorf msg = GoError NoReason msg"

definition wrapf :: "string \<Rightarrow> go_error \<Rightarrow> go_error" where
  "wrapf pre e = GoError (err_reason e) (pre @ err_text e)"

definition isNotFound :: "go_error \<Rightarrow> bool" where
  "isNotFound e \<longleftrightarrow> err_reason e = NotFound"

definition isAlreadyExists :: "go_error \<Rightarrow> bool" where
  "isAlreadyExists e \<longleftrightarrow> err_reason e = AlreadyExists"

definition isConflict :: "go_error \<Rightarrow> bool" where
  "isConflict e \<longleftrightarrow> err_reason e = Conflict"

lemma errorf_reason [simp]: "err_reason (errorf m) = NoReason"
  by (simp add: errorf_def)

lemma wrapf_reason [simp]: "err_reason (wrapf m e) = err_reason e"
  by (simp add: wrapf_def)

lemma errorf_not [simp]:
  "\<not> isNotFound (errorf m)" "\<not> isAlreadyExists (errorf m)" "\<not> isConflict (errorf m)"
  by (simp_all add: isNotFound_def isAlreadyExists_def isConflict_def)

text \<open>The \<^verbatim>\<open>%q\<close> verb: a quoted string with the quote, the backslash and control bytes escaped.\<close>

definition hex_digit :: "nat \<Rightarrow> char" where
  "hex_digit d = (if d < 10 then char_of (48 + d) else char_of (87 + d))"

definition quote_char :: "char \<Rightarrow> string" where
  "quote_char c =
     (let n = (of_char c :: nat) in
      if c = CHR 0x22 \<or> c = CHR 0x5C then [CHR 0x5C, c]
      else if n = 10 then [CHR 0x5C, CHR ''n'']
      else if n = 9 then [CHR 0x5C, CHR ''t'']
      else if n = 13 then [CHR 0x5C, CHR ''r'']
      else if n < 32 \<or> n = 127 then [CHR 0x5C, CHR ''x'', hex_digit (n div 16), hex_digit (n mod 16)]
      else [c])"

definition quote :: "string \<Rightarrow> string" where
  "quote s = [CHR 0x22] @ concat (map quote_char s) @ [CHR 0x22]"

section \<open>Reading fields\<close>

definition type_error :: "string \<Rightarrow> go_error" where
  "type_error k = errorf (''json: cannot unmarshal value of field '' @ k)"

definition asObj :: "raw_json \<Rightarrow> go_error + (string \<rightharpoonup> json)" where
  "asObj raw =
     (case raw of
        RawEmpty \<Rightarrow> Inl (errorf ''unexpected end of JSON input'')
      | RawInvalid m \<Rightarrow> Inl (errorf m)
      | Raw (JObj fs) \<Rightarrow> Inr (map_of (rev fs))
      | Raw JNull \<Rightarrow> Inr Map.empty
      | Raw _ \<Rightarrow> Inl (errorf ''json: cannot unmarshal value into Go struct''))"

definition strField :: "(string \<rightharpoonup> json) \<Rightarrow> string \<Rightarrow> go_error + string" where
  "strField m k =
     (case m k of
        None \<Rightarrow> Inr [] | Some JNull \<Rightarrow> Inr [] | Some (JStr s) \<Rightarrow> Inr s | Some _ \<Rightarrow> Inl (type_error k))"

definition int32Field :: "(string \<rightharpoonup> json) \<Rightarrow> string \<Rightarrow> go_error + int" where
  "int32Field m k =
     (case m k of
        None \<Rightarrow> Inr 0 | Some JNull \<Rightarrow> Inr 0
      | Some (JNum i) \<Rightarrow> if int32_ok i then Inr i else Inl (type_error k)
      | Some _ \<Rightarrow> Inl (type_error k))"

definition arrField :: "(string \<rightharpoonup> json) \<Rightarrow> string \<Rightarrow> go_error + json list" where
  "arrField m k =
     (case m k of
        None \<Rightarrow> Inr [] | Some JNull \<Rightarrow> Inr [] | Some (JArr xs) \<Rightarrow> Inr xs | Some _ \<Rightarrow> Inl (type_error k))"

fun strList :: "string \<Rightarrow> json list \<Rightarrow> go_error + string list" where
  "strList k [] = Inr []"
| "strList k (j # js) =
     (case j of
        JStr s \<Rightarrow> (case strList k js of Inl e \<Rightarrow> Inl e | Inr ss \<Rightarrow> Inr (s # ss))
      | JNull \<Rightarrow> (case strList k js of Inl e \<Rightarrow> Inl e | Inr ss \<Rightarrow> Inr ([] # ss))
      | _ \<Rightarrow> Inl (type_error k))"

lemma strList_JStr [simp]: "strList k (map JStr ss) = Inr ss"
  by (induction ss) auto

text \<open>An integer of 64 bits, and a float of which only the type is read.\<close>

definition int64_field :: "(string \<rightharpoonup> json) \<Rightarrow> string \<Rightarrow> go_error + int" where
  "int64_field m k =
     (case m k of
        None \<Rightarrow> Inr 0 | Some JNull \<Rightarrow> Inr 0
      | Some (JNum i) \<Rightarrow> if int64_ok i then Inr i else Inl (type_error k)
      | Some _ \<Rightarrow> Inl (type_error k))"

definition float_field :: "(string \<rightharpoonup> json) \<Rightarrow> string \<Rightarrow> go_error + unit" where
  "float_field m k =
     (case m k of
        None \<Rightarrow> Inr () | Some JNull \<Rightarrow> Inr () | Some (JNum i) \<Rightarrow> Inr () | Some (JFloat d e) \<Rightarrow> Inr ()
      | Some _ \<Rightarrow> Inl (type_error k))"

lemmas json_fields = asObj_def strField_def int32Field_def arrField_def

text \<open>\<^verbatim>\<open>strings.TrimSpace\<close> on ASCII space.\<close>

definition is_space :: "char \<Rightarrow> bool" where
  "is_space c \<longleftrightarrow> (let n = (of_char c :: nat) in n = 32 \<or> (9 \<le> n \<and> n \<le> 13))"

definition trimSpace :: "string \<Rightarrow> string" where
  "trimSpace s = trim is_space s"

text \<open>Sequencing of fallible steps: an error ends the computation, as an early return does.\<close>

definition bind_err :: "('e + 'a) \<Rightarrow> ('a \<Rightarrow> 'e + 'b) \<Rightarrow> 'e + 'b" where
  "bind_err x f = (case x of Inl e \<Rightarrow> Inl e | Inr a \<Rightarrow> f a)"

lemma bind_err_simps [simp]: "bind_err (Inl e) f = Inl e" "bind_err (Inr a) f = f a"
  by (simp_all add: bind_err_def)

lemma bind_err_Inr: "bind_err x f = Inr b \<longleftrightarrow> (\<exists>a. x = Inr a \<and> f a = Inr b)"
  by (cases x) auto

end
