(* ===== verification/Types.thy ===== *)
theory Types
  imports Json
begin

text \<open>
  The data of the operator. First the API group \<^verbatim>\<open>maintenance.platform.dev/v1alpha1\<close>
  (operator/api/v1alpha1/maintenancejob_types.go): the MaintenanceJob resource, its spec, its
  actions and its status, a record per struct and a datatype per group of string constants.
  Then the fields of the Kubernetes objects (Job, Deployment, chaos object, ConfigMap) that the
  operator reads or writes.

  A pointer is an option, a slice a list, a \<^verbatim>\<open>metav1.Duration\<close> and a time are nanoseconds
  (times since a fixed origin), and a constant of the wrong spelling is the last constructor of
  its datatype.
\<close>

section \<open>The constants of the resource\<close>

datatype phase =
    PhaseUnset | PhaseIdle | PhaseActivating | PhaseActive | PhaseReverting | PhaseDegraded

datatype run_trigger = RunTriggerManual | RunTriggerEnabled | RunTriggerOther string

datatype action_phase = ActionPhaseRecorded | ActionPhaseApplied | ActionPhaseReverting

datatype run_result = RunResultCompleted | RunResultReverted | RunResultFailed

datatype condition_type = ConditionReady | ConditionRevertFailed | ConditionOther string

datatype action_type =
    ActionTypeWorkload
  | ActionTypeScale
  | ActionTypeDeployImage
  | ActionTypeChaosMesh
  | ActionTypeDBExec
  | ActionTypeOther string

fun type_name :: "action_type \<Rightarrow> string" where
  "type_name ActionTypeWorkload = ''Workload''"
| "type_name ActionTypeScale = ''Scale''"
| "type_name ActionTypeDeployImage = ''DeployImage''"
| "type_name ActionTypeChaosMesh = ''ChaosMesh''"
| "type_name ActionTypeDBExec = ''DBExec''"
| "type_name (ActionTypeOther s) = s"

fun trigger_name :: "run_trigger \<Rightarrow> string" where
  "trigger_name RunTriggerManual = ''Manual''"
| "trigger_name RunTriggerEnabled = ''Enabled''"
| "trigger_name (RunTriggerOther s) = s"

section \<open>The spec\<close>

text \<open>The environment of a container is passed through unread: each entry is its JSON document.\<close>

type_synonym env_var = json

record trigger_spec =
  ts_run_id :: string
  ts_duration :: "int option"

record workload_action =
  wa_name :: string
  wa_image :: string
  wa_command :: "string list"
  wa_engine :: string
  wa_queries :: "string list"
  wa_concurrency :: int
  wa_interval :: "int option"
  wa_env :: "env_var list"
  wa_deadline_margin :: "int option"
  wa_colocate_with_app :: string
  wa_cpu_burn :: int

record scale_target_ref =
  tr_kind :: string
  tr_name :: string

record scale_action =
  sa_target_ref :: scale_target_ref
  sa_replicas :: int

record deploy_image_action =
  da_target_ref :: scale_target_ref
  da_container :: string
  da_image :: string
  da_known_good_image :: string
  da_rollout_timeout :: "int option"

record dbexec_action =
  de_name :: string
  de_engine :: string
  de_env :: "env_var list"
  de_ensure :: "string list"
  de_revert :: "string list"

record chaos_mesh_action =
  ca_kind :: string
  ca_name :: string
  ca_spec :: raw_json

record action =
  act_name :: string
  act_type :: action_type
  act_delay :: "int option"
  act_workload :: "workload_action option"
  act_scale :: "scale_action option"
  act_deploy_image :: "deploy_image_action option"
  act_chaos_mesh :: "chaos_mesh_action option"
  act_dbexec :: "dbexec_action option"

record mj_spec =
  sp_display_name :: string
  sp_description :: string
  sp_category :: string
  sp_icon :: string
  sp_expected_symptoms :: "string list"
  sp_enabled :: bool
  sp_trigger :: "trigger_spec option"
  sp_duration :: "int option"
  sp_actions :: "action list"

section \<open>The status\<close>

record current_run =
  cr_id :: string
  cr_trigger :: run_trigger
  cr_started_at :: int
  cr_expires_at :: "int option"

record active_action =
  aa_name :: string
  aa_type :: action_type
  aa_phase :: action_phase
  aa_applied_at :: "int option"
  aa_attempts :: int
  aa_last_error :: string
  aa_revert :: raw_json

record run_history_entry =
  he_id :: string
  he_trigger :: run_trigger
  he_started_at :: int
  he_ended_at :: "int option"
  he_result :: run_result
  he_message :: string

record condition =
  cond_type :: condition_type
  cond_status :: bool
  cond_reason :: string
  cond_message :: string
  cond_observed_generation :: int

record mj_status =
  st_phase :: phase
  st_current_run :: "current_run option"
  st_active_actions :: "active_action list"
  st_last_completed_run_id :: string
  st_history :: "run_history_entry list"
  st_conditions :: "condition list"
  st_observed_generation :: int

section \<open>The resource and the objects it acts on\<close>

type_synonym str_map = "string \<rightharpoonup> string"

text \<open>A namespaced name: the namespace, then the name.\<close>

type_synonym nsname = "string \<times> string"

record maintenance_job =
  mj_name :: string
  mj_namespace :: string
  mj_uid :: string
  mj_generation :: int
  mj_resource_version :: nat
  mj_deletion_timestamp :: "int option"
  mj_finalizers :: "string list"
  mj_annotations :: str_map
  mj_spec_of :: mj_spec
  mj_status_of :: mj_status

definition mj_key :: "maintenance_job \<Rightarrow> nsname" where
  "mj_key fs = (mj_namespace fs, mj_name fs)"

record owner_reference =
  or_api_version :: string
  or_kind :: string
  or_name :: string
  or_uid :: string
  or_controller :: bool
  or_block_owner_deletion :: bool

record resources =
  res_requests :: "(string \<times> string) list"
  res_limits :: "(string \<times> string) list"

text \<open>The pod affinity the operator writes: the app label to be near, and the namespace.\<close>

record pod_affinity =
  pa_app :: string
  pa_namespaces :: "string list"
  pa_topology_key :: string

record job_spec =
  js_parallelism :: int
  js_completions :: "int option"
  js_backoff_limit :: int
  js_active_deadline_seconds :: int
  js_ttl_seconds_after_finished :: int
  js_template_labels :: str_map
  js_restart_policy :: string
  js_affinity :: "pod_affinity option"
  js_container_name :: string
  js_image :: string
  js_args :: "string list"
  js_env :: "env_var list"
  js_resources :: resources

record job_condition =
  jc_type :: string
  jc_status :: string
  jc_message :: string

record job =
  job_name :: string
  job_namespace :: string
  job_labels :: str_map
  job_owners :: "owner_reference list"
  job_deletion_timestamp :: "int option"
  job_spec_of :: job_spec
  job_succeeded :: int
  job_conditions :: "job_condition list"

record container =
  cn_name :: string
  cn_image :: string

record dep_condition =
  dc_type :: string
  dc_last_update :: int

record deployment =
  dep_name :: string
  dep_namespace :: string
  dep_labels :: str_map
  dep_annotations :: str_map
  dep_generation :: int
  dep_creation_timestamp :: int
  dep_replicas :: "int option"
  dep_containers :: "container list"
  dep_st_observed_generation :: int
  dep_st_updated_replicas :: int
  dep_st_available_replicas :: int
  dep_st_replicas :: int
  dep_st_conditions :: "dep_condition list"

text \<open>An unstructured Chaos Mesh object, with its spec's fields as the decoded map.\<close>

record chaos =
  ch_kind :: string
  ch_name :: string
  ch_namespace :: string
  ch_labels :: str_map
  ch_owners :: "owner_reference list"
  ch_deletion_timestamp :: "int option"
  ch_spec :: "string \<rightharpoonup> json"

record config_map =
  cm_name :: string
  cm_namespace :: string
  cm_data :: "string \<rightharpoonup> raw_json"

definition job_key :: "job \<Rightarrow> nsname" where
  "job_key j = (job_namespace j, job_name j)"

definition dep_key :: "deployment \<Rightarrow> nsname" where
  "dep_key d = (dep_namespace d, dep_name d)"

definition chaos_key :: "chaos \<Rightarrow> nsname" where
  "chaos_key o' = (ch_namespace o', ch_name o')"

section \<open>Run-scoped facts and the names stamped on objects\<close>

text \<open>\<^verbatim>\<open>RunContext\<close> of operator/internal/actions/action.go; a duration of 0 is an unbounded hold.\<close>

record run_context =
  rc_scenario_name :: string
  rc_scenario_uid :: string
  rc_namespace :: string
  rc_run_id :: string
  rc_run_duration :: int
  rc_operator_image :: string

definition ScenarioLabel :: string where
  "ScenarioLabel = ''maintenance.platform.dev/job''"

definition HeldByAnnotation :: string where
  "HeldByAnnotation = ''maintenance.platform.dev/held-by''"

definition KnownGoodAnnotationPrefix :: string where
  "KnownGoodAnnotationPrefix = ''maintenance.platform.dev/known-good.''"

definition held_by :: "run_context \<Rightarrow> string" where
  "held_by rc = rc_scenario_name rc @ ''/'' @ rc_run_id rc"

text \<open>The owner reference of every object the operator creates.\<close>

definition owner_of :: "run_context \<Rightarrow> owner_reference" where
  "owner_of rc = \<lparr>or_api_version = ''maintenance.platform.dev/v1alpha1'', or_kind = ''MaintenanceJob'', or_name = rc_scenario_name rc,
     or_uid = rc_scenario_uid rc, or_controller = True, or_block_owner_deletion = False\<rparr>"

lemma known_good_not_held [simp]:
  "KnownGoodAnnotationPrefix @ n \<noteq> HeldByAnnotation" "HeldByAnnotation \<noteq> KnownGoodAnnotationPrefix @ n"
  by (simp_all add: KnownGoodAnnotationPrefix_def HeldByAnnotation_def)

end
