(* ===== verification/Client.thy ===== *)
theory Client
  imports Types
begin

text \<open>
  The client of the Kubernetes API and the library functions the operator calls, which are not
  part of the repository: a record of functions over an arbitrary world \<open>'w\<close>, the argument
  \<open>c\<close> of every definition that calls them. A read is a function of the world; a write
  returns the next world, which may also hold what other clients did meanwhile, whether the
  write failed or not. Nothing is assumed of such a client unless a theorem says so.

  Then: what the documentation of \<^verbatim>\<open>RetryOnConflict\<close> promises (locale \<open>conflict_retry\<close>), and a
  client that also keeps a list of the calls that change the cluster (\<open>logged\<close>), so that a
  theorem can speak of the order of the calls of any client.
\<close>

datatype propagation = Foreground | Background

datatype event_type = EventNormal | EventWarning

record event =
  ev_object :: nsname
  ev_type :: event_type
  ev_reason :: string
  ev_message :: string

type_synonym 'w retrier =
  "('w \<Rightarrow> (go_error + maintenance_job) \<times> 'w) \<Rightarrow> 'w \<Rightarrow> (go_error + maintenance_job) \<times> 'w"

record 'w client =
  getJob :: "'w \<Rightarrow> nsname \<Rightarrow> go_error + job"
  createJob :: "'w \<Rightarrow> job \<Rightarrow> go_error option \<times> 'w"
  deleteJob :: "'w \<Rightarrow> propagation \<Rightarrow> job \<Rightarrow> go_error option \<times> 'w"
  listJobs :: "'w \<Rightarrow> string \<Rightarrow> string \<Rightarrow> go_error + job list"
  getDeployment :: "'w \<Rightarrow> nsname \<Rightarrow> go_error + deployment"
  patchDeployment :: "'w \<Rightarrow> deployment \<Rightarrow> deployment \<Rightarrow> go_error option \<times> 'w"
  deleteDeployment :: "'w \<Rightarrow> propagation \<Rightarrow> deployment \<Rightarrow> go_error option \<times> 'w"
  listDeployments :: "'w \<Rightarrow> string \<Rightarrow> string \<Rightarrow> go_error + deployment list"
  getChaos :: "'w \<Rightarrow> string \<Rightarrow> nsname \<Rightarrow> go_error + chaos"
  createChaos :: "'w \<Rightarrow> chaos \<Rightarrow> go_error option \<times> 'w"
  deleteChaos :: "'w \<Rightarrow> propagation \<Rightarrow> chaos \<Rightarrow> go_error option \<times> 'w"
  getMJ :: "'w \<Rightarrow> nsname \<Rightarrow> go_error + maintenance_job"
  updateMJ :: "'w \<Rightarrow> maintenance_job \<Rightarrow> (go_error + maintenance_job) \<times> 'w"
  updateMJStatus :: "'w \<Rightarrow> maintenance_job \<Rightarrow> (go_error + maintenance_job) \<times> 'w"
  listMJ :: "'w \<Rightarrow> string \<Rightarrow> go_error + maintenance_job list"
  getConfigMap :: "'w \<Rightarrow> nsname \<Rightarrow> go_error + config_map"
  createConfigMap :: "'w \<Rightarrow> config_map \<Rightarrow> go_error option \<times> 'w"
  updateConfigMap :: "'w \<Rightarrow> config_map \<Rightarrow> go_error option \<times> 'w"
  retryOnConflict :: "'w retrier"
  recordEvent :: "'w \<Rightarrow> event \<Rightarrow> 'w"
  clock :: "'w \<Rightarrow> int"
  newUUID :: "'w \<Rightarrow> string \<times> 'w"
  containsFinalizer :: "maintenance_job \<Rightarrow> string \<Rightarrow> bool"
  addFinalizer :: "maintenance_job \<Rightarrow> string \<Rightarrow> maintenance_job"
  removeFinalizer :: "maintenance_job \<Rightarrow> string \<Rightarrow> maintenance_job"
  setStatusCondition :: "'w \<Rightarrow> condition list \<Rightarrow> condition \<Rightarrow> condition list"
  isStatusConditionTrue :: "condition list \<Rightarrow> condition_type \<Rightarrow> bool"
  removeStatusCondition :: "condition list \<Rightarrow> condition_type \<Rightarrow> condition list"

text \<open>
  What Ensure and Revert of an action return besides the next world: an error, done and when to
  come back, or no return at all because a nil pointer was read.
\<close>

datatype outcome = Failed go_error | Returned bool int | Panicked

type_synonym 'w stepped = "outcome \<times> 'w"

text \<open>
  An implementation of the interface \<^verbatim>\<open>Action\<close> (operator/internal/actions/action.go). Plan only
  reads: it returns no world.
\<close>

record 'w action_impl =
  ai_plan :: "'w client \<Rightarrow> run_context \<Rightarrow> action \<Rightarrow> 'w \<Rightarrow> go_error + raw_json"
  ai_ensure :: "'w client \<Rightarrow> run_context \<Rightarrow> action \<Rightarrow> raw_json \<Rightarrow> 'w \<Rightarrow> 'w stepped"
  ai_revert :: "'w client \<Rightarrow> run_context \<Rightarrow> raw_json \<Rightarrow> 'w \<Rightarrow> 'w stepped"

section \<open>Retrying on conflict\<close>

text \<open>
  \<^verbatim>\<open>RetryOnConflict\<close> runs the function until it returns no conflict or the attempts are used
  up, and returns what the last run returned.
\<close>

inductive retried ::
  "('w \<Rightarrow> (go_error + maintenance_job) \<times> 'w) \<Rightarrow> 'w \<Rightarrow> go_error + maintenance_job \<Rightarrow> 'w \<Rightarrow> bool"
  for fn where
  last_run: "fn w = (r, w') \<Longrightarrow> retried fn w r w'"
| conflict: "fn w = (Inl e, w1) \<Longrightarrow> isConflict e \<Longrightarrow> retried fn w1 r w' \<Longrightarrow> retried fn w r w'"

definition retry_ok :: "'w retrier \<Rightarrow> bool" where
  "retry_ok retry \<longleftrightarrow> (\<forall>fn w. retried fn w (fst (retry fn w)) (snd (retry fn w)))"

locale conflict_retry =
  fixes retry :: "'w retrier"
  assumes documented: "retried fn w (fst (retry fn w)) (snd (retry fn w))"
begin

text \<open>An invariant of the conflicting runs holds before the last one.\<close>

lemma last_run_from:
  assumes "retry fn w = (r, w')" and "I w"
    and "\<And>w e w1. I w \<Longrightarrow> fn w = (Inl e, w1) \<Longrightarrow> isConflict e \<Longrightarrow> I w1"
  shows "\<exists>w0. I w0 \<and> fn w0 = (r, w')"
proof -
  have "retried fn w r w'" using documented[of fn w] assms(1) by simp
  then show ?thesis using assms(2,3) by (induction rule: retried.induct) blast+
qed

lemma preserves:
  assumes "retry fn w = (r, w')" and "I w" and "\<And>w r w1. I w \<Longrightarrow> fn w = (r, w1) \<Longrightarrow> I w1"
  shows "I w'"
  using last_run_from[of fn w r w' I] assms by blast

lemma no_conflict:
  assumes "fn w = (r, w')" and "\<And>e. r = Inl e \<Longrightarrow> \<not> isConflict e"
  shows "retry fn w = (r, w')"
proof -
  obtain r' w'' where eq: "retry fn w = (r', w'')" by fastforce
  then have "retried fn w r' w''" using documented[of fn w] by simp
  then show ?thesis using assms eq by (induction rule: retried.cases) auto
qed

end

lemma retry_ok_iff: "retry_ok retry \<longleftrightarrow> conflict_retry retry"
  by (auto simp: retry_ok_def conflict_retry_def)

text \<open>One retrier of the documented kind: \<open>n\<close> more attempts after the first.\<close>

fun retry_steps :: "nat \<Rightarrow> 'w retrier" where
  "retry_steps 0 fn w = fn w"
| "retry_steps (Suc n) fn w =
     (case fn w of
        (Inl e, w1) \<Rightarrow> if isConflict e then retry_steps n fn w1 else (Inl e, w1)
      | (Inr x, w1) \<Rightarrow> (Inr x, w1))"

lemma retry_steps_retried: "retried fn w (fst (retry_steps n fn w)) (snd (retry_steps n fn w))"
  by (induction n arbitrary: w)
     (auto intro: retried.intros split: prod.splits sum.splits)

interpretation retry_steps: conflict_retry "retry_steps n"
  by unfold_locales (rule retry_steps_retried)

section \<open>The calls that change the cluster\<close>

datatype api_call =
    CallCreateJob nsname
  | CallDeleteJob nsname
  | CallPatchDeployment nsname
  | CallDeleteDeployment nsname
  | CallCreateChaos string nsname
  | CallDeleteChaos string nsname
  | CallUpdateMJ maintenance_job
  | CallPersisted maintenance_job
  | CallConfigMap config_map

text \<open>
  \<open>logged retry c\<close> behaves as \<open>c\<close> and appends each attempted write to the log; a status
  update is logged only when it was acknowledged, with the object the server returned.
\<close>

definition add_call :: "api_call \<Rightarrow> 'w \<times> api_call list \<Rightarrow> 'r \<times> 'w \<Rightarrow> 'r \<times> 'w \<times> api_call list" where
  "add_call call wl rw = (fst rw, (snd rw, snd wl @ [call]))"

definition add_persisted ::
  "'w \<times> api_call list \<Rightarrow> (go_error + maintenance_job) \<times> 'w
   \<Rightarrow> (go_error + maintenance_job) \<times> 'w \<times> api_call list" where
  "add_persisted wl rw =
     (fst rw, (snd rw, case fst rw of Inl _ \<Rightarrow> snd wl | Inr fs \<Rightarrow> snd wl @ [CallPersisted fs]))"

definition logged :: "('w \<times> api_call list) retrier \<Rightarrow> 'w client \<Rightarrow> ('w \<times> api_call list) client" where
  "logged retry c = \<lparr>
     getJob = (\<lambda>wl k. getJob c (fst wl) k),
     createJob = (\<lambda>wl j. add_call (CallCreateJob (job_key j)) wl (createJob c (fst wl) j)),
     deleteJob = (\<lambda>wl p j. add_call (CallDeleteJob (job_key j)) wl (deleteJob c (fst wl) p j)),
     listJobs = (\<lambda>wl ns k. listJobs c (fst wl) ns k),
     getDeployment = (\<lambda>wl k. getDeployment c (fst wl) k),
     patchDeployment = (\<lambda>wl d d'. add_call (CallPatchDeployment (dep_key d)) wl
                          (patchDeployment c (fst wl) d d')),
     deleteDeployment = (\<lambda>wl p d. add_call (CallDeleteDeployment (dep_key d)) wl
                          (deleteDeployment c (fst wl) p d)),
     listDeployments = (\<lambda>wl ns k. listDeployments c (fst wl) ns k),
     getChaos = (\<lambda>wl kd k. getChaos c (fst wl) kd k),
     createChaos = (\<lambda>wl x. add_call (CallCreateChaos (ch_kind x) (chaos_key x)) wl
                          (createChaos c (fst wl) x)),
     deleteChaos = (\<lambda>wl p x. add_call (CallDeleteChaos (ch_kind x) (chaos_key x)) wl
                          (deleteChaos c (fst wl) p x)),
     getMJ = (\<lambda>wl k. getMJ c (fst wl) k),
     updateMJ = (\<lambda>wl fs. add_call (CallUpdateMJ fs) wl (updateMJ c (fst wl) fs)),
     updateMJStatus = (\<lambda>wl fs. add_persisted wl (updateMJStatus c (fst wl) fs)),
     listMJ = (\<lambda>wl ns. listMJ c (fst wl) ns),
     getConfigMap = (\<lambda>wl k. getConfigMap c (fst wl) k),
     createConfigMap = (\<lambda>wl m. add_call (CallConfigMap m) wl (createConfigMap c (fst wl) m)),
     updateConfigMap = (\<lambda>wl m. add_call (CallConfigMap m) wl (updateConfigMap c (fst wl) m)),
     retryOnConflict = retry,
     recordEvent = (\<lambda>wl e. (recordEvent c (fst wl) e, snd wl)),
     clock = (\<lambda>wl. clock c (fst wl)),
     newUUID = (\<lambda>wl. (fst (newUUID c (fst wl)), (snd (newUUID c (fst wl)), snd wl))),
     containsFinalizer = containsFinalizer c,
     addFinalizer = addFinalizer c,
     removeFinalizer = removeFinalizer c,
     setStatusCondition = (\<lambda>wl. setStatusCondition c (fst wl)),
     isStatusConditionTrue = isStatusConditionTrue c,
     removeStatusCondition = removeStatusCondition c\<rparr>"

lemma logged_simps [simp]:
  "getJob (logged retry c) wl k = getJob c (fst wl) k"
  "createJob (logged retry c) wl j = add_call (CallCreateJob (job_key j)) wl (createJob c (fst wl) j)"
  "deleteJob (logged retry c) wl p j = add_call (CallDeleteJob (job_key j)) wl (deleteJob c (fst wl) p j)"
  "listJobs (logged retry c) wl ns lk = listJobs c (fst wl) ns lk"
  "getDeployment (logged retry c) wl k = getDeployment c (fst wl) k"
  "patchDeployment (logged retry c) wl d d' =
     add_call (CallPatchDeployment (dep_key d)) wl (patchDeployment c (fst wl) d d')"
  "deleteDeployment (logged retry c) wl p d =
     add_call (CallDeleteDeployment (dep_key d)) wl (deleteDeployment c (fst wl) p d)"
  "listDeployments (logged retry c) wl ns lk = listDeployments c (fst wl) ns lk"
  "getChaos (logged retry c) wl kd k = getChaos c (fst wl) kd k"
  "createChaos (logged retry c) wl x =
     add_call (CallCreateChaos (ch_kind x) (chaos_key x)) wl (createChaos c (fst wl) x)"
  "deleteChaos (logged retry c) wl p x =
     add_call (CallDeleteChaos (ch_kind x) (chaos_key x)) wl (deleteChaos c (fst wl) p x)"
  "getMJ (logged retry c) wl k = getMJ c (fst wl) k"
  "updateMJ (logged retry c) wl fs = add_call (CallUpdateMJ fs) wl (updateMJ c (fst wl) fs)"
  "updateMJStatus (logged retry c) wl fs = add_persisted wl (updateMJStatus c (fst wl) fs)"
  "listMJ (logged retry c) wl ns = listMJ c (fst wl) ns"
  "getConfigMap (logged retry c) wl k = getConfigMap c (fst wl) k"
  "createConfigMap (logged retry c) wl m = add_call (CallConfigMap m) wl (createConfigMap c (fst wl) m)"
  "updateConfigMap (logged retry c) wl m = add_call (CallConfigMap m) wl (updateConfigMap c (fst wl) m)"
  "retryOnConflict (logged retry c) = retry"
  "recordEvent (logged retry c) wl e = (recordEvent c (fst wl) e, snd wl)"
  "clock (logged retry c) wl = clock c (fst wl)"
  "newUUID (logged retry c) wl = (fst (newUUID c (fst wl)), (snd (newUUID c (fst wl)), snd wl))"
  "containsFinalizer (logged retry c) = containsFinalizer c"
  "addFinalizer (logged retry c) = addFinalizer c"
  "removeFinalizer (logged retry c) = removeFinalizer c"
  "setStatusCondition (logged retry c) wl = setStatusCondition c (fst wl)"
  "isStatusConditionTrue (logged retry c) = isStatusConditionTrue c"
  "removeStatusCondition (logged retry c) = removeStatusCondition c"
  by (simp_all add: logged_def)

lemma add_call_simps [simp]:
  "fst (add_call call wl rw) = fst rw"
  "fst (snd (add_call call wl rw)) = snd rw"
  "snd (snd (add_call call wl rw)) = snd wl @ [call]"
  by (simp_all add: add_call_def)

lemma add_call_eq: "add_call call wl (r, w') = (r, (w', snd wl @ [call]))"
  by (simp add: add_call_def)

lemma add_persisted_eq [simp]:
  "add_persisted wl (Inl e, w') = (Inl e, (w', snd wl))"
  "add_persisted wl (Inr fs, w') = (Inr fs, (w', snd wl @ [CallPersisted fs]))"
  by (simp_all add: add_persisted_def)

end
