(* ===== verification/Labelled.thy ===== *)
theory Labelled
  imports Client
begin

text \<open>
  What the actions have in common: the errors they report, and the contract of the actions that
  create one labelled object and delete it on revert (Workload and ChaosMesh). The contract is
  the locale \<open>labelled_action\<close>; its lemmas are what a scenario relies on: an object of another
  owner is never written, Revert reports done exactly when there is nothing of ours left, and a
  repeated call changes nothing more.
\<close>

definition configMissing :: "action \<Rightarrow> string \<Rightarrow> go_error" where
  "configMissing act kind =
     errorf (''action '' @ quote (act_name act) @ '': '' @ kind @ '' config missing'')"

definition nameConflict :: "run_context \<Rightarrow> string \<Rightarrow> string \<Rightarrow> go_error" where
  "nameConflict rc kind n =
     errorf (kind @ '' '' @ rc_namespace rc @ ''/'' @ n @ '' already exists and is not owned by scenario ''
             @ quote (rc_scenario_name rc) @ '' (name conflict)'')"

definition notOurs :: "string \<Rightarrow> string \<Rightarrow> string \<Rightarrow> go_error" where
  "notOurs kind ns n = errorf (kind @ '' '' @ ns @ ''/'' @ n @ '' exists but is not ours'')"

text \<open>\<open>query\<close> is what the action looks up, \<open>ours\<close> the label check, \<open>deleting\<close> the deletion timestamp.\<close>

locale labelled_revert =
  fixes query :: "'w \<Rightarrow> go_error + 'o"
    and ours :: "'o \<Rightarrow> bool"
    and deleting :: "'o \<Rightarrow> bool"
    and remove :: "'w \<Rightarrow> 'o \<Rightarrow> go_error option \<times> 'w"
    and revert :: "'w \<Rightarrow> 'w stepped"
  assumes revert_gone: "query w = Inl e \<Longrightarrow> isNotFound e \<Longrightarrow> revert w = (Returned True 0, w)"
    and revert_unreadable: "query w = Inl e \<Longrightarrow> \<not> isNotFound e \<Longrightarrow> revert w = (Failed e, w)"
    and revert_foreign: "query w = Inr x \<Longrightarrow> \<not> ours x \<Longrightarrow> revert w = (Returned True 0, w)"
    and revert_deleting:
      "query w = Inr x \<Longrightarrow> ours x \<Longrightarrow> deleting x \<Longrightarrow> revert w = (Returned False (2 * second), w)"
    and revert_delete:
      "query w = Inr x \<Longrightarrow> ours x \<Longrightarrow> \<not> deleting x \<Longrightarrow> remove w x = (r, w1) \<Longrightarrow>
       revert w = ((case r of None \<Rightarrow> Returned False (2 * second)
                     | Some e \<Rightarrow> if isNotFound e then Returned False (2 * second) else Failed e), w1)"
begin

text \<open>The five situations Revert distinguishes.\<close>

lemma situations:
  obtains (gone) e where "query w = Inl e" "isNotFound e"
  | (unreadable) e where "query w = Inl e" "\<not> isNotFound e"
  | (foreign) x where "query w = Inr x" "\<not> ours x"
  | (deleting) x where "query w = Inr x" "ours x" "deleting x"
  | (live) x where "query w = Inr x" "ours x" "\<not> deleting x"
  by (cases "query w") auto

definition nothing_ours :: "'w \<Rightarrow> bool" where
  "nothing_ours w \<longleftrightarrow>
     (case query w of Inl e \<Rightarrow> isNotFound e | Inr x \<Rightarrow> \<not> ours x)"

lemma done_iff: "fst (revert w) = Returned True d \<longleftrightarrow> nothing_ours w \<and> d = 0"
proof (cases w rule: situations)
  case (live x)
  then show ?thesis
    by (cases "remove w x") (auto simp: nothing_ours_def revert_delete split: option.splits)
qed (auto simp: nothing_ours_def revert_gone revert_unreadable revert_foreign revert_deleting)

lemma done_keeps_world: "nothing_ours w \<Longrightarrow> revert w = (Returned True 0, w)"
  by (cases w rule: situations)
     (auto simp: nothing_ours_def revert_gone revert_unreadable revert_foreign revert_deleting)

lemma idempotent: "revert w = (Returned True d, w') \<Longrightarrow> w' = w \<and> revert w' = (Returned True d, w')"
  using done_iff [of w d] done_keeps_world [of w] by auto

lemma pending_interval: "fst (revert w) = Returned False d \<Longrightarrow> d = 2 * second"
proof (cases w rule: situations)
  case (live x)
  then show "fst (revert w) = Returned False d \<Longrightarrow> d = 2 * second"
    by (cases "remove w x") (auto simp: revert_delete split: option.splits if_splits)
qed (auto simp: revert_gone revert_unreadable revert_foreign revert_deleting)

lemma never_panics: "fst (revert w) \<noteq> Panicked"
proof (cases w rule: situations)
  case (live x)
  then show ?thesis by (cases "remove w x") (auto simp: revert_delete split: option.splits)
qed (auto simp: revert_gone revert_unreadable revert_foreign revert_deleting)

text \<open>The only write is the deletion of a live object of ours.\<close>

lemma writes_only_ours:
  "snd (revert w) \<noteq> w \<Longrightarrow>
   \<exists>x. query w = Inr x \<and> ours x \<and> \<not> deleting x \<and> snd (revert w) = snd (remove w x)"
proof (cases w rule: situations)
  case (live x)
  then show ?thesis by (cases "remove w x") (auto simp: revert_delete)
qed (auto simp: revert_gone revert_unreadable revert_foreign revert_deleting)

end

locale labelled_action = labelled_revert +
  fixes create :: "'a \<Rightarrow> go_error option \<times> 'a"
    and ensure :: "'a \<Rightarrow> 'a stepped"
  assumes ensure_ours: "query w = Inr x \<Longrightarrow> ours x \<Longrightarrow> ensure w = (Returned True 0, w)"
    and ensure_foreign: "query w = Inr x \<Longrightarrow> \<not> ours x \<Longrightarrow> \<exists>e. ensure w = (Failed e, w)"
    and ensure_unreadable: "query w = Inl e \<Longrightarrow> \<not> isNotFound e \<Longrightarrow> ensure w = (Failed e, w)"
    and ensure_absent:
      "query w = Inl e \<Longrightarrow> isNotFound e \<Longrightarrow> create w = (r, w1) \<Longrightarrow>
       ensure w = ((case r of None \<Rightarrow> Returned True 0
                     | Some e' \<Rightarrow> if isAlreadyExists e' then Returned False second else Failed e'), w1)"
begin

text \<open>Ensure writes only where there is no object at all.\<close>

lemma ensure_creates_only: "snd (ensure w) \<noteq> w \<Longrightarrow> \<exists>e. query w = Inl e \<and> isNotFound e \<and> snd (ensure w) = snd (create w)"
proof (cases w rule: situations)
  case (gone e)
  then show ?thesis by (cases "create w") (auto simp: ensure_absent)
next
  case (foreign x)
  then show "snd (ensure w) \<noteq> w \<Longrightarrow> ?thesis" using ensure_foreign [of w x] by auto
qed (auto simp: ensure_ours ensure_unreadable)

text \<open>Where the object is in place, Ensure is done at once and Revert is not.\<close>

lemma in_place: "query w = Inr x \<Longrightarrow> ours x \<Longrightarrow>
  ensure w = (Returned True 0, w) \<and> (\<forall>d. fst (revert w) \<noteq> Returned True d)"
  using ensure_ours [of w x] done_iff [of w] by (auto simp: nothing_ours_def)

text \<open>Where somebody else has the name, both leave the world alone; Ensure fails and Revert is done.\<close>

lemma foreign_untouched: "query w = Inr x \<Longrightarrow> \<not> ours x \<Longrightarrow>
  (\<exists>e. ensure w = (Failed e, w)) \<and> revert w = (Returned True 0, w)"
  using ensure_foreign revert_foreign by blast

end

end
