(* ===== verification/Durations.thy ===== *)
theory Durations
  imports Prelude
begin

text \<open>
  \<^verbatim>\<open>time.Duration.String\<close> of Go's standard library, which the actions use for the chaos dead-man
  duration and for the arguments of dbtool: hours, minutes and seconds with the fraction's
  trailing zeros dropped, or the largest smaller unit that gives a leading non-zero digit.
\<close>

text \<open>The fraction of \<open>u\<close> below \<open>10 ^ prec\<close>, as text: nothing, or a point and its digits.\<close>

fun frac_digits :: "nat \<Rightarrow> nat \<Rightarrow> string" where
  "frac_digits 0 u = []"
| "frac_digits (Suc p) u = frac_digits p (u div 10) @ [digit_char (u mod 10)]"

lemma frac_digits_numeral:
  "frac_digits (numeral k) u = frac_digits (pred_numeral k) (u div 10) @ [digit_char (u mod 10)]"
  by (simp only: numeral_eq_Suc frac_digits.simps)

definition fmtFrac :: "nat \<Rightarrow> nat \<Rightarrow> string" where
  "fmtFrac prec u =
     (let ds = rev (dropWhile (\<lambda>c. c = CHR ''0'') (rev (frac_digits prec u)))
      in if ds = [] then [] else CHR ''.'' # ds)"

definition micro_sign :: string where
  "micro_sign = [CHR 0xC2, CHR 0xB5]"

definition durationString :: "int \<Rightarrow> string" where
  "durationString d =
     (let u = nat \<bar>d\<bar>;
          body =
            (if u = 0 then ''0s''
             else if u < 1000 then show_nat u @ ''ns''
             else if u < 1000000 then show_nat (u div 1000) @ fmtFrac 3 u @ micro_sign @ ''s''
             else if u < 1000000000 then show_nat (u div 1000000) @ fmtFrac 6 u @ ''ms''
             else
               (let secs = u div 1000000000; mins = secs div 60; hours = mins div 60
                in (if hours > 0 then show_nat hours @ ''h'' else [])
                   @ (if mins > 0 then show_nat (mins mod 60) @ ''m'' else [])
                   @ show_nat (secs mod 60) @ fmtFrac 9 u @ ''s''))
      in if d < 0 then CHR ''-'' # body else body)"

lemma durationString_nonempty [simp]: "durationString d \<noteq> []"
  by (simp add: durationString_def Let_def)

section \<open>Dates\<close>

text \<open>The year, month and day of a number of days since 1970, in UTC.\<close>

definition civil_from_days :: "int \<Rightarrow> int \<times> int \<times> int" where
  "civil_from_days days =
     (let z = days + 719468;
          era = z div 146097;
          doe = z mod 146097;
          yoe = (doe - doe div 1460 + doe div 36524 - doe div 146096) div 365;
          doy = doe - (365 * yoe + yoe div 4 - yoe div 100);
          mp = (5 * doy + 2) div 153;
          d = doy - (153 * mp + 2) div 5 + 1;
          m = (if mp < 10 then mp + 3 else mp - 9);
          y = yoe + era * 400 + (if m \<le> 2 then 1 else 0)
      in (y, m, d))"

definition pad2 :: "int \<Rightarrow> string" where
  "pad2 n = [digit_char (nat (n div 10 mod 10)), digit_char (nat (n mod 10))]"

text \<open>\<^verbatim>\<open>Time.UTC().Format(time.RFC3339)\<close> of a time in nanoseconds since 1970.\<close>

definition rfc3339 :: "int \<Rightarrow> string" where
  "rfc3339 t =
     (let secs = t div second; days = secs div 86400; s = secs mod 86400; (y, m, d) = civil_from_days days
      in pad2 (y div 100) @ pad2 (y mod 100) @ ''-'' @ pad2 m @ ''-'' @ pad2 d @ ''T''
         @ pad2 (s div 3600) @ '':'' @ pad2 (s div 60 mod 60) @ '':'' @ pad2 (s mod 60) @ ''Z'')"

end
