(* ===== verification/Workload.thy ===== *)
theory Workload
  imports Labelled Durations
begin

text \<open>
  The action Workload (operator/internal/actions/workload.go): a Job that runs a load against a
  database, or burns CPU, until the scenario ends. Plan records the Job's name in a token,
  Ensure creates the Job, Revert deletes it and waits until it is gone. An object of another
  owner is never touched. The behaviour of Revert that the action shares with ChaosMesh is the
  locale \<open>labelled_revert\<close>.
\<close>

section \<open>The token\<close>

record workload_token =
  wt_kind :: string
  wt_namespace :: string
  wt_name :: string

definition marshal_workload :: "workload_token \<Rightarrow> raw_json" where
  "marshal_workload t = Raw (JObj [(''kind'', JStr (wt_kind t)),
     (''namespace'', JStr (wt_namespace t)), (''name'', JStr (wt_name t))])"

definition unmarshal_workload :: "raw_json \<Rightarrow> go_error + workload_token" where
  "unmarshal_workload raw =
     bind_err (asObj raw) (\<lambda>m.
     bind_err (strField m ''kind'') (\<lambda>k.
     bind_err (strField m ''namespace'') (\<lambda>ns.
     bind_err (strField m ''name'') (\<lambda>n.
       Inr \<lparr>wt_kind = k, wt_namespace = ns, wt_name = n\<rparr>))))"

lemma workload_token_roundtrip [simp]: "unmarshal_workload (marshal_workload t) = Inr t"
  by (simp add: unmarshal_workload_def marshal_workload_def json_fields)

definition wt_key :: "workload_token \<Rightarrow> nsname" where
  "wt_key t = (wt_namespace t, wt_name t)"

section \<open>The Job\<close>

definition defaultConcurrency :: int where "defaultConcurrency = 2"
definition defaultInterval :: int where "defaultInterval = second"
definition defaultDeadlineMargin :: int where "defaultDeadlineMargin = 5 * minute"
definition unboundedRunDeadline :: int where "unboundedRunDeadline = 24 * hour"
definition defaultCPUBurnImage :: string where "defaultCPUBurnImage = ''busybox:1.36''"

lemmas workload_consts = defaultConcurrency_def defaultInterval_def defaultDeadlineMargin_def
  unboundedRunDeadline_def defaultCPUBurnImage_def

definition queryArgs :: "string list \<Rightarrow> string list" where
  "queryArgs qs = concat (map (\<lambda>q. [''--query'', q]) qs)"

definition workload_concurrency :: "workload_action \<Rightarrow> int" where
  "workload_concurrency wa =
     (if wa_concurrency wa \<le> 0 then (if wa_cpu_burn wa > 0 then 1 else defaultConcurrency)
      else wa_concurrency wa)"

definition workload_deadline :: "run_context \<Rightarrow> workload_action \<Rightarrow> int" where
  "workload_deadline rc wa =
     (let margin = (case wa_deadline_margin wa of None \<Rightarrow> defaultDeadlineMargin | Some d \<Rightarrow> d)
      in if rc_run_duration rc > 0 then wrap64 (rc_run_duration rc + margin) else unboundedRunDeadline)"

definition workload_args :: "workload_action \<Rightarrow> string list" where
  "workload_args wa =
     (let interval = (case wa_interval wa of None \<Rightarrow> defaultInterval | Some d \<Rightarrow> d)
      in if wa_command wa \<noteq> [] then wa_command wa
         else if wa_cpu_burn wa > 0
         then [''sh'', ''-c'', ''for i in $(seq 1 '' @ show_int (wa_cpu_burn wa)
               @ ''); do while :; do :; done & done; wait'']
         else [''dbtool'', ''--engine'', wa_engine wa, ''--interval'', durationString interval,
               ''--concurrency'', ''1''] @ queryArgs (wa_queries wa))"

definition workload_image :: "run_context \<Rightarrow> workload_action \<Rightarrow> string" where
  "workload_image rc wa =
     (if wa_image wa = [] then (if wa_cpu_burn wa > 0 then defaultCPUBurnImage else rc_operator_image rc)
      else wa_image wa)"

definition workload_resources :: "workload_action \<Rightarrow> resources" where
  "workload_resources wa =
     (if wa_cpu_burn wa > 0
      then \<lparr>res_requests = [(''cpu'', ''500m''), (''memory'', ''64Mi'')],
            res_limits = [(''memory'', ''128Mi'')]\<rparr>
      else \<lparr>res_requests = [(''cpu'', ''100m''), (''memory'', ''128Mi'')],
            res_limits = [(''cpu'', ''1''), (''memory'', ''512Mi'')]\<rparr>)"

definition buildJob :: "run_context \<Rightarrow> workload_action \<Rightarrow> job" where
  "buildJob rc wa =
     (let labels = [ScenarioLabel \<mapsto> rc_scenario_name rc, ''app'' \<mapsto> wa_name wa]
      in \<lparr>job_name = wa_name wa,
          job_namespace = rc_namespace rc,
          job_labels = labels,
          job_owners = [owner_of rc],
          job_deletion_timestamp = None,
          job_spec_of = \<lparr>
            js_parallelism = workload_concurrency wa,
            js_completions = None,
            js_backoff_limit = 100,
            js_active_deadline_seconds = go_div (workload_deadline rc wa) second,
            js_ttl_seconds_after_finished = 600,
            js_template_labels = labels,
            js_restart_policy = ''Never'',
            js_affinity =
              (if wa_colocate_with_app wa = [] then None
               else Some \<lparr>pa_app = wa_colocate_with_app wa, pa_namespaces = [rc_namespace rc],
                          pa_topology_key = ''kubernetes.io/hostname''\<rparr>),
            js_container_name = wa_name wa,
            js_image = workload_image rc wa,
            js_args = workload_args wa,
            js_env = wa_env wa,
            js_resources = workload_resources wa\<rparr>,
          job_succeeded = 0,
          job_conditions = []\<rparr>)"

section \<open>Plan, Ensure, Revert\<close>

definition Workload_Plan ::
  "'w client \<Rightarrow> run_context \<Rightarrow> action \<Rightarrow> 'w \<Rightarrow> go_error + raw_json" where
  "Workload_Plan c rc act w =
     (case act_workload act of
        None \<Rightarrow> Inl (configMissing act ''workload'')
      | Some wa \<Rightarrow>
          let token = marshal_workload \<lparr>wt_kind = ''Job'', wt_namespace = rc_namespace rc, wt_name = wa_name wa\<rparr>
          in case getJob c w (rc_namespace rc, wa_name wa) of
               Inr existing \<Rightarrow>
                 if go_get (job_labels existing) ScenarioLabel \<noteq> rc_scenario_name rc
                 then Inl (nameConflict rc ''job'' (wa_name wa))
                 else Inr token
             | Inl e \<Rightarrow> if isNotFound e then Inr token else Inl e)"

definition Workload_Ensure ::
  "'w client \<Rightarrow> run_context \<Rightarrow> action \<Rightarrow> raw_json \<Rightarrow> 'w \<Rightarrow> 'w stepped" where
  "Workload_Ensure c rc act token w =
     (case unmarshal_workload token of
        Inl e \<Rightarrow> (Failed (wrapf ''invalid workload token: '' e), w)
      | Inr t \<Rightarrow>
          (case getJob c w (wt_key t) of
             Inr existing \<Rightarrow>
               if go_get (job_labels existing) ScenarioLabel \<noteq> rc_scenario_name rc
               then (Failed (notOurs ''job'' (wt_namespace t) (wt_name t)), w)
               else (Returned True 0, w)
           | Inl e \<Rightarrow>
               if \<not> isNotFound e then (Failed e, w)
               else
                 (case act_workload act of
                    None \<Rightarrow> (Panicked, w)
                  | Some wa \<Rightarrow>
                      (case createJob c w (buildJob rc wa) of
                         (None, w1) \<Rightarrow> (Returned True 0, w1)
                       | (Some e, w1) \<Rightarrow>
                           if isAlreadyExists e then (Returned False second, w1) else (Failed e, w1)))))"

definition Workload_Revert ::
  "'w client \<Rightarrow> run_context \<Rightarrow> raw_json \<Rightarrow> 'w \<Rightarrow> 'w stepped" where
  "Workload_Revert c rc token w =
     (case unmarshal_workload token of
        Inl e \<Rightarrow> (Failed (wrapf ''invalid workload token: '' e), w)
      | Inr t \<Rightarrow>
          (case getJob c w (wt_key t) of
             Inl e \<Rightarrow> if isNotFound e then (Returned True 0, w) else (Failed e, w)
           | Inr job \<Rightarrow>
               if go_get (job_labels job) ScenarioLabel \<noteq> rc_scenario_name rc then (Returned True 0, w)
               else if job_deletion_timestamp job \<noteq> None then (Returned False (2 * second), w)
               else
                 (case deleteJob c w Foreground job of
                    (Some e, w1) \<Rightarrow>
                      if isNotFound e then (Returned False (2 * second), w1) else (Failed e, w1)
                  | (None, w1) \<Rightarrow> (Returned False (2 * second), w1))))"

definition Workload :: "'w action_impl" where
  "Workload = \<lparr>ai_plan = Workload_Plan, ai_ensure = Workload_Ensure, ai_revert = Workload_Revert\<rparr>"

section \<open>The contract of a labelled object\<close>

definition job_ours :: "run_context \<Rightarrow> job \<Rightarrow> bool" where
  "job_ours rc j \<longleftrightarrow> go_get (job_labels j) ScenarioLabel = rc_scenario_name rc"

interpretation workload: labelled_action
  "\<lambda>w. getJob c w (wt_key t)" "job_ours rc" "\<lambda>j. job_deletion_timestamp j \<noteq> None"
  "\<lambda>w. deleteJob c w Foreground" "Workload_Revert c rc (marshal_workload t)"
  "\<lambda>w. createJob c w (buildJob rc wa)"
  "Workload_Ensure c rc (act\<lparr>act_workload := Some wa\<rparr>) (marshal_workload t)"
  for c rc t act wa
  by unfold_locales
     (auto simp: Workload_Revert_def Workload_Ensure_def job_ours_def split: option.splits)

end
