(* ===== verification/Scale.thy ===== *)
theory Scale
  imports Labelled
begin

text \<open>
  The action Scale (operator/internal/actions/scale.go): set the replica count of a Deployment
  for the duration of a run. The Deployment is held through an annotation that names the
  scenario and the run; Plan records the replica count to return to.
\<close>

section \<open>The token\<close>

record scale_token =
  st_kind :: string
  st_namespace :: string
  st_name :: string
  st_previous_replicas :: int

definition marshal_scale :: "scale_token \<Rightarrow> raw_json" where
  "marshal_scale t = Raw (JObj [(''kind'', JStr (st_kind t)), (''namespace'', JStr (st_namespace t)),
     (''name'', JStr (st_name t)), (''previousReplicas'', JNum (st_previous_replicas t))])"

definition unmarshal_scale :: "raw_json \<Rightarrow> go_error + scale_token" where
  "unmarshal_scale raw =
     bind_err (asObj raw) (\<lambda>m.
     bind_err (strField m ''kind'') (\<lambda>k.
     bind_err (strField m ''namespace'') (\<lambda>ns.
     bind_err (strField m ''name'') (\<lambda>n.
     bind_err (int32Field m ''previousReplicas'') (\<lambda>r.
       Inr \<lparr>st_kind = k, st_namespace = ns, st_name = n, st_previous_replicas = r\<rparr>)))))"

lemma scale_token_roundtrip [simp]:
  "int32_ok (st_previous_replicas t) \<Longrightarrow> unmarshal_scale (marshal_scale t) = Inr t"
  by (simp add: unmarshal_scale_def marshal_scale_def json_fields)

definition st_key :: "scale_token \<Rightarrow> nsname" where
  "st_key t = (st_namespace t, st_name t)"

section \<open>The hold on a Deployment\<close>

definition holder :: "deployment \<Rightarrow> string" where
  "holder d = go_get (dep_annotations d) HeldByAnnotation"

definition held_by_other :: "run_context \<Rightarrow> deployment \<Rightarrow> bool" where
  "held_by_other rc d \<longleftrightarrow> holder d \<noteq> [] \<and> \<not> hasPrefix (holder d) (rc_scenario_name rc @ ''/'')"

text \<open>Scenario names contain no slash, so the prefix test compares scenario names.\<close>

lemma held_by_other_iff:
  assumes "CHR ''/'' \<notin> set (rc_scenario_name rc)" and "CHR ''/'' \<notin> set n"
    and "holder d = n @ CHR ''/'' # r"
  shows "held_by_other rc d \<longleftrightarrow> n \<noteq> rc_scenario_name rc"
  using hasPrefix_sep [OF assms(1,2), of r] assms(3) by (auto simp: held_by_other_def)

lemma held_by_self [simp]: "hasPrefix (held_by rc) (rc_scenario_name rc @ ''/'')"
  by (simp add: held_by_def hasPrefix_def)

section \<open>Plan, Ensure, Revert\<close>

definition replicas_or_default :: "deployment \<Rightarrow> int" where
  "replicas_or_default d = (case dep_replicas d of None \<Rightarrow> 1 | Some n \<Rightarrow> n)"

definition Scale_Plan ::
  "'w client \<Rightarrow> run_context \<Rightarrow> action \<Rightarrow> 'w \<Rightarrow> go_error + raw_json" where
  "Scale_Plan c rc act w =
     (case act_scale act of
        None \<Rightarrow> Inl (configMissing act ''scale'')
      | Some sa \<Rightarrow>
          (case getDeployment c w (rc_namespace rc, tr_name (sa_target_ref sa)) of
             Inl e \<Rightarrow> Inl (wrapf (''scale target deployment '' @ rc_namespace rc @ ''/''
                             @ tr_name (sa_target_ref sa) @ '': '') e)
           | Inr dep \<Rightarrow>
               Inr (marshal_scale \<lparr>st_kind = ''Deployment'', st_namespace = rc_namespace rc,
                      st_name = tr_name (sa_target_ref sa),
                      st_previous_replicas = replicas_or_default dep\<rparr>)))"

text \<open>Whether the scenario that holds the Deployment is live: it has a run or active actions.\<close>

definition live_scenario :: "maintenance_job \<Rightarrow> bool" where
  "live_scenario fs \<longleftrightarrow>
     st_current_run (mj_status_of fs) \<noteq> None \<or> st_active_actions (mj_status_of fs) \<noteq> []"

definition heldByLive :: "scale_token \<Rightarrow> string \<Rightarrow> go_error" where
  "heldByLive t cur = errorf (''deployment '' @ st_namespace t @ ''/'' @ st_name t
     @ '' is held by live scenario '' @ quote cur)"

text \<open>The check of the holder: an error, or permission to go on (a stale holder is overwritten).\<close>

definition check_holder ::
  "'w client \<Rightarrow> run_context \<Rightarrow> scale_token \<Rightarrow> deployment \<Rightarrow> 'w \<Rightarrow> go_error option" where
  "check_holder c rc t dep w =
     (if held_by_other rc dep then
        (case getMJ c w (st_namespace t, fst (cut (CHR ''/'') (holder dep))) of
           Inr other \<Rightarrow> if live_scenario other then Some (heldByLive t (holder dep)) else None
         | Inl e \<Rightarrow> if isNotFound e then None else Some e)
      else None)"

definition Scale_Ensure ::
  "'w client \<Rightarrow> run_context \<Rightarrow> action \<Rightarrow> raw_json \<Rightarrow> 'w \<Rightarrow> 'w stepped" where
  "Scale_Ensure c rc act token w =
     (case unmarshal_scale token of
        Inl e \<Rightarrow> (Failed (wrapf ''invalid scale token: '' e), w)
      | Inr t \<Rightarrow>
          (case act_scale act of
             None \<Rightarrow> (Failed (configMissing act ''scale''), w)
           | Some sa \<Rightarrow>
               (case getDeployment c w (st_key t) of
                  Inl e \<Rightarrow> (Failed e, w)
                | Inr dep \<Rightarrow>
                    (case check_holder c rc t dep w of
                       Some e \<Rightarrow> (Failed e, w)
                     | None \<Rightarrow>
                         if dep_replicas dep = Some (sa_replicas sa) \<and> holder dep = held_by rc
                         then (Returned True 0, w)
                         else
                           let patched = dep\<lparr>dep_replicas := Some (sa_replicas sa),
                                 dep_annotations := (dep_annotations dep)(HeldByAnnotation \<mapsto> held_by rc)\<rparr>
                           in (case patchDeployment c w dep patched of
                                 (Some e, w1) \<Rightarrow> (Failed e, w1)
                               | (None, w1) \<Rightarrow> (Returned True 0, w1))))))"

definition Scale_Revert ::
  "'w client \<Rightarrow> run_context \<Rightarrow> raw_json \<Rightarrow> 'w \<Rightarrow> 'w stepped" where
  "Scale_Revert c rc token w =
     (case unmarshal_scale token of
        Inl e \<Rightarrow> (Failed (wrapf ''invalid scale token: '' e), w)
      | Inr t \<Rightarrow>
          (case getDeployment c w (st_key t) of
             Inl e \<Rightarrow> if isNotFound e then (Returned True 0, w) else (Failed e, w)
           | Inr dep \<Rightarrow>
               if held_by_other rc dep then (Returned True 0, w)
               else if dep_replicas dep = Some (st_previous_replicas t) \<and> holder dep = []
               then (Returned True 0, w)
               else
                 let patched = dep\<lparr>dep_replicas := Some (st_previous_replicas t),
                       dep_annotations := (dep_annotations dep)(HeldByAnnotation := None)\<rparr>
                 in (case patchDeployment c w dep patched of
                       (Some e, w1) \<Rightarrow> (Failed e, w1)
                     | (None, w1) \<Rightarrow> (Returned True 0, w1))))"

definition Scale :: "'w action_impl" where
  "Scale = \<lparr>ai_plan = Scale_Plan, ai_ensure = Scale_Ensure, ai_revert = Scale_Revert\<rparr>"

end
