(* ===== verification/DeployImage.thy ===== *)
theory DeployImage
  imports Scale
begin

text \<open>
  The action DeployImage (operator/internal/actions/deployimage.go): roll out another image for
  one container of a Deployment, and roll it back on revert. The rollback image is in the token
  and, from the same patch that swaps the image, in an annotation of the Deployment.
\<close>

section \<open>The token\<close>

record deploy_image_token =
  dt_kind :: string
  dt_namespace :: string
  dt_name :: string
  dt_container :: string
  dt_good_image :: string
  dt_bad_image :: string

definition marshal_deploy_image :: "deploy_image_token \<Rightarrow> raw_json" where
  "marshal_deploy_image t = Raw (JObj [(''kind'', JStr (dt_kind t)), (''namespace'', JStr (dt_namespace t)),
     (''name'', JStr (dt_name t)), (''container'', JStr (dt_container t)),
     (''goodImage'', JStr (dt_good_image t)), (''badImage'', JStr (dt_bad_image t))])"

definition unmarshal_deploy_image :: "raw_json \<Rightarrow> go_error + deploy_image_token" where
  "unmarshal_deploy_image raw =
     bind_err (asObj raw) (\<lambda>m.
     bind_err (strField m ''kind'') (\<lambda>k.
     bind_err (strField m ''namespace'') (\<lambda>ns.
     bind_err (strField m ''name'') (\<lambda>n.
     bind_err (strField m ''container'') (\<lambda>ct.
     bind_err (strField m ''goodImage'') (\<lambda>g.
     bind_err (strField m ''badImage'') (\<lambda>b.
       Inr \<lparr>dt_kind = k, dt_namespace = ns, dt_name = n, dt_container = ct,
            dt_good_image = g, dt_bad_image = b\<rparr>)))))))"

lemma deploy_image_token_roundtrip [simp]: "unmarshal_deploy_image (marshal_deploy_image t) = Inr t"
  by (simp add: unmarshal_deploy_image_def marshal_deploy_image_def json_fields)

definition dt_key :: "deploy_image_token \<Rightarrow> nsname" where
  "dt_key t = (dt_namespace t, dt_name t)"

definition knownGood :: "deploy_image_token \<Rightarrow> string" where
  "knownGood t = KnownGoodAnnotationPrefix @ dt_container t"

section \<open>Reading the Deployment\<close>

definition defaultRolloutTimeout :: int where "defaultRolloutTimeout = 5 * minute"

definition containerIndex :: "deployment \<Rightarrow> string \<Rightarrow> nat option" where
  "containerIndex d n = find_index (\<lambda>cn. cn_name cn = n) (dep_containers d)"

definition image_at :: "deployment \<Rightarrow> nat \<Rightarrow> string" where
  "image_at d i = cn_image (dep_containers d ! i)"

definition set_image :: "deployment \<Rightarrow> nat \<Rightarrow> string \<Rightarrow> container list" where
  "set_image d i img = (dep_containers d)[i := (dep_containers d ! i)\<lparr>cn_image := img\<rparr>]"

lemma containerIndex_bound:
  "containerIndex d n = Some i \<Longrightarrow> i < length (dep_containers d) \<and> cn_name (dep_containers d ! i) = n"
  unfolding containerIndex_def by (auto dest: find_index_Some)

lemma find_index_map: "find_index (\<lambda>x. f x = n) xs = find_index (\<lambda>y. y = n) (map f xs)"
  by (induction xs) auto

lemma containerIndex_set_image:
  assumes "i < length (dep_containers d)"
  shows "find_index (\<lambda>cn. cn_name cn = n) (set_image d i img) = containerIndex d n"
proof -
  have "map cn_name (set_image d i img) = (map cn_name (dep_containers d))[i := map cn_name (dep_containers d) ! i]"
    using assms by (simp add: set_image_def map_update)
  then show ?thesis unfolding containerIndex_def by (simp add: find_index_map [of cn_name])
qed

definition rolloutComplete :: "deployment \<Rightarrow> bool" where
  "rolloutComplete d \<longleftrightarrow>
     (if dep_generation d > dep_st_observed_generation d then False
      else let desired = replicas_or_default d
           in dep_st_updated_replicas d = desired \<and> dep_st_available_replicas d = desired
              \<and> dep_st_replicas d = desired)"

definition rolloutStart :: "deployment \<Rightarrow> int" where
  "rolloutStart d =
     (case find (\<lambda>x. dc_type x = ''Progressing'') (dep_st_conditions d) of
        Some x \<Rightarrow> dc_last_update x
      | None \<Rightarrow> dep_creation_timestamp d)"

section \<open>Plan, Ensure, Revert\<close>

definition noContainer :: "string \<Rightarrow> string \<Rightarrow> go_error" where
  "noContainer d n = errorf (''deployment '' @ d @ '' has no container '' @ quote n)"

text \<open>The rollback image: the spec's, else the annotation of an interrupted run, else the observed one.\<close>

definition resolve_good :: "deploy_image_action \<Rightarrow> deployment \<Rightarrow> string \<Rightarrow> string" where
  "resolve_good da dep observed =
     (let g1 = da_known_good_image da;
          g2 = (if g1 = [] then go_get (dep_annotations dep) (KnownGoodAnnotationPrefix @ da_container da) else g1)
      in if g2 = [] then observed else g2)"

definition DeployImage_Plan ::
  "'w client \<Rightarrow> run_context \<Rightarrow> action \<Rightarrow> 'w \<Rightarrow> go_error + raw_json" where
  "DeployImage_Plan c rc act w =
     (case act_deploy_image act of
        None \<Rightarrow> Inl (configMissing act ''deployImage'')
      | Some da \<Rightarrow>
          let target = tr_name (da_target_ref da) in
          (case getDeployment c w (rc_namespace rc, target) of
             Inl e \<Rightarrow> Inl (wrapf (''deploy target '' @ rc_namespace rc @ ''/'' @ target @ '': '') e)
           | Inr dep \<Rightarrow>
               let observed = (case containerIndex dep (da_container da) of
                                 None \<Rightarrow> [] | Some i \<Rightarrow> image_at dep i);
                   good = resolve_good da dep observed
               in if observed = [] then Inl (noContainer target (da_container da))
                  else if good = da_image da
                  then Inl (errorf (''action '' @ quote (act_name act)
                         @ '': cannot determine a known-good image distinct from '' @ quote (da_image da)
                         @ ''; set spec knownGoodImage''))
                  else Inr (marshal_deploy_image \<lparr>dt_kind = ''Deployment'', dt_namespace = rc_namespace rc,
                         dt_name = target, dt_container = da_container da,
                         dt_good_image = good, dt_bad_image = da_image da\<rparr>)))"

definition swapped :: "run_context \<Rightarrow> deploy_image_token \<Rightarrow> nat \<Rightarrow> deployment \<Rightarrow> deployment" where
  "swapped rc t i dep = dep\<lparr>
     dep_annotations := (dep_annotations dep)(knownGood t \<mapsto> dt_good_image t, HeldByAnnotation \<mapsto> held_by rc),
     dep_labels := (dep_labels dep)(ScenarioLabel \<mapsto> rc_scenario_name rc),
     dep_containers := set_image dep i (dt_bad_image t)\<rparr>"

definition DeployImage_Ensure ::
  "'w client \<Rightarrow> run_context \<Rightarrow> action \<Rightarrow> raw_json \<Rightarrow> 'w \<Rightarrow> 'w stepped" where
  "DeployImage_Ensure c rc act token w =
     (case unmarshal_deploy_image token of
        Inl e \<Rightarrow> (Failed (wrapf ''invalid deployImage token: '' e), w)
      | Inr t \<Rightarrow>
          (case act_deploy_image act of
             None \<Rightarrow> (Failed (configMissing act ''deployImage''), w)
           | Some da \<Rightarrow>
               (case getDeployment c w (dt_key t) of
                  Inl e \<Rightarrow> (Failed e, w)
                | Inr dep \<Rightarrow>
                    if held_by_other rc dep
                    then (Failed (errorf (''deployment '' @ dt_namespace t @ ''/'' @ dt_name t
                            @ '' is held by '' @ quote (holder dep))), w)
                    else
                      (case containerIndex dep (dt_container t) of
                         None \<Rightarrow> (Failed (noContainer (dt_name t) (dt_container t)), w)
                       | Some i \<Rightarrow>
                           if image_at dep i \<noteq> dt_bad_image t
                           then (case patchDeployment c w dep (swapped rc t i dep) of
                                   (Some e, w1) \<Rightarrow> (Failed e, w1)
                                 | (None, w1) \<Rightarrow> (Returned False (5 * second), w1))
                           else
                             let timeout = (case da_rollout_timeout da of
                                              None \<Rightarrow> defaultRolloutTimeout | Some d \<Rightarrow> d)
                             in if rolloutComplete dep \<or> clock c w - rolloutStart dep > timeout
                                then (Returned True 0, w)
                                else (Returned False (10 * second), w)))))"

definition rolled_back :: "deploy_image_token \<Rightarrow> nat option \<Rightarrow> deployment \<Rightarrow> deployment" where
  "rolled_back t restore dep = dep\<lparr>
     dep_annotations := (dep_annotations dep)(knownGood t := None, HeldByAnnotation := None),
     dep_labels := (dep_labels dep)(ScenarioLabel := None),
     dep_containers := (case restore of None \<Rightarrow> dep_containers dep
                          | Some i \<Rightarrow> set_image dep i (dt_good_image t))\<rparr>"

definition DeployImage_Revert ::
  "'w client \<Rightarrow> run_context \<Rightarrow> raw_json \<Rightarrow> 'w \<Rightarrow> 'w stepped" where
  "DeployImage_Revert c rc token w =
     (case unmarshal_deploy_image token of
        Inl e \<Rightarrow> (Failed (wrapf ''invalid deployImage token: '' e), w)
      | Inr t \<Rightarrow>
          (case getDeployment c w (dt_key t) of
             Inl e \<Rightarrow> if isNotFound e then (Returned True 0, w) else (Failed e, w)
           | Inr dep \<Rightarrow>
               if held_by_other rc dep then (Returned True 0, w)
               else
                 let restore = (case containerIndex dep (dt_container t) of
                                  None \<Rightarrow> None
                                | Some i \<Rightarrow> if image_at dep i = dt_bad_image t then Some i else None);
                     hasKnownGood = (dep_annotations dep (knownGood t) \<noteq> None)
                 in if restore = None \<and> \<not> hasKnownGood \<and> holder dep = [] then (Returned True 0, w)
                    else
                      (case patchDeployment c w dep (rolled_back t restore dep) of
                         (Some e, w1) \<Rightarrow> (Failed e, w1)
                       | (None, w1) \<Rightarrow>
                           if restore \<noteq> None then (Returned False (5 * second), w1)
                           else (Returned True 0, w1))))"

definition DeployImage :: "'w action_impl" where
  "DeployImage = \<lparr>ai_plan = DeployImage_Plan, ai_ensure = DeployImage_Ensure, ai_revert = DeployImage_Revert\<rparr>"

end
