(* ===== verification/Names.thy ===== *)
theory Names
  imports Types Sha256
begin

text \<open>
  The object names the actions compute: \<^verbatim>\<open>sanitizeDNS1123\<close> and \<^verbatim>\<open>chaosObjectName\<close>
  (operator/internal/actions/chaosmesh.go), \<^verbatim>\<open>execJobNames\<close> (dbexec.go). The theorems: every
  name is a DNS-1123 label of at most 63 bytes, a label is left as it is, and the names of a
  DBExec action determine the run's discriminator. Upper case is folded for ASCII only: the
  two non-ASCII letters whose lower case is an ASCII letter are treated as invalid bytes.
\<close>

section \<open>Sanitizing\<close>

definition dns_char :: "char \<Rightarrow> bool" where
  "dns_char c \<longleftrightarrow>
     (let n = (of_char c :: nat) in
      (97 \<le> n \<and> n \<le> 122) \<or> (48 \<le> n \<and> n \<le> 57) \<or> n = 45)"

definition lower_char :: "char \<Rightarrow> char" where
  "lower_char c =
     (let n = (of_char c :: nat) in if 65 \<le> n \<and> n \<le> 90 then char_of (n + 32) else c)"

definition toLower :: "string \<Rightarrow> string" where
  "toLower s = map lower_char s"

text \<open>Each run of invalid bytes becomes one dash: the regular expression \<^verbatim>\<open>[^a-z0-9-]+\<close>.\<close>

function replaceInvalid :: "string \<Rightarrow> string" where
  "replaceInvalid [] = []"
| "replaceInvalid (c # cs) =
     (if dns_char c then c # replaceInvalid cs
      else CHR ''-'' # replaceInvalid (dropWhile (\<lambda>x. \<not> dns_char x) cs))"
  by pat_completeness auto
termination
  by (relation "measure length") (auto simp: le_imp_less_Suc length_dropWhile_le)

definition is_dash :: "char \<Rightarrow> bool" where
  "is_dash c \<longleftrightarrow> c = CHR ''-''"

definition trimDashes :: "string \<Rightarrow> string" where
  "trimDashes s = trim is_dash s"

definition sanitizeDNS1123 :: "string \<Rightarrow> string" where
  "sanitizeDNS1123 s =
     (let s1 = trimDashes (replaceInvalid (toLower s));
          s2 = (if length s1 > 63 then trimDashes (take 63 s1) else s1)
      in if s2 = [] then ''chaos'' else s2)"

definition chaosObjectName :: "chaos_mesh_action \<Rightarrow> run_context \<Rightarrow> string \<Rightarrow> string" where
  "chaosObjectName ca rc actionName =
     (let name = (if ca_name ca = [] then ''mj-'' @ rc_scenario_name rc @ ''-'' @ actionName
                  else ca_name ca)
      in sanitizeDNS1123 name)"

text \<open>A DNS-1123 label.\<close>

definition dns_label :: "string \<Rightarrow> bool" where
  "dns_label s \<longleftrightarrow> s \<noteq> [] \<and> length s \<le> 63 \<and> list_all dns_char s
     \<and> \<not> is_dash (hd s) \<and> \<not> is_dash (last s)"

lemma dash_dns [simp]: "dns_char CHR ''-''"
  by (simp add: dns_char_def)

lemma replaceInvalid_dns: "list_all dns_char (replaceInvalid s)"
  by (induction s rule: replaceInvalid.induct) auto

lemma replaceInvalid_id: "list_all dns_char s \<Longrightarrow> replaceInvalid s = s"
  by (induction s) auto

lemma replaceInvalid_length: "length (replaceInvalid s) \<le> length s"
proof (induction s rule: replaceInvalid.induct)
  case (2 c cs)
  then show ?case
    using length_dropWhile_le [of "\<lambda>x. \<not> dns_char x" cs] by auto
qed simp

text \<open>A valid tail that starts with a dash stands as it is.\<close>

lemma replaceInvalid_append:
  "list_all dns_char t \<Longrightarrow> t \<noteq> [] \<Longrightarrow> \<exists>p. replaceInvalid (s @ t) = p @ t \<and> length p \<le> length s"
proof (induction s rule: replaceInvalid.induct)
  case 1
  then show ?case by (intro exI [of _ "[]"]) (simp add: replaceInvalid_id)
next
  case (2 c cs)
  show ?case
  proof (cases "dns_char c")
    case True
    with 2 obtain p where "replaceInvalid (cs @ t) = p @ t" "length p \<le> length cs" by blast
    with True show ?thesis by (intro exI [of _ "c # p"]) simp
  next
    case False
    let ?cs = "dropWhile (\<lambda>x. \<not> dns_char x) cs"
    have dw: "dropWhile (\<lambda>x. \<not> dns_char x) (cs @ t) = ?cs @ t"
    proof (cases "\<forall>x \<in> set cs. \<not> dns_char x")
      case True
      from 2(3,4) have "dropWhile (\<lambda>x. \<not> dns_char x) t = t" by (cases t) auto
      with True show ?thesis by (simp add: dropWhile_append)
    next
      case False
      then show ?thesis by (auto simp: dropWhile_append)
    qed
    from 2(2) [OF False 2(3,4)] obtain p where
      p: "replaceInvalid (?cs @ t) = p @ t" "length p \<le> length ?cs" by blast
    have "length ?cs \<le> length cs" by (rule length_dropWhile_le)
    with False dw p show ?thesis by (intro exI [of _ "CHR ''-'' # p"]) simp
  qed
qed

lemma trimDashes_dns: "list_all dns_char s \<Longrightarrow> list_all dns_char (trimDashes s)"
  using set_trim [of is_dash s] by (auto simp: trimDashes_def list_all_iff)

lemma trimDashes_hd: "trimDashes s \<noteq> [] \<Longrightarrow> \<not> is_dash (hd (trimDashes s))"
  unfolding trimDashes_def by (rule trim_hd)

lemma trimDashes_last: "trimDashes s \<noteq> [] \<Longrightarrow> \<not> is_dash (last (trimDashes s))"
  unfolding trimDashes_def by (rule trim_last)

lemma trimDashes_length: "length (trimDashes s) \<le> length s"
  unfolding trimDashes_def by (rule length_trim)

lemma trim_id:
  assumes "s \<noteq> []" and "\<not> p (hd s)" and "\<not> p (last s)"
  shows "trim p s = s"
proof -
  from assms(1,2) have a: "dropWhile p s = s" by (cases s) auto
  from assms(1,3) have "dropWhile p (rev s) = rev s"
    by (cases s rule: rev_cases) auto
  with a show ?thesis by (simp add: trim_def)
qed

text \<open>Trimming keeps a tail that ends in no dash.\<close>

lemma trim_append:
  assumes "t \<noteq> []" and "\<forall>x \<in> set t. \<not> p x"
  shows "\<exists>q. trim p (s @ t) = q @ t \<and> length q \<le> length s"
proof -
  have a: "dropWhile p (s @ t) = dropWhile p s @ t"
  proof (cases "\<forall>x \<in> set s. p x")
    case True
    with assms show ?thesis by (cases t) (auto simp: dropWhile_append)
  next
    case False
    then show ?thesis by (auto simp: dropWhile_append)
  qed
  have b: "dropWhile p (rev (dropWhile p s @ t)) = rev (dropWhile p s @ t)"
    using assms by (cases t rule: rev_cases) auto
  show ?thesis
    using a b length_dropWhile_le [of p s] by (intro exI [of _ "dropWhile p s"]) (simp add: trim_def)
qed

lemma chaos_label: "dns_label ''chaos''"
  by (simp add: dns_label_def dns_char_def is_dash_def)

lemma sanitize_label: "dns_label (sanitizeDNS1123 s)"
proof -
  let ?s1 = "trimDashes (replaceInvalid (toLower s))"
  let ?s2 = "if length ?s1 > 63 then trimDashes (take 63 ?s1) else ?s1"
  have v1: "list_all dns_char ?s1" by (intro trimDashes_dns replaceInvalid_dns)
  then have "list_all dns_char (take 63 ?s1)" by (auto simp: list_all_iff dest: in_set_takeD)
  then have v2: "list_all dns_char ?s2" using v1 by (simp add: trimDashes_dns)
  have len: "length ?s2 \<le> 63" using trimDashes_length [of "take 63 ?s1"] by auto
  have ends: "?s2 \<noteq> [] \<Longrightarrow> \<not> is_dash (hd ?s2) \<and> \<not> is_dash (last ?s2)"
    by (cases "63 < length ?s1") (auto simp: trimDashes_hd trimDashes_last)
  show ?thesis
  proof (cases "?s2 = []")
    case True
    then show ?thesis using chaos_label by (simp add: sanitizeDNS1123_def Let_def)
  next
    case False
    with v2 len ends have "dns_label ?s2" by (simp add: dns_label_def)
    with False show ?thesis by (simp add: sanitizeDNS1123_def Let_def)
  qed
qed

lemma lower_char_dns [simp]: "dns_char c \<Longrightarrow> lower_char c = c"
  by (auto simp: dns_char_def lower_char_def Let_def)

lemma toLower_dns: "list_all dns_char s \<Longrightarrow> toLower s = s"
  by (induction s) (auto simp: toLower_def)

lemma toLower_append [simp]: "toLower (s @ t) = toLower s @ toLower t"
  by (simp add: toLower_def)

lemma length_toLower [simp]: "length (toLower s) = length s"
  by (simp add: toLower_def)

lemma dns_label_nonempty [simp]: "\<not> dns_label []"
  by (simp add: dns_label_def)

lemma sanitize_id: "dns_label s \<Longrightarrow> sanitizeDNS1123 s = s"
  by (simp add: sanitizeDNS1123_def dns_label_def toLower_dns replaceInvalid_id trimDashes_def
      trim_id Let_def)

text \<open>A tail without dashes, of a string that is short enough, survives.\<close>

lemma sanitize_append:
  assumes "t \<noteq> []" and "list_all dns_char t" and "\<forall>x \<in> set t. \<not> is_dash x"
    and "length s + length t \<le> 63"
  shows "\<exists>q. sanitizeDNS1123 (s @ t) = q @ t \<and> length q \<le> length s"
proof -
  from replaceInvalid_append [OF assms(2,1), of "toLower s"] obtain p where
    p: "replaceInvalid (toLower s @ t) = p @ t" "length p \<le> length s" by auto
  from trim_append [OF assms(1,3), of p] obtain q where
    q: "trim is_dash (p @ t) = q @ t" "length q \<le> length p" by blast
  have "sanitizeDNS1123 (s @ t) = q @ t"
    using assms p q by (simp add: sanitizeDNS1123_def toLower_dns trimDashes_def Let_def)
  with p q show ?thesis by (intro exI [of _ q]) simp
qed

section \<open>Run-scoped names\<close>

definition execRunSuffixLen :: nat where "execRunSuffixLen = 8"

definition execRevertSuffix :: string where "execRevertSuffix = ''-cleanup''"

definition runDigest :: "string \<Rightarrow> string" where
  "runDigest runID = take execRunSuffixLen (hex_encode (sha256 runID))"

definition execJobNames :: "string \<Rightarrow> string \<Rightarrow> string \<times> string" where
  "execJobNames base runID =
     (let maxBase = 63 - 1 - execRunSuffixLen - length execRevertSuffix;
          base = (if length base > maxBase then take maxBase base else base);
          ensure = sanitizeDNS1123 (base @ ''-'' @ runDigest runID)
      in (ensure, ensure @ execRevertSuffix))"

lemma is_hex_dns: "is_hex c \<Longrightarrow> dns_char c \<and> \<not> is_dash c"
  by (auto simp: is_hex_def dns_char_def is_dash_def Let_def)

lemma runDigest_length [simp]: "length (runDigest r) = 8"
  by (simp add: runDigest_def execRunSuffixLen_def)

lemma runDigest_hex: "\<forall>c \<in> set (runDigest r). is_hex c"
  using hex_encode_is_hex by (auto simp: runDigest_def dest: in_set_takeD)

lemma runDigest_dns: "list_all dns_char (runDigest r)" "\<forall>c \<in> set (runDigest r). \<not> is_dash c"
  using runDigest_hex is_hex_dns by (auto simp: list_all_iff)

text \<open>The ensure name ends in the digest of the run and leaves room for the revert suffix.\<close>

lemma execJobNames_form:
  "\<exists>q. fst (execJobNames base r) = q @ runDigest r \<and> length q \<le> 47"
proof -
  let ?b = "if length base > 46 then take 46 base else base"
  have len: "length (?b @ ''-'') \<le> 47" by simp
  have "runDigest r \<noteq> []" using runDigest_length [of r] by fastforce
  moreover have "length (?b @ ''-'') + length (runDigest r) \<le> 63" using len by simp
  ultimately obtain q where
    "sanitizeDNS1123 ((?b @ ''-'') @ runDigest r) = q @ runDigest r" "length q \<le> length (?b @ ''-'')"
    using sanitize_append [OF _ runDigest_dns] by blast
  with len show ?thesis
    by (intro exI [of _ q])
       (auto simp: execJobNames_def execRunSuffixLen_def execRevertSuffix_def Let_def)
qed

lemma execJobNames_snd: "snd (execJobNames base r) = fst (execJobNames base r) @ execRevertSuffix"
  by (simp add: execJobNames_def Let_def)

lemma execJobNames_labels:
  "dns_label (fst (execJobNames base r)) \<and> dns_label (snd (execJobNames base r))"
proof -
  have e: "dns_label (fst (execJobNames base r))"
    by (simp add: execJobNames_def Let_def sanitize_label)
  from execJobNames_form [of base r] have "length (fst (execJobNames base r)) \<le> 55" by auto
  with e have "dns_label (fst (execJobNames base r) @ execRevertSuffix)"
    by (auto simp: dns_label_def execRevertSuffix_def dns_char_def is_dash_def)
  with e show ?thesis by (simp add: execJobNames_snd)
qed

lemma execJobNames_inject:
  assumes "fst (execJobNames b1 r1) = fst (execJobNames b2 r2)"
  shows "runDigest r1 = runDigest r2"
proof -
  obtain q1 q2 where "q1 @ runDigest r1 = q2 @ runDigest r2"
    using assms execJobNames_form [of b1 r1] execJobNames_form [of b2 r2] by auto
  then show ?thesis by simp
qed

lemma execJobNames_disjoint: "fst (execJobNames b1 r1) \<noteq> snd (execJobNames b2 r2)"
proof
  assume eq: "fst (execJobNames b1 r1) = snd (execJobNames b2 r2)"
  obtain q1 where "fst (execJobNames b1 r1) = q1 @ runDigest r1"
    using execJobNames_form by blast
  with eq have "last (runDigest r1) = last execRevertSuffix"
    using runDigest_length [of r1]
    by (metis execJobNames_snd execRevertSuffix_def last_appendR length_0_conv list.distinct(1) zero_neq_numeral)
  moreover have "last (runDigest r1) \<in> set (runDigest r1)"
    using runDigest_length [of r1] by (intro last_in_set) fastforce
  ultimately show False
    using runDigest_hex [of r1] by (auto simp: execRevertSuffix_def is_hex_def)
qed

section \<open>The properties\<close>

text \<open>
  C30. Whatever the user writes, the name of a created chaos object is a DNS-1123 label:
  non-empty, at most 63 bytes, of lower-case letters, digits and dashes, with no dash at
  either end, and a name that is such a label already is used unchanged.
\<close>

theorem chaosObjectName_dns_label:
  "dns_label (chaosObjectName ca rc a)
   \<and> (dns_label (ca_name ca) \<longrightarrow> chaosObjectName ca rc a = ca_name ca)"
  by (auto simp: chaosObjectName_def sanitize_label sanitize_id Let_def)

theorem chaosObjectName_dns_label_witness:
  "dns_label ''net-delay'' \<and>
   chaosObjectName \<lparr>ca_kind = ''NetworkChaos'', ca_name = ''net-delay'', ca_spec = RawEmpty\<rparr>
     \<lparr>rc_scenario_name = ''s'', rc_scenario_uid = ''u'', rc_namespace = ''n'', rc_run_id = ''r'',
      rc_run_duration = 0, rc_operator_image = ''i''\<rparr> ''a'' = ''net-delay''"
  using chaosObjectName_dns_label
    [of "\<lparr>ca_kind = ''NetworkChaos'', ca_name = ''net-delay'', ca_spec = RawEmpty\<rparr>"
        "\<lparr>rc_scenario_name = ''s'', rc_scenario_uid = ''u'', rc_namespace = ''n'', rc_run_id = ''r'',
          rc_run_duration = 0, rc_operator_image = ''i''\<rparr>" "''a''"]
  by (simp add: dns_label_def dns_char_def is_dash_def)

end
