(* ===== verification/ChaosMesh.thy ===== *)
theory ChaosMesh
  imports Labelled Names Durations
begin

text \<open>
  The action ChaosMesh (operator/internal/actions/chaosmesh.go): create a Chaos Mesh object with
  the user's spec and a dead-man duration, delete it on revert. It has the contract of a
  labelled object, as Workload has.
\<close>

definition chaosMeshAPIVersion :: string where
  "chaosMeshAPIVersion = ''chaos-mesh.org/v1alpha1''"

definition chaosDeadmanMargin :: int where "chaosDeadmanMargin = 5 * minute"
definition chaosUnboundedDuration :: string where "chaosUnboundedDuration = ''24h''"

record chaos_mesh_token =
  ct_api_version :: string
  ct_kind :: string
  ct_namespace :: string
  ct_name :: string

definition marshal_chaos :: "chaos_mesh_token \<Rightarrow> raw_json" where
  "marshal_chaos t = Raw (JObj [(''apiVersion'', JStr (ct_api_version t)), (''kind'', JStr (ct_kind t)),
     (''namespace'', JStr (ct_namespace t)), (''name'', JStr (ct_name t))])"

definition unmarshal_chaos :: "raw_json \<Rightarrow> go_error + chaos_mesh_token" where
  "unmarshal_chaos raw =
     bind_err (asObj raw) (\<lambda>m.
     bind_err (strField m ''apiVersion'') (\<lambda>v.
     bind_err (strField m ''kind'') (\<lambda>k.
     bind_err (strField m ''namespace'') (\<lambda>ns.
     bind_err (strField m ''name'') (\<lambda>n.
       Inr \<lparr>ct_api_version = v, ct_kind = k, ct_namespace = ns, ct_name = n\<rparr>)))))"

lemma chaos_token_roundtrip [simp]: "unmarshal_chaos (marshal_chaos t) = Inr t"
  by (simp add: unmarshal_chaos_def marshal_chaos_def json_fields)

definition ct_key :: "chaos_mesh_token \<Rightarrow> nsname" where
  "ct_key t = (ct_namespace t, ct_name t)"

definition ChaosMesh_Plan ::
  "'w client \<Rightarrow> run_context \<Rightarrow> action \<Rightarrow> 'w \<Rightarrow> go_error + raw_json" where
  "ChaosMesh_Plan c rc act w =
     (case act_chaos_mesh act of
        None \<Rightarrow> Inl (configMissing act ''chaosMesh'')
      | Some ca \<Rightarrow>
          let n = chaosObjectName ca rc (act_name act);
              token = marshal_chaos \<lparr>ct_api_version = chaosMeshAPIVersion, ct_kind = ca_kind ca,
                        ct_namespace = rc_namespace rc, ct_name = n\<rparr>
          in case getChaos c w (ca_kind ca) (rc_namespace rc, n) of
               Inr x \<Rightarrow>
                 if go_get (ch_labels x) ScenarioLabel \<noteq> rc_scenario_name rc
                 then Inl (nameConflict rc (ca_kind ca) n)
                 else Inr token
             | Inl e \<Rightarrow> if isNotFound e then Inr token else Inl e)"

definition chaosDuration :: "int \<Rightarrow> string" where
  "chaosDuration runDuration =
     (if runDuration \<le> 0 then chaosUnboundedDuration
      else durationString (wrap64 (runDuration + chaosDeadmanMargin)))"

text \<open>
  The decoded spec: an error, no map at all (a JSON null clears the map, and writing to it
  panics), or the fields.
\<close>

definition chaos_spec_fields :: "raw_json \<Rightarrow> go_error + (string \<rightharpoonup> json) option" where
  "chaos_spec_fields raw =
     (case raw of
        RawEmpty \<Rightarrow> Inr (Some Map.empty)
      | Raw JNull \<Rightarrow> Inr None
      | _ \<Rightarrow> (case asObj raw of
                Inl e \<Rightarrow> Inl (wrapf ''action: invalid chaosMesh spec: '' e)
              | Inr m \<Rightarrow> Inr (Some m)))"

definition with_duration :: "int \<Rightarrow> (string \<rightharpoonup> json) \<Rightarrow> (string \<rightharpoonup> json)" where
  "with_duration rd m =
     (if m ''duration'' = None then m(''duration'' \<mapsto> JStr (chaosDuration rd)) else m)"

definition buildChaos ::
  "run_context \<Rightarrow> chaos_mesh_action \<Rightarrow> chaos_mesh_token \<Rightarrow> go_error + chaos option" where
  "buildChaos rc ca t =
     (case chaos_spec_fields (ca_spec ca) of
        Inl e \<Rightarrow> Inl e
      | Inr None \<Rightarrow> Inr None
      | Inr (Some m) \<Rightarrow>
          Inr (Some \<lparr>ch_kind = ct_kind t, ch_name = ct_name t, ch_namespace = ct_namespace t,
                 ch_labels = [ScenarioLabel \<mapsto> rc_scenario_name rc], ch_owners = [owner_of rc],
                 ch_deletion_timestamp = None, ch_spec = with_duration (rc_run_duration rc) m\<rparr>))"

definition ChaosMesh_Ensure ::
  "'w client \<Rightarrow> run_context \<Rightarrow> action \<Rightarrow> raw_json \<Rightarrow> 'w \<Rightarrow> 'w stepped" where
  "ChaosMesh_Ensure c rc act token w =
     (case unmarshal_chaos token of
        Inl e \<Rightarrow> (Failed (wrapf ''invalid chaosMesh token: '' e), w)
      | Inr t \<Rightarrow>
          (case act_chaos_mesh act of
             None \<Rightarrow> (Failed (configMissing act ''chaosMesh''), w)
           | Some ca \<Rightarrow>
               (case getChaos c w (ct_kind t) (ct_key t) of
                  Inr x \<Rightarrow>
                    if go_get (ch_labels x) ScenarioLabel \<noteq> rc_scenario_name rc
                    then (Failed (notOurs (ct_kind t) (ct_namespace t) (ct_name t)), w)
                    else (Returned True 0, w)
                | Inl e \<Rightarrow>
                    if \<not> isNotFound e then (Failed e, w)
                    else
                      (case buildChaos rc ca t of
                         Inl e' \<Rightarrow> (Failed e', w)
                       | Inr None \<Rightarrow> (Panicked, w)
                       | Inr (Some x) \<Rightarrow>
                           (case createChaos c w x of
                              (None, w1) \<Rightarrow> (Returned True 0, w1)
                            | (Some e', w1) \<Rightarrow>
                                if isAlreadyExists e' then (Returned False second, w1)
                                else (Failed e', w1))))))"

definition ChaosMesh_Revert ::
  "'w client \<Rightarrow> run_context \<Rightarrow> raw_json \<Rightarrow> 'w \<Rightarrow> 'w stepped" where
  "ChaosMesh_Revert c rc token w =
     (case unmarshal_chaos token of
        Inl e \<Rightarrow> (Failed (wrapf ''invalid chaosMesh token: '' e), w)
      | Inr t \<Rightarrow>
          (case getChaos c w (ct_kind t) (ct_key t) of
             Inl e \<Rightarrow> if isNotFound e then (Returned True 0, w) else (Failed e, w)
           | Inr x \<Rightarrow>
               if go_get (ch_labels x) ScenarioLabel \<noteq> rc_scenario_name rc then (Returned True 0, w)
               else if ch_deletion_timestamp x \<noteq> None then (Returned False (2 * second), w)
               else
                 (case deleteChaos c w Foreground x of
                    (Some e, w1) \<Rightarrow>
                      if isNotFound e then (Returned False (2 * second), w1) else (Failed e, w1)
                  | (None, w1) \<Rightarrow> (Returned False (2 * second), w1))))"

definition ChaosMesh :: "'w action_impl" where
  "ChaosMesh = \<lparr>ai_plan = ChaosMesh_Plan, ai_ensure = ChaosMesh_Ensure, ai_revert = ChaosMesh_Revert\<rparr>"

definition chaos_ours :: "run_context \<Rightarrow> chaos \<Rightarrow> bool" where
  "chaos_ours rc x \<longleftrightarrow> go_get (ch_labels x) ScenarioLabel = rc_scenario_name rc"

text \<open>The object built from a spec that decodes to the fields \<open>m\<close>.\<close>

definition chaos_of :: "run_context \<Rightarrow> chaos_mesh_token \<Rightarrow> (string \<rightharpoonup> json) \<Rightarrow> chaos" where
  "chaos_of rc t m = \<lparr>ch_kind = ct_kind t, ch_name = ct_name t, ch_namespace = ct_namespace t,
     ch_labels = [ScenarioLabel \<mapsto> rc_scenario_name rc], ch_owners = [owner_of rc],
     ch_deletion_timestamp = None, ch_spec = with_duration (rc_run_duration rc) m\<rparr>"

lemma buildChaos_fields:
  "buildChaos rc (ca\<lparr>ca_spec := Raw (JObj fs)\<rparr>) t = Inr (Some (chaos_of rc t (map_of (rev fs))))"
  by (simp add: buildChaos_def chaos_spec_fields_def asObj_def chaos_of_def)

interpretation chaos_mesh: labelled_action
  "\<lambda>w. getChaos c w (ct_kind t) (ct_key t)" "chaos_ours rc" "\<lambda>x. ch_deletion_timestamp x \<noteq> None"
  "\<lambda>w. deleteChaos c w Foreground" "ChaosMesh_Revert c rc (marshal_chaos t)"
  "\<lambda>w. createChaos c w (chaos_of rc t (map_of (rev fs)))"
  "ChaosMesh_Ensure c rc (act\<lparr>act_chaos_mesh := Some (ca\<lparr>ca_spec := Raw (JObj fs)\<rparr>)\<rparr>) (marshal_chaos t)"
  for c rc t act ca fs
  by unfold_locales
     (auto simp: ChaosMesh_Revert_def ChaosMesh_Ensure_def chaos_ours_def buildChaos_fields
       split: option.splits)

end
