(* ===== verification/DBExec.thy ===== *)
theory DBExec
  imports Labelled Names Workload
begin

text \<open>
  The action DBExec (operator/internal/actions/dbexec.go): run statements once on activation and
  the matching statements on revert, each as a short-lived Job of the operator's own dbtool.
  The Jobs are named after the action and the run, and the token carries all that Revert needs.
\<close>

definition execJobDeadline :: int where "execJobDeadline = 20 * minute"

record dbexec_token =
  xt_namespace :: string
  xt_engine :: string
  xt_ensure_name :: string
  xt_revert_name :: string
  xt_env :: "env_var list"
  xt_revert :: "string list"

text \<open>The fields marked omitempty are left out when empty.\<close>

definition marshal_dbexec :: "dbexec_token \<Rightarrow> raw_json" where
  "marshal_dbexec t = Raw (JObj (
     [(''namespace'', JStr (xt_namespace t)), (''engine'', JStr (xt_engine t)),
      (''ensureName'', JStr (xt_ensure_name t)), (''revertName'', JStr (xt_revert_name t))]
     @ (if xt_env t = [] then [] else [(''env'', JArr (xt_env t))])
     @ (if xt_revert t = [] then [] else [(''revert'', JArr (map JStr (xt_revert t)))])))"

definition unmarshal_dbexec :: "raw_json \<Rightarrow> go_error + dbexec_token" where
  "unmarshal_dbexec raw =
     bind_err (asObj raw) (\<lambda>m.
     bind_err (strField m ''namespace'') (\<lambda>ns.
     bind_err (strField m ''engine'') (\<lambda>en.
     bind_err (strField m ''ensureName'') (\<lambda>e.
     bind_err (strField m ''revertName'') (\<lambda>r.
     bind_err (arrField m ''env'') (\<lambda>env.
     bind_err (bind_err (arrField m ''revert'') (strList ''revert'')) (\<lambda>qs.
       Inr \<lparr>xt_namespace = ns, xt_engine = en, xt_ensure_name = e, xt_revert_name = r,
            xt_env = env, xt_revert = qs\<rparr>)))))))"

lemma dbexec_token_roundtrip [simp]: "unmarshal_dbexec (marshal_dbexec t) = Inr t"
  by (cases "xt_env t"; cases "xt_revert t")
     (auto simp: unmarshal_dbexec_def marshal_dbexec_def json_fields simp flip: list.map)

definition DBExec_Plan_check ::
  "'w client \<Rightarrow> run_context \<Rightarrow> string \<Rightarrow> 'w \<Rightarrow> go_error option" where
  "DBExec_Plan_check c rc n w =
     (case getJob c w (rc_namespace rc, n) of
        Inr existing \<Rightarrow>
          if go_get (job_labels existing) ScenarioLabel \<noteq> rc_scenario_name rc
          then Some (nameConflict rc ''job'' n) else None
      | Inl e \<Rightarrow> if isNotFound e then None else Some e)"

definition DBExec_Plan ::
  "'w client \<Rightarrow> run_context \<Rightarrow> action \<Rightarrow> 'w \<Rightarrow> go_error + raw_json" where
  "DBExec_Plan c rc act w =
     (case act_dbexec act of
        None \<Rightarrow> Inl (configMissing act ''dbExec'')
      | Some da \<Rightarrow>
          let (ensureName, revertName) = execJobNames (de_name da) (rc_run_id rc) in
          (case DBExec_Plan_check c rc ensureName w of
             Some e \<Rightarrow> Inl e
           | None \<Rightarrow>
               (case DBExec_Plan_check c rc revertName w of
                  Some e \<Rightarrow> Inl e
                | None \<Rightarrow>
                    Inr (marshal_dbexec \<lparr>xt_namespace = rc_namespace rc, xt_engine = de_engine da,
                           xt_ensure_name = ensureName, xt_revert_name = revertName,
                           xt_env = de_env da, xt_revert = de_revert da\<rparr>))))"

definition exec_buildJob ::
  "run_context \<Rightarrow> string \<Rightarrow> string \<Rightarrow> env_var list \<Rightarrow> string list \<Rightarrow> job" where
  "exec_buildJob rc n engine env queries =
     (let labels = [ScenarioLabel \<mapsto> rc_scenario_name rc, ''app'' \<mapsto> n]
      in \<lparr>job_name = n,
          job_namespace = rc_namespace rc,
          job_labels = labels,
          job_owners = [owner_of rc],
          job_deletion_timestamp = None,
          job_spec_of = \<lparr>
            js_parallelism = 1,
            js_completions = Some 1,
            js_backoff_limit = 4,
            js_active_deadline_seconds = go_div execJobDeadline second,
            js_ttl_seconds_after_finished = 600,
            js_template_labels = labels,
            js_restart_policy = ''Never'',
            js_affinity = None,
            js_container_name = n,
            js_image = rc_operator_image rc,
            js_args = [''dbtool'', ''--engine'', engine, ''--once''] @ queryArgs queries,
            js_env = env,
            js_resources = \<lparr>res_requests = [(''cpu'', ''50m''), (''memory'', ''64Mi'')],
                            res_limits = [(''memory'', ''256Mi'')]\<rparr>\<rparr>,
          job_succeeded = 0,
          job_conditions = []\<rparr>)"

text \<open>The first Failed condition that is true, if any.\<close>

definition failed_condition :: "job \<Rightarrow> job_condition option" where
  "failed_condition j = find (\<lambda>x. jc_type x = ''Failed'' \<and> jc_status x = ''True'') (job_conditions j)"

definition runJob ::
  "'w client \<Rightarrow> run_context \<Rightarrow> string \<Rightarrow> string \<Rightarrow> env_var list \<Rightarrow> string list \<Rightarrow> 'w \<Rightarrow> 'w stepped" where
  "runJob c rc n engine env queries w =
     (case getJob c w (rc_namespace rc, n) of
        Inr job \<Rightarrow>
          if go_get (job_labels job) ScenarioLabel \<noteq> rc_scenario_name rc
          then (Failed (notOurs ''job'' (rc_namespace rc) n), w)
          else if job_succeeded job > 0 then (Returned True 0, w)
          else
            (case failed_condition job of
               Some cond \<Rightarrow>
                 let w1 = (if job_deletion_timestamp job = None then snd (deleteJob c w Background job) else w)
                 in (Failed (errorf (''exec job '' @ n @ '' failed: '' @ jc_message cond)), w1)
             | None \<Rightarrow> (Returned False (2 * second), w))
      | Inl e \<Rightarrow>
          if \<not> isNotFound e then (Failed e, w)
          else
            (case createJob c w (exec_buildJob rc n engine env queries) of
               (None, w1) \<Rightarrow> (Returned False (2 * second), w1)
             | (Some e', w1) \<Rightarrow>
                 if isAlreadyExists e' then (Returned False second, w1) else (Failed e', w1)))"

definition DBExec_Ensure ::
  "'w client \<Rightarrow> run_context \<Rightarrow> action \<Rightarrow> raw_json \<Rightarrow> 'w \<Rightarrow> 'w stepped" where
  "DBExec_Ensure c rc act token w =
     (case act_dbexec act of
        None \<Rightarrow> (Failed (configMissing act ''dbExec''), w)
      | Some da \<Rightarrow>
          (case unmarshal_dbexec token of
             Inl e \<Rightarrow> (Failed (wrapf ''invalid dbexec token: '' e), w)
           | Inr t \<Rightarrow> runJob c rc (xt_ensure_name t) (de_engine da) (de_env da) (de_ensure da) w))"

definition DBExec_Revert ::
  "'w client \<Rightarrow> run_context \<Rightarrow> raw_json \<Rightarrow> 'w \<Rightarrow> 'w stepped" where
  "DBExec_Revert c rc token w =
     (case unmarshal_dbexec token of
        Inl e \<Rightarrow> (Failed (wrapf ''invalid dbexec token: '' e), w)
      | Inr t \<Rightarrow>
          if xt_revert t = [] then (Returned True 0, w)
          else runJob c rc (xt_revert_name t) (xt_engine t) (xt_env t) (xt_revert t) w)"

definition DBExec :: "'w action_impl" where
  "DBExec = \<lparr>ai_plan = DBExec_Plan, ai_ensure = DBExec_Ensure, ai_revert = DBExec_Revert\<rparr>"

end
