(* ===== verification/Actions.thy ===== *)
theory Actions
  imports Workload DeployImage ChaosMesh DBExec
begin

text \<open>
  The registry of the action implementations (operator/internal/actions/action.go): what the
  init functions register and \<^verbatim>\<open>Get\<close> looks up.
\<close>

type_synonym 'w registry = "action_type \<Rightarrow> 'w action_impl option"

fun Get :: "'w registry" where
  "Get ActionTypeWorkload = Some Workload"
| "Get ActionTypeScale = Some Scale"
| "Get ActionTypeDeployImage = Some DeployImage"
| "Get ActionTypeChaosMesh = Some ChaosMesh"
| "Get ActionTypeDBExec = Some DBExec"
| "Get (ActionTypeOther s) = None"

lemmas impl_simps [simp] = Workload_def Scale_def DeployImage_def ChaosMesh_def DBExec_def

end
