(* ===== verification/Helpers.thy ===== *)
theory Helpers
  imports Actions
begin

text \<open>
  The helpers of the reconciler (operator/internal/controller/helpers.go): validation of a spec,
  the decision to start or keep a run, the bookkeeping of active actions and history, requeue
  intervals and backoff. The lemmas give the behaviour of each on every branch.
\<close>

section \<open>Validation\<close>

text \<open>Which configuration fields of an action are set, in the order of the CRD.\<close>

definition exactly_field :: "action \<Rightarrow> bool \<times> bool \<times> bool \<times> bool \<times> bool \<Rightarrow> bool" where
  "exactly_field a want \<longleftrightarrow>
     (act_workload a \<noteq> None, act_scale a \<noteq> None, act_deploy_image a \<noteq> None,
      act_chaos_mesh a \<noteq> None, act_dbexec a \<noteq> None) = want"

definition requiresExactly :: "action \<Rightarrow> string \<Rightarrow> string \<Rightarrow> go_error" where
  "requiresExactly a ty fld =
     errorf (''action '' @ quote (act_name a) @ '': type '' @ ty @ '' requires exactly the '' @ fld @ '' field'')"

definition check_type :: "action \<Rightarrow> go_error option" where
  "check_type a =
     (case act_type a of
        ActionTypeWorkload \<Rightarrow>
          if exactly_field a (True, False, False, False, False) then None
          else Some (requiresExactly a ''Workload'' ''workload'')
      | ActionTypeScale \<Rightarrow>
          if exactly_field a (False, True, False, False, False) then None
          else Some (requiresExactly a ''Scale'' ''scale'')
      | ActionTypeDeployImage \<Rightarrow>
          if exactly_field a (False, False, True, False, False) then None
          else Some (requiresExactly a ''DeployImage'' ''deployImage'')
      | ActionTypeChaosMesh \<Rightarrow>
          if exactly_field a (False, False, False, True, False) then None
          else Some (requiresExactly a ''ChaosMesh'' ''chaosMesh'')
      | ActionTypeDBExec \<Rightarrow>
          if exactly_field a (False, False, False, False, True) then None
          else Some (requiresExactly a ''DBExec'' ''dbExec'')
      | ActionTypeOther s \<Rightarrow>
          Some (errorf (''action '' @ quote (act_name a) @ '': unknown type '' @ quote s)))"

fun validate_actions :: "'w registry \<Rightarrow> string list \<Rightarrow> action list \<Rightarrow> go_error option" where
  "validate_actions reg seen [] = None"
| "validate_actions reg seen (a # as) =
     (if act_name a \<in> set seen then Some (errorf (''duplicate action name '' @ quote (act_name a)))
      else
        (case check_type a of
           Some e \<Rightarrow> Some e
         | None \<Rightarrow>
             if reg (act_type a) = None
             then Some (errorf (''action '' @ quote (act_name a) @ '': no implementation registered for type ''
                    @ quote (type_name (act_type a))))
             else validate_actions reg (act_name a # seen) as))"

definition validateSpec :: "'w registry \<Rightarrow> mj_spec \<Rightarrow> go_error option" where
  "validateSpec reg spec =
     (if sp_actions spec = [] then Some (errorf ''spec.actions must contain at least one action'')
      else validate_actions reg [] (sp_actions spec))"

section \<open>When a run starts and when it is kept\<close>

definition desiredRun ::
  "'w client \<Rightarrow> maintenance_job \<Rightarrow> 'w \<Rightarrow> (run_trigger \<times> string \<times> int) option \<times> 'w" where
  "desiredRun c fs w =
     (let duration = (case sp_duration (mj_spec_of fs) of None \<Rightarrow> 0 | Some d \<Rightarrow> d) in
      if sp_enabled (mj_spec_of fs)
      then (let (u, w1) = newUUID c w in (Some (RunTriggerEnabled, u, duration), w1))
      else
        (case sp_trigger (mj_spec_of fs) of
           Some t \<Rightarrow>
             if ts_run_id t \<noteq> [] \<and> ts_run_id t \<noteq> st_last_completed_run_id (mj_status_of fs)
             then (Some (RunTriggerManual, ts_run_id t,
                     case ts_duration t of Some d \<Rightarrow> d | None \<Rightarrow> duration), w)
             else (None, w)
         | None \<Rightarrow> (None, w)))"

definition runStillWanted :: "maintenance_job \<Rightarrow> current_run \<Rightarrow> bool" where
  "runStillWanted fs run =
     (case cr_trigger run of
        RunTriggerEnabled \<Rightarrow> sp_enabled (mj_spec_of fs)
      | RunTriggerManual \<Rightarrow>
          (case sp_trigger (mj_spec_of fs) of None \<Rightarrow> False | Some t \<Rightarrow> ts_run_id t = cr_id run)
      | RunTriggerOther s \<Rightarrow> False)"

section \<open>The bookkeeping of a status\<close>

definition findActiveAction :: "active_action list \<Rightarrow> string \<Rightarrow> nat option" where
  "findActiveAction xs n = find_index (\<lambda>a. aa_name a = n) xs"

definition update_active :: "string \<Rightarrow> (active_action \<Rightarrow> active_action) \<Rightarrow> active_action list \<Rightarrow> active_action list" where
  "update_active n f xs =
     (case findActiveAction xs n of Some i \<Rightarrow> xs[i := f (xs ! i)] | None \<Rightarrow> xs)"

definition statusMutation :: "string \<Rightarrow> (active_action \<Rightarrow> active_action) \<Rightarrow> 'w \<Rightarrow> mj_status \<Rightarrow> mj_status" where
  "statusMutation n f w s = s\<lparr>st_active_actions := update_active n f (st_active_actions s)\<rparr>"

definition historyCap :: nat where "historyCap = 10"

definition appendHistory :: "run_history_entry list \<Rightarrow> run_history_entry \<Rightarrow> run_history_entry list" where
  "appendHistory history entry =
     (let h = history @ [entry]
      in if length h > historyCap then drop (length h - historyCap) h else h)"

section \<open>Intervals\<close>

definition lowerRequeue :: "int \<Rightarrow> int \<Rightarrow> int" where
  "lowerRequeue cur d = (if d \<le> 0 then cur else if cur = 0 \<or> d < cur then d else cur)"

definition backoffFor :: "int \<Rightarrow> int" where
  "backoffFor attempts =
     (let a = (if attempts < 1 then 1 else attempts);
          b = (if a > 5 then 5 else a)
      in min (30 * second) (second * 2 ^ nat (b - 1)))"

definition setCondition ::
  "'w client \<Rightarrow> int \<Rightarrow> condition_type \<Rightarrow> bool \<Rightarrow> string \<Rightarrow> string \<Rightarrow> 'w \<Rightarrow> mj_status \<Rightarrow> mj_status" where
  "setCondition c generation ty status reason message w s =
     s\<lparr>st_conditions := setStatusCondition c w (st_conditions s)
         \<lparr>cond_type = ty, cond_status = status, cond_reason = reason, cond_message = message,
          cond_observed_generation = generation\<rparr>\<rparr>"

section \<open>Lemmas on the bookkeeping\<close>

definition active_names :: "mj_status \<Rightarrow> string list" where
  "active_names s = map aa_name (st_active_actions s)"

lemma findActiveAction_None: "findActiveAction xs n = None \<longleftrightarrow> n \<notin> aa_name ` set xs"
  by (auto simp: findActiveAction_def find_index_None)

lemma findActiveAction_Some:
  "findActiveAction xs n = Some i \<Longrightarrow> i < length xs \<and> aa_name (xs ! i) = n"
  unfolding findActiveAction_def by (auto dest: find_index_Some)

lemma findActiveAction_snoc:
  "findActiveAction xs n = None \<Longrightarrow> aa_name a = n \<Longrightarrow> findActiveAction (xs @ [a]) n = Some (length xs)"
  by (simp add: findActiveAction_def find_index_append)

text \<open>Changing an entry in place keeps the names and their order.\<close>

lemma update_active_names:
  "(\<And>a. aa_name (f a) = aa_name a) \<Longrightarrow> map aa_name (update_active n f xs) = map aa_name xs"
  by (auto simp: update_active_def map_update list_update_id split: option.splits
      dest!: findActiveAction_Some) (metis list_update_id nth_map)

lemma update_active_length [simp]: "length (update_active n f xs) = length xs"
  by (simp add: update_active_def split: option.splits)

lemma appendHistory_length: "length (appendHistory h e) = min historyCap (Suc (length h))"
  by (auto simp: appendHistory_def Let_def)

lemma appendHistory_last [simp]: "last (appendHistory h e) = e \<and> appendHistory h e \<noteq> []"
  by (auto simp: appendHistory_def historyCap_def Let_def last_drop)

lemma lowerRequeue_nonneg: "0 \<le> cur \<Longrightarrow> 0 \<le> lowerRequeue cur d"
  by (simp add: lowerRequeue_def)

lemma lowerRequeue_pos: "0 \<le> cur \<Longrightarrow> 0 < d \<Longrightarrow> 0 < lowerRequeue cur d \<and> lowerRequeue cur d \<le> d"
  by (auto simp: lowerRequeue_def)

lemma lowerRequeue_le: "0 < cur \<Longrightarrow> lowerRequeue cur d \<le> cur \<and> 0 < lowerRequeue cur d"
  by (auto simp: lowerRequeue_def)

lemma backoffFor_cases:
  "backoffFor a = (if a \<le> 1 then second else if a = 2 then 2 * second else if a = 3 then 4 * second
     else if a = 4 then 8 * second else 16 * second)"
proof -
  consider "a \<le> 1" | "a = 2" | "a = 3" | "a = 4" | "5 \<le> a" by linarith
  then show ?thesis by cases (auto simp: backoffFor_def second_def)
qed

lemma backoffFor_range: "second \<le> backoffFor a \<and> backoffFor a \<le> 16 * second"
  by (auto simp: backoffFor_cases second_def)

lemma backoffFor_mono: "a \<le> b \<Longrightarrow> backoffFor a \<le> backoffFor b"
  by (auto simp: backoffFor_cases second_def)

section \<open>What validation guarantees\<close>

lemma validate_actions_None:
  "validate_actions reg seen as = None \<longleftrightarrow>
     distinct (map act_name as) \<and> set seen \<inter> act_name ` set as = {}
     \<and> (\<forall>a \<in> set as. check_type a = None \<and> reg (act_type a) \<noteq> None)"
  by (induction as arbitrary: seen) (auto split: option.splits)

lemma validateSpec_None:
  "validateSpec reg spec = None \<longleftrightarrow>
     sp_actions spec \<noteq> [] \<and> distinct (map act_name (sp_actions spec))
     \<and> (\<forall>a \<in> set (sp_actions spec). check_type a = None \<and> reg (act_type a) \<noteq> None)"
  by (simp add: validateSpec_def validate_actions_None)

end
