(* ===== verification/Controller.thy ===== *)
theory Controller
  imports Helpers
begin

text \<open>
  The reconciler (operator/internal/controller/maintenancejob_controller.go): one call of
  \<^verbatim>\<open>Reconcile\<close> as a function of the world, with every early return and every place where the
  Go code would panic. \<open>r\<close> is the reconciler: its client, the registry of the actions, the
  operator's image and namespace.
\<close>

definition FinalizerName :: string where
  "FinalizerName = ''maintenance.platform.dev/cleanup''"

definition ForceReleaseAnnotation :: string where
  "ForceReleaseAnnotation = ''maintenance.platform.dev/force-release''"

definition LeakedStateConfigMap :: string where
  "LeakedStateConfigMap = ''maintenance-controller-state''"

definition steadyStateResync :: int where "steadyStateResync = 30 * second"

definition degradedAfterFailures :: int where "degradedAfterFailures = 5"

record 'w reconciler =
  r_client :: "'w client"
  r_registry :: "'w registry"
  r_operator_image :: string
  r_namespace :: string

record ctrl_result =
  requeue :: bool
  requeue_after :: int

text \<open>What a call of Reconcile gives the work queue: a result and perhaps an error, or a panic.\<close>

datatype rec_outcome = Done ctrl_result "go_error option" | Crash

definition no_result :: ctrl_result where
  "no_result = \<lparr>requeue = False, requeue_after = 0\<rparr>"

definition failing :: "go_error \<Rightarrow> rec_outcome" where
  "failing e = Done no_result (Some e)"

definition settled :: rec_outcome where
  "settled = Done no_result None"

definition requeue_now :: rec_outcome where
  "requeue_now = Done \<lparr>requeue = True, requeue_after = 0\<rparr> None"

definition requeue_in :: "int \<Rightarrow> rec_outcome" where
  "requeue_in d = Done \<lparr>requeue = False, requeue_after = d\<rparr> None"

section \<open>Status updates\<close>

text \<open>The closure of \<^verbatim>\<open>patchStatus\<close>: read the latest object, mutate its status, write it.\<close>

definition patch_once ::
  "'w client \<Rightarrow> maintenance_job \<Rightarrow> ('w \<Rightarrow> mj_status \<Rightarrow> mj_status) \<Rightarrow> 'w \<Rightarrow> (go_error + maintenance_job) \<times> 'w" where
  "patch_once c fs mutate w =
     (case getMJ c w (mj_key fs) of
        Inl e \<Rightarrow> (Inl e, w)
      | Inr latest \<Rightarrow>
          updateMJStatus c w (latest\<lparr>mj_status_of :=
            (mutate w (mj_status_of latest))\<lparr>st_observed_generation := mj_generation latest\<rparr>\<rparr>))"

text \<open>The result is the refreshed object, as \<^verbatim>\<open>*fs = *latest\<close>.\<close>

definition patchStatus ::
  "'w reconciler \<Rightarrow> maintenance_job \<Rightarrow> ('w \<Rightarrow> mj_status \<Rightarrow> mj_status) \<Rightarrow> 'w \<Rightarrow> (go_error + maintenance_job) \<times> 'w" where
  "patchStatus r fs mutate w =
     retryOnConflict (r_client r) (patch_once (r_client r) fs mutate) w"

definition eventf :: "'w reconciler \<Rightarrow> maintenance_job \<Rightarrow> event_type \<Rightarrow> string \<Rightarrow> string \<Rightarrow> 'w \<Rightarrow> 'w" where
  "eventf r fs ty reason msg w =
     recordEvent (r_client r) w \<lparr>ev_object = mj_key fs, ev_type = ty, ev_reason = reason, ev_message = msg\<rparr>"

definition runContext :: "'w reconciler \<Rightarrow> maintenance_job \<Rightarrow> current_run option \<Rightarrow> run_context" where
  "runContext r fs run =
     \<lparr>rc_scenario_name = mj_name fs, rc_scenario_uid = mj_uid fs, rc_namespace = mj_namespace fs,
      rc_run_id = (case run of None \<Rightarrow> [] | Some cr \<Rightarrow> cr_id cr),
      rc_run_duration =
        (case run of None \<Rightarrow> 0
         | Some cr \<Rightarrow> (case cr_expires_at cr of None \<Rightarrow> 0 | Some t \<Rightarrow> t - cr_started_at cr)),
      rc_operator_image = r_operator_image r\<rparr>"

section \<open>Starting a run\<close>

definition maybeStartRun :: "'w reconciler \<Rightarrow> maintenance_job \<Rightarrow> 'w \<Rightarrow> rec_outcome \<times> 'w" where
  "maybeStartRun r fs w =
     (case desiredRun (r_client r) fs w of
        (None, w1) \<Rightarrow>
          if st_phase (mj_status_of fs) \<noteq> PhaseIdle
             \<or> \<not> isStatusConditionTrue (r_client r) (st_conditions (mj_status_of fs)) ConditionReady
          then
            (case patchStatus r fs (\<lambda>v s. setCondition (r_client r) (mj_generation fs) ConditionReady True
                     ''Idle'' ''scenario is idle'' v (s\<lparr>st_phase := PhaseIdle\<rparr>)) w1 of
               (Inl e, w2) \<Rightarrow> (failing e, w2)
             | (Inr _, w2) \<Rightarrow> (settled, w2))
          else (settled, w1)
      | (Some (trigger, runID, duration), w1) \<Rightarrow>
          let now = clock (r_client r) w1;
              cr = \<lparr>cr_id = runID, cr_trigger = trigger, cr_started_at = now,
                    cr_expires_at = (if duration > 0 then Some (now + duration) else None)\<rparr>
          in (case patchStatus r fs (\<lambda>v s. s\<lparr>st_current_run := Some cr, st_phase := PhaseActivating\<rparr>) w1 of
                (Inl e, w2) \<Rightarrow> (failing e, w2)
              | (Inr fs', w2) \<Rightarrow>
                  (requeue_now,
                   eventf r fs' EventNormal ''RunStarted''
                     (''run '' @ runID @ '' started (trigger='' @ trigger_name trigger @ '', duration=''
                      @ durationString duration @ '')'') w2)))"

section \<open>Activation\<close>

text \<open>
  One action's turn either goes on to the next action, with the refreshed object, the requeue
  interval and whether all actions so far are applied, or ends the reconcile.
\<close>

datatype 'w turn = Next maintenance_job int bool 'w | Stop rec_outcome 'w

definition mark_failed :: "go_error \<Rightarrow> active_action \<Rightarrow> active_action" where
  "mark_failed e a = a\<lparr>aa_attempts := wrap32 (aa_attempts a + 1), aa_last_error := err_text e\<rparr>"

definition mark_applied :: "int \<Rightarrow> active_action \<Rightarrow> active_action" where
  "mark_applied now a =
     (let a1 = (if aa_phase a \<noteq> ActionPhaseApplied
                then a\<lparr>aa_phase := ActionPhaseApplied, aa_applied_at := Some now\<rparr> else a)
      in a1\<lparr>aa_attempts := 0, aa_last_error := []\<rparr>)"

definition ensure_turn ::
  "'w reconciler \<Rightarrow> 'w action_impl \<Rightarrow> run_context \<Rightarrow> int \<Rightarrow> action \<Rightarrow> maintenance_job \<Rightarrow> int \<Rightarrow> bool \<Rightarrow> 'w \<Rightarrow> 'w turn" where
  "ensure_turn r impl rc now act fs rq allApplied w =
     (case findActiveAction (st_active_actions (mj_status_of fs)) (act_name act) of
        None \<Rightarrow> Stop Crash w
      | Some idx \<Rightarrow>
          let aa = st_active_actions (mj_status_of fs) ! idx in
          (case ai_ensure impl (r_client r) rc act (aa_revert aa) w of
             (Panicked, w1) \<Rightarrow> Stop Crash w1
           | (Failed e, w1) \<Rightarrow>
               (case patchStatus r fs (statusMutation (act_name act) (mark_failed e)) w1 of
                  (Inl pe, w2) \<Rightarrow> Stop (failing pe) w2
                | (Inr fs', w2) \<Rightarrow>
                    Next fs' (lowerRequeue rq (backoffFor (wrap32 (aa_attempts aa + 1))))
                      (if aa_phase aa \<noteq> ActionPhaseApplied then False else allApplied) w2)
           | (Returned True ra, w1) \<Rightarrow>
               if aa_phase aa \<noteq> ActionPhaseApplied \<or> aa_last_error aa \<noteq> []
               then
                 (case patchStatus r fs (statusMutation (act_name act) (mark_applied now)) w1 of
                    (Inl e, w2) \<Rightarrow> Stop (failing e) w2
                  | (Inr fs', w2) \<Rightarrow> Next fs' rq allApplied w2)
               else Next fs rq allApplied w1
           | (Returned False ra, w1) \<Rightarrow>
               Next fs (lowerRequeue rq (if ra \<le> 0 then 5 * second else ra)) False w1))"

definition recorded :: "action \<Rightarrow> raw_json \<Rightarrow> active_action" where
  "recorded act token =
     \<lparr>aa_name = act_name act, aa_type = act_type act, aa_phase = ActionPhaseRecorded,
      aa_applied_at = None, aa_attempts = 0, aa_last_error = [], aa_revert = token\<rparr>"

definition record_token :: "active_action \<Rightarrow> 'w \<Rightarrow> mj_status \<Rightarrow> mj_status" where
  "record_token aa v s =
     (if findActiveAction (st_active_actions s) (aa_name aa) = None
      then s\<lparr>st_active_actions := st_active_actions s @ [aa]\<rparr> else s)\<lparr>st_phase := PhaseActivating\<rparr>"

definition activate_turn ::
  "'w reconciler \<Rightarrow> run_context \<Rightarrow> current_run \<Rightarrow> int \<Rightarrow> nat \<Rightarrow> maintenance_job \<Rightarrow> int \<Rightarrow> bool \<Rightarrow> 'w \<Rightarrow> 'w turn" where
  "activate_turn r rc run now i fs rq allApplied w =
     (if length (sp_actions (mj_spec_of fs)) \<le> i then Stop Crash w
      else
        let act = sp_actions (mj_spec_of fs) ! i in
        (case r_registry r (act_type act) of
           None \<Rightarrow> Stop (failing (errorf (''unknown action type '' @ quote (type_name (act_type act))))) w
         | Some impl \<Rightarrow>
             if findActiveAction (st_active_actions (mj_status_of fs)) (act_name act) \<noteq> None
             then ensure_turn r impl rc now act fs rq allApplied w
             else
               let activateAt = cr_started_at run + (case act_delay act of None \<Rightarrow> 0 | Some d \<Rightarrow> d) in
               if now < activateAt then Next fs (lowerRequeue rq (activateAt - now)) False w
               else
                 (case ai_plan impl (r_client r) rc act w of
                    Inl e \<Rightarrow>
                      let msg = ''action '' @ act_name act @ '': '' @ err_text e;
                          w1 = eventf r fs EventWarning ''PlanFailed'' msg w
                      in (case patchStatus r fs (\<lambda>v s. setCondition (r_client r) (mj_generation fs)
                                 ConditionReady False ''PlanFailed'' msg v s) w1 of
                            (Inl pe, w2) \<Rightarrow> Stop (failing pe) w2
                          | (Inr fs', w2) \<Rightarrow> Next fs' (lowerRequeue rq (10 * second)) False w2)
                  | Inr token \<Rightarrow>
                      (case patchStatus r fs (record_token (recorded act token)) w of
                         (Inl e, w1) \<Rightarrow> Stop (failing e) w1
                       | (Inr fs', w1) \<Rightarrow> ensure_turn r impl rc now act fs' rq False w1))))"

text \<open>
  The loop over the indices of the actions the spec had at its start; the object, and with it
  the spec, is refreshed on the way.
\<close>

fun activate_loop ::
  "'w reconciler \<Rightarrow> run_context \<Rightarrow> current_run \<Rightarrow> int \<Rightarrow> nat list \<Rightarrow> maintenance_job \<Rightarrow> int \<Rightarrow> bool \<Rightarrow> 'w \<Rightarrow> 'w turn" where
  "activate_loop r rc run now [] fs rq allApplied w = Next fs rq allApplied w"
| "activate_loop r rc run now (i # is) fs rq allApplied w =
     (case activate_turn r rc run now i fs rq allApplied w of
        Stop out w1 \<Rightarrow> Stop out w1
      | Next fs' rq' allApplied' w1 \<Rightarrow> activate_loop r rc run now is fs' rq' allApplied' w1)"

text \<open>The interval until the next call in the steady state: the resync, or the expiry.\<close>

definition steady_requeue :: "'w client \<Rightarrow> current_run \<Rightarrow> int \<Rightarrow> 'w \<Rightarrow> int" where
  "steady_requeue c run rq w =
     (let rq1 = lowerRequeue rq steadyStateResync in
      (case cr_expires_at run of
         None \<Rightarrow> rq1
       | Some t \<Rightarrow>
           let until = t - clock c w
           in lowerRequeue rq1 (if until < second then second else until)))"

definition activate_finish ::
  "'w reconciler \<Rightarrow> current_run \<Rightarrow> maintenance_job \<Rightarrow> int \<Rightarrow> bool \<Rightarrow> 'w \<Rightarrow> rec_outcome \<times> 'w" where
  "activate_finish r run fs rq allApplied w =
     (let phase = (if allApplied then PhaseActive else PhaseActivating) in
      if st_phase (mj_status_of fs) \<noteq> phase
         \<or> \<not> isStatusConditionTrue (r_client r) (st_conditions (mj_status_of fs)) ConditionReady
      then
        (case patchStatus r fs (\<lambda>v s.
                 let s1 = s\<lparr>st_phase := phase\<rparr> in
                 if allApplied
                 then setCondition (r_client r) (mj_generation fs) ConditionReady True ''Active''
                        ''all actions applied'' v s1
                 else s1) w of
           (Inl e, w1) \<Rightarrow> (failing e, w1)
         | (Inr fs', w1) \<Rightarrow>
             let w2 = (if phase = PhaseActive \<and> st_phase (mj_status_of fs') = PhaseActive
                       then eventf r fs' EventNormal ''Active''
                              (''run '' @ cr_id run @ '': all actions applied'') w1
                       else w1)
             in (requeue_in (steady_requeue (r_client r) run rq w2), w2))
      else (requeue_in (steady_requeue (r_client r) run rq w), w))"

definition reconcileActivate ::
  "'w reconciler \<Rightarrow> maintenance_job \<Rightarrow> current_run \<Rightarrow> 'w \<Rightarrow> rec_outcome \<times> 'w" where
  "reconcileActivate r fs run w =
     (let now = clock (r_client r) w; rc = runContext r fs (Some run) in
      (case activate_loop r rc run now [0..<length (sp_actions (mj_spec_of fs))] fs 0 True w of
         Stop out w1 \<Rightarrow> (out, w1)
       | Next fs' rq allApplied w1 \<Rightarrow> activate_finish r run fs' rq allApplied w1))"

section \<open>Reverting\<close>

definition finished_result :: "current_run \<Rightarrow> int \<Rightarrow> run_result \<Rightarrow> run_result" where
  "finished_result run now result =
     (case cr_expires_at run of
        Some t \<Rightarrow> if \<not> now < t then RunResultCompleted else result
      | None \<Rightarrow> result)"

definition close_run ::
  "'w client \<Rightarrow> int \<Rightarrow> run_history_entry \<Rightarrow> string \<Rightarrow> 'w \<Rightarrow> mj_status \<Rightarrow> mj_status" where
  "close_run c generation entry runID v s =
     setCondition c generation ConditionReady True ''Idle'' ''scenario is idle'' v
       (s\<lparr>st_history := appendHistory (st_history s) entry, st_last_completed_run_id := runID,
          st_current_run := None, st_phase := PhaseIdle,
          st_conditions := removeStatusCondition c (st_conditions s) ConditionRevertFailed\<rparr>)"

text \<open>Go's name for the run's result, as the history and the event show it.\<close>

fun result_name :: "run_result \<Rightarrow> string" where
  "result_name RunResultCompleted = ''Completed''"
| "result_name RunResultReverted = ''Reverted''"
| "result_name RunResultFailed = ''Failed''"

definition finishRun ::
  "'w reconciler \<Rightarrow> maintenance_job \<Rightarrow> current_run option \<Rightarrow> bool \<Rightarrow> run_result \<Rightarrow> string \<Rightarrow> 'w \<Rightarrow> rec_outcome \<times> 'w" where
  "finishRun r fs run deleting result message w =
     (if deleting
      then
        (case updateMJ (r_client r) w (removeFinalizer (r_client r) fs FinalizerName) of
           (Inl e, w1) \<Rightarrow> (failing e, w1)
         | (Inr _, w1) \<Rightarrow> (settled, w1))
      else
        (case run of
           Some cr \<Rightarrow>
             let now = clock (r_client r) w;
                 res = finished_result cr now result;
                 entry = \<lparr>he_id = cr_id cr, he_trigger = cr_trigger cr, he_started_at = cr_started_at cr,
                          he_ended_at = Some now, he_result = res, he_message = message\<rparr>
             in (case patchStatus r fs (close_run (r_client r) (mj_generation fs) entry (cr_id cr)) w of
                   (Inl e, w1) \<Rightarrow> (failing e, w1)
                 | (Inr fs', w1) \<Rightarrow>
                     (requeue_now,
                      eventf r fs' EventNormal ''RunFinished''
                        (''run '' @ cr_id cr @ '' finished: '' @ result_name res) w1))
         | None \<Rightarrow>
             if st_phase (mj_status_of fs) \<noteq> PhaseIdle
             then
               (case patchStatus r fs (\<lambda>v s. s\<lparr>st_phase := PhaseIdle,
                         st_conditions := removeStatusCondition (r_client r) (st_conditions s)
                           ConditionRevertFailed\<rparr>) w of
                  (Inl e, w1) \<Rightarrow> (failing e, w1)
                | (Inr _, w1) \<Rightarrow> (requeue_now, w1))
             else (requeue_now, w)))"

definition mark_reverting :: "active_action \<Rightarrow> active_action" where
  "mark_reverting a = a\<lparr>aa_phase := ActionPhaseReverting, aa_last_error := []\<rparr>"

definition mark_revert_failed :: "int \<Rightarrow> go_error \<Rightarrow> active_action \<Rightarrow> active_action" where
  "mark_revert_failed attempts e a =
     a\<lparr>aa_phase := ActionPhaseReverting, aa_attempts := attempts, aa_last_error := err_text e\<rparr>"

definition revert_failed ::
  "'w client \<Rightarrow> int \<Rightarrow> active_action \<Rightarrow> int \<Rightarrow> go_error \<Rightarrow> 'w \<Rightarrow> mj_status \<Rightarrow> mj_status" where
  "revert_failed c generation aa attempts e v s =
     (let s1 = statusMutation (aa_name aa) (mark_revert_failed attempts e) v s in
      if attempts \<ge> degradedAfterFailures
      then setCondition c generation ConditionRevertFailed True ''RevertFailing''
             (''action '' @ aa_name aa @ '' failed to revert '' @ show_int attempts @ '' times: '' @ err_text e)
             v (s1\<lparr>st_phase := PhaseDegraded\<rparr>)
      else s1)"

definition drop_active :: "string \<Rightarrow> 'w \<Rightarrow> mj_status \<Rightarrow> mj_status" where
  "drop_active n v s =
     (case findActiveAction (st_active_actions s) n of
        Some i \<Rightarrow> s\<lparr>st_active_actions := take i (st_active_actions s) @ drop (Suc i) (st_active_actions s)\<rparr>
      | None \<Rightarrow> s)"

text \<open>The last active action is reverted, and its record is removed when that is done.\<close>

definition revert_last ::
  "'w reconciler \<Rightarrow> maintenance_job \<Rightarrow> current_run option \<Rightarrow> 'w \<Rightarrow> rec_outcome \<times> 'w" where
  "revert_last r fs run w =
     (let rc = runContext r fs run; actives = st_active_actions (mj_status_of fs) in
      if actives = [] then (Crash, w)
      else
        let aa = last actives in
        (case r_registry r (aa_type aa) of
           None \<Rightarrow> (failing (errorf (''unknown action type '' @ quote (type_name (aa_type aa))
                      @ '' in active state'')), w)
         | Some impl \<Rightarrow>
             (case ai_revert impl (r_client r) rc (aa_revert aa) w of
                (Panicked, w1) \<Rightarrow> (Crash, w1)
              | (Failed e, w1) \<Rightarrow>
                  let attempts = wrap32 (aa_attempts aa + 1);
                      w2 = eventf r fs EventWarning ''RevertFailed''
                             (''action '' @ aa_name aa @ '': '' @ err_text e) w1
                  in (case patchStatus r fs (revert_failed (r_client r) (mj_generation fs) aa attempts e) w2 of
                        (Inl pe, w3) \<Rightarrow> (failing pe, w3)
                      | (Inr _, w3) \<Rightarrow> (requeue_in (backoffFor attempts), w3))
              | (Returned False ra, w1) \<Rightarrow>
                  (case patchStatus r fs (statusMutation (aa_name aa) mark_reverting) w1 of
                     (Inl e, w2) \<Rightarrow> (failing e, w2)
                   | (Inr _, w2) \<Rightarrow> (requeue_in (if ra \<le> 0 then 2 * second else ra), w2))
              | (Returned True ra, w1) \<Rightarrow>
                  (case patchStatus r fs (drop_active (aa_name aa)) w1 of
                     (Inl e, w2) \<Rightarrow> (failing e, w2)
                   | (Inr _, w2) \<Rightarrow> (requeue_now, w2)))))"

definition reconcileRevert ::
  "'w reconciler \<Rightarrow> maintenance_job \<Rightarrow> current_run option \<Rightarrow> bool \<Rightarrow> 'w \<Rightarrow> rec_outcome \<times> 'w" where
  "reconcileRevert r fs run deleting w =
     (if st_active_actions (mj_status_of fs) = []
      then finishRun r fs run deleting RunResultReverted [] w
      else if st_phase (mj_status_of fs) \<noteq> PhaseReverting \<and> st_phase (mj_status_of fs) \<noteq> PhaseDegraded
      then
        (case patchStatus r fs (\<lambda>v s. s\<lparr>st_phase := PhaseReverting\<rparr>) w of
           (Inl e, w1) \<Rightarrow> (failing e, w1)
         | (Inr fs', w1) \<Rightarrow> revert_last r fs' run w1)
      else revert_last r fs run w)"

section \<open>Deletion\<close>

text \<open>The UTC time stamp \<^verbatim>\<open>20060102-150405\<close> of a time in nanoseconds since 1970.\<close>

definition utc_stamp :: "int \<Rightarrow> string" where
  "utc_stamp t =
     (let secs = t div second; days = secs div 86400; s = secs mod 86400; (y, m, d) = civil_from_days days
      in pad2 (y div 100) @ pad2 (y mod 100) @ pad2 m @ pad2 d @ ''-''
         @ pad2 (s div 3600) @ pad2 (s div 60 mod 60) @ pad2 (s mod 60))"

definition leak_key :: "maintenance_job \<Rightarrow> active_action \<Rightarrow> string \<Rightarrow> string" where
  "leak_key fs aa ts = mj_name fs @ ''.'' @ aa_name aa @ ''.'' @ ts"

definition leak_data ::
  "maintenance_job \<Rightarrow> string \<Rightarrow> (string \<rightharpoonup> raw_json) \<Rightarrow> (string \<rightharpoonup> raw_json)" where
  "leak_data fs ts data =
     foldl (\<lambda>m aa. m(leak_key fs aa ts \<mapsto> aa_revert aa)) data (st_active_actions (mj_status_of fs))"

definition leak_once ::
  "'w reconciler \<Rightarrow> maintenance_job \<Rightarrow> 'w \<Rightarrow> (go_error + maintenance_job) \<times> 'w" where
  "leak_once r fs w =
     (let c = r_client r; key = (r_namespace r, LeakedStateConfigMap);
          ts = utc_stamp (clock c w);
          written = (\<lambda>data. \<lparr>cm_name = LeakedStateConfigMap, cm_namespace = r_namespace r,
                        cm_data = leak_data fs ts data\<rparr>);
          reply = (\<lambda>ew. case ew of (None, w1) \<Rightarrow> (Inr fs, w1) | (Some e, w1) \<Rightarrow> (Inl e, w1))
      in (case getConfigMap c w key of
            Inr cm \<Rightarrow> reply (updateConfigMap c w (written (cm_data cm)))
          | Inl e \<Rightarrow>
              if isNotFound e then reply (createConfigMap c w (written Map.empty)) else (Inl e, w)))"

definition leakState ::
  "'w reconciler \<Rightarrow> maintenance_job \<Rightarrow> 'w \<Rightarrow> (go_error + maintenance_job) \<times> 'w" where
  "leakState r fs w = retryOnConflict (r_client r) (leak_once r fs) w"

definition reconcileDelete :: "'w reconciler \<Rightarrow> maintenance_job \<Rightarrow> 'w \<Rightarrow> rec_outcome \<times> 'w" where
  "reconcileDelete r fs w =
     (if \<not> containsFinalizer (r_client r) fs FinalizerName then (settled, w)
      else if go_get (mj_annotations fs) ForceReleaseAnnotation = ''true''
           \<and> st_active_actions (mj_status_of fs) \<noteq> []
      then
        (case leakState r fs w of
           (Inl e, w1) \<Rightarrow> (failing e, w1)
         | (Inr _, w1) \<Rightarrow>
             (case updateMJ (r_client r) w1 (removeFinalizer (r_client r) fs FinalizerName) of
                (Inl e, w2) \<Rightarrow> (failing e, w2)
              | (Inr _, w2) \<Rightarrow> (settled, w2)))
      else reconcileRevert r fs (st_current_run (mj_status_of fs)) True w)"

section \<open>Reconcile\<close>

definition expired :: "current_run \<Rightarrow> int \<Rightarrow> bool" where
  "expired run now \<longleftrightarrow> (case cr_expires_at run of None \<Rightarrow> False | Some t \<Rightarrow> \<not> now < t)"

text \<open>The part of Reconcile for an object with a run.\<close>

definition reconcile_run ::
  "'w reconciler \<Rightarrow> maintenance_job \<Rightarrow> current_run \<Rightarrow> 'w \<Rightarrow> rec_outcome \<times> 'w" where
  "reconcile_run r fs run w =
     (let over = expired run (clock (r_client r) w);
          go_on = (\<lambda>fs w. if over \<or> \<not> runStillWanted fs run then reconcileRevert r fs (Some run) False w
                      else reconcileActivate r fs run w)
      in if over \<and> cr_trigger run = RunTriggerEnabled \<and> sp_enabled (mj_spec_of fs)
         then
           (case updateMJ (r_client r) w (fs\<lparr>mj_spec_of := (mj_spec_of fs)\<lparr>sp_enabled := False\<rparr>\<rparr>) of
              (Inl e, w1) \<Rightarrow> (failing e, w1)
            | (Inr fs', w1) \<Rightarrow> go_on fs' w1)
         else go_on fs w)"

definition reconcile_live :: "'w reconciler \<Rightarrow> maintenance_job \<Rightarrow> 'w \<Rightarrow> rec_outcome \<times> 'w" where
  "reconcile_live r fs w =
     (case validateSpec (r_registry r) (mj_spec_of fs) of
        Some e \<Rightarrow>
          (case patchStatus r fs (setCondition (r_client r) (mj_generation fs) ConditionReady False
                   ''InvalidSpec'' (err_text e)) w of
             (Inl pe, w1) \<Rightarrow> (failing pe, w1)
           | (Inr _, w1) \<Rightarrow> (settled, w1))
      | None \<Rightarrow>
          (case st_current_run (mj_status_of fs) of
             None \<Rightarrow>
               if st_active_actions (mj_status_of fs) \<noteq> [] then reconcileRevert r fs None False w
               else maybeStartRun r fs w
           | Some run \<Rightarrow> reconcile_run r fs run w))"

definition Reconcile :: "'w reconciler \<Rightarrow> nsname \<Rightarrow> 'w \<Rightarrow> rec_outcome \<times> 'w" where
  "Reconcile r req w =
     (case getMJ (r_client r) w req of
        Inl e \<Rightarrow> ((if isNotFound e then settled else failing e), w)
      | Inr fs \<Rightarrow>
          if mj_deletion_timestamp fs \<noteq> None then reconcileDelete r fs w
          else if \<not> containsFinalizer (r_client r) fs FinalizerName
          then
            (case updateMJ (r_client r) w (addFinalizer (r_client r) fs FinalizerName) of
               (Inl e, w1) \<Rightarrow> (failing e, w1)
             | (Inr fs', w1) \<Rightarrow> reconcile_live r fs' w1)
          else reconcile_live r fs w)"

end
