(* ===== verification/Cluster.thy ===== *)
theory Cluster
  imports Client
begin

text \<open>
  A cluster in memory: one concrete client, on which the hypotheses of the theorems hold and
  their witnesses compute. It stores the objects by name, refuses a create of an existing object
  and an update of a stale version, gives every write a new version, keeps the status on an
  update and the rest on a status update, and drops a resource that is being deleted once its
  last finalizer is gone. Nobody else writes to it, apart from \<open>collect\<close>, the garbage
  collector, which removes what is marked for deletion.
\<close>

record cluster =
  cl_now :: int
  cl_next :: nat
  cl_mjs :: "maintenance_job list"
  cl_jobs :: "job list"
  cl_deps :: "deployment list"
  cl_chaos :: "chaos list"
  cl_cms :: "config_map list"
  cl_events :: "event list"

definition empty_cluster :: cluster where
  "empty_cluster = \<lparr>cl_now = 0, cl_next = 1, cl_mjs = [], cl_jobs = [], cl_deps = [], cl_chaos = [],
     cl_cms = [], cl_events = []\<rparr>"

definition absent :: go_error where "absent = GoError NotFound ''not found''"
definition present :: go_error where "present = GoError AlreadyExists ''already exists''"
definition stale :: go_error where "stale = GoError Conflict ''the object has been modified''"

definition kind_key :: "chaos \<Rightarrow> string \<times> nsname" where
  "kind_key x = (ch_kind x, chaos_key x)"

definition cm_key :: "config_map \<Rightarrow> nsname" where
  "cm_key m = (cm_namespace m, cm_name m)"

text \<open>A store is a list of objects, each under the name it bears.\<close>

definition lookup :: "('o \<Rightarrow> 'k) \<Rightarrow> 'o list \<Rightarrow> 'k \<Rightarrow> 'o option" where
  "lookup key xs k = find (\<lambda>x. key x = k) xs"

definition find_obj :: "('o \<Rightarrow> 'k) \<Rightarrow> 'o list \<Rightarrow> 'k \<Rightarrow> go_error + 'o" where
  "find_obj key xs k = (case lookup key xs k of None \<Rightarrow> Inl absent | Some x \<Rightarrow> Inr x)"

fun put :: "('o \<Rightarrow> 'k) \<Rightarrow> 'o \<Rightarrow> 'o list \<Rightarrow> 'o list" where
  "put key x [] = [x]"
| "put key x (y # ys) = (if key y = key x then x # ys else y # put key x ys)"

definition remove :: "('o \<Rightarrow> 'k) \<Rightarrow> 'k \<Rightarrow> 'o list \<Rightarrow> 'o list" where
  "remove key k xs = filter (\<lambda>x. key x \<noteq> k) xs"

lemma lookup_put: "lookup key (put key x xs) k = (if k = key x then Some x else lookup key xs k)"
  by (induction xs) (auto simp: lookup_def)

lemma put_in [simp]: "x \<in> set (put key x xs)"
  by (induction xs) auto

lemma lookup_remove: "lookup key (remove key j xs) k = (if k = j then None else lookup key xs k)"
  by (induction xs) (auto simp: lookup_def remove_def)

lemma lookup_key: "lookup key xs k = Some x \<Longrightarrow> key x = k"
  unfolding lookup_def by (induction xs) (auto split: if_splits)

lemma find_obj_key: "find_obj key xs k = Inr x \<Longrightarrow> key x = k"
  by (auto simp: find_obj_def split: option.splits dest: lookup_key)

section \<open>Writes\<close>

definition mem_createJob :: "cluster \<Rightarrow> job \<Rightarrow> go_error option \<times> cluster" where
  "mem_createJob cl j =
     (if lookup job_key (cl_jobs cl) (job_key j) \<noteq> None then (Some present, cl)
      else (None, cl\<lparr>cl_jobs := put job_key j (cl_jobs cl)\<rparr>))"

definition mem_deleteJob :: "cluster \<Rightarrow> propagation \<Rightarrow> job \<Rightarrow> go_error option \<times> cluster" where
  "mem_deleteJob cl p j =
     (case lookup job_key (cl_jobs cl) (job_key j) of
        None \<Rightarrow> (Some absent, cl)
      | Some cur \<Rightarrow>
          (None, case p of
             Background \<Rightarrow> cl\<lparr>cl_jobs := remove job_key (job_key j) (cl_jobs cl)\<rparr>
           | Foreground \<Rightarrow> cl\<lparr>cl_jobs := put job_key
               (cur\<lparr>job_deletion_timestamp := Some (cl_now cl)\<rparr>) (cl_jobs cl)\<rparr>))"

definition mem_patchDeployment :: "cluster \<Rightarrow> deployment \<Rightarrow> deployment \<Rightarrow> go_error option \<times> cluster" where
  "mem_patchDeployment cl d d' =
     (if lookup dep_key (cl_deps cl) (dep_key d) = None then (Some absent, cl)
      else (None, cl\<lparr>cl_deps := put dep_key d' (cl_deps cl)\<rparr>))"

definition mem_deleteDeployment :: "cluster \<Rightarrow> propagation \<Rightarrow> deployment \<Rightarrow> go_error option \<times> cluster" where
  "mem_deleteDeployment cl p d =
     (if lookup dep_key (cl_deps cl) (dep_key d) = None then (Some absent, cl)
      else (None, cl\<lparr>cl_deps := remove dep_key (dep_key d) (cl_deps cl)\<rparr>))"

definition mem_createChaos :: "cluster \<Rightarrow> chaos \<Rightarrow> go_error option \<times> cluster" where
  "mem_createChaos cl x =
     (if lookup kind_key (cl_chaos cl) (kind_key x) \<noteq> None then (Some present, cl)
      else (None, cl\<lparr>cl_chaos := put kind_key x (cl_chaos cl)\<rparr>))"

definition mem_deleteChaos :: "cluster \<Rightarrow> propagation \<Rightarrow> chaos \<Rightarrow> go_error option \<times> cluster" where
  "mem_deleteChaos cl p x =
     (case lookup kind_key (cl_chaos cl) (kind_key x) of
        None \<Rightarrow> (Some absent, cl)
      | Some cur \<Rightarrow> (None, cl\<lparr>cl_chaos := put kind_key
               (cur\<lparr>ch_deletion_timestamp := Some (cl_now cl)\<rparr>) (cl_chaos cl)\<rparr>))"

text \<open>An update of the resource: of the current version only.\<close>

definition store_mj :: "maintenance_job \<Rightarrow> cluster \<Rightarrow> (go_error + maintenance_job) \<times> cluster" where
  "store_mj fs cl =
     (let fs' = fs\<lparr>mj_resource_version := cl_next cl\<rparr>;
          mjs = (if mj_deletion_timestamp fs \<noteq> None \<and> mj_finalizers fs = []
                 then remove mj_key (mj_key fs) (cl_mjs cl) else put mj_key fs' (cl_mjs cl))
      in (Inr fs', cl\<lparr>cl_next := Suc (cl_next cl), cl_mjs := mjs\<rparr>))"

definition mem_updateMJ :: "cluster \<Rightarrow> maintenance_job \<Rightarrow> (go_error + maintenance_job) \<times> cluster" where
  "mem_updateMJ cl fs =
     (case lookup mj_key (cl_mjs cl) (mj_key fs) of
        None \<Rightarrow> (Inl absent, cl)
      | Some cur \<Rightarrow>
          if mj_resource_version fs \<noteq> mj_resource_version cur then (Inl stale, cl)
          else store_mj (fs\<lparr>mj_status_of := mj_status_of cur,
                 mj_generation := mj_generation cur
                   + (if mj_spec_of fs = mj_spec_of cur then 0 else 1)\<rparr>) cl)"

definition mem_updateMJStatus :: "cluster \<Rightarrow> maintenance_job \<Rightarrow> (go_error + maintenance_job) \<times> cluster" where
  "mem_updateMJStatus cl fs =
     (case lookup mj_key (cl_mjs cl) (mj_key fs) of
        None \<Rightarrow> (Inl absent, cl)
      | Some cur \<Rightarrow>
          if mj_resource_version fs \<noteq> mj_resource_version cur then (Inl stale, cl)
          else store_mj (cur\<lparr>mj_status_of := mj_status_of fs\<rparr>) cl)"

definition mem_createConfigMap :: "cluster \<Rightarrow> config_map \<Rightarrow> go_error option \<times> cluster" where
  "mem_createConfigMap cl m =
     (let k = cm_key m in
      if lookup cm_key (cl_cms cl) k \<noteq> None then (Some present, cl)
      else (None, cl\<lparr>cl_cms := put cm_key m (cl_cms cl)\<rparr>))"

definition mem_updateConfigMap :: "cluster \<Rightarrow> config_map \<Rightarrow> go_error option \<times> cluster" where
  "mem_updateConfigMap cl m =
     (let k = cm_key m in
      if lookup cm_key (cl_cms cl) k = None then (Some absent, cl)
      else (None, cl\<lparr>cl_cms := put cm_key m (cl_cms cl)\<rparr>))"

section \<open>The client\<close>

definition set_condition :: "condition list \<Rightarrow> condition \<Rightarrow> condition list" where
  "set_condition cs x =
     (if cond_type x \<in> cond_type ` set cs then map (\<lambda>y. if cond_type y = cond_type x then x else y) cs
      else cs @ [x])"

definition memory :: "cluster retrier \<Rightarrow> cluster client" where
  "memory retry = \<lparr>
     getJob = (\<lambda>cl. find_obj job_key (cl_jobs cl)),
     createJob = mem_createJob,
     deleteJob = mem_deleteJob,
     listJobs = (\<lambda>cl ns lk. Inr (filter (\<lambda>j. job_namespace j = ns \<and> job_labels j lk \<noteq> None)
                   (cl_jobs cl))),
     getDeployment = (\<lambda>cl. find_obj dep_key (cl_deps cl)),
     patchDeployment = mem_patchDeployment,
     deleteDeployment = mem_deleteDeployment,
     listDeployments = (\<lambda>cl ns lk. Inr (filter (\<lambda>d. dep_namespace d = ns \<and> dep_labels d lk \<noteq> None)
                   (cl_deps cl))),
     getChaos = (\<lambda>cl kd k. find_obj kind_key (cl_chaos cl) (kd, k)),
     createChaos = mem_createChaos,
     deleteChaos = mem_deleteChaos,
     getMJ = (\<lambda>cl. find_obj mj_key (cl_mjs cl)),
     updateMJ = mem_updateMJ,
     updateMJStatus = mem_updateMJStatus,
     listMJ = (\<lambda>cl ns. Inr (filter (\<lambda>fs. mj_namespace fs = ns) (cl_mjs cl))),
     getConfigMap = (\<lambda>cl. find_obj cm_key (cl_cms cl)),
     createConfigMap = mem_createConfigMap,
     updateConfigMap = mem_updateConfigMap,
     retryOnConflict = retry,
     recordEvent = (\<lambda>cl e. cl\<lparr>cl_events := cl_events cl @ [e]\<rparr>),
     clock = cl_now,
     newUUID = (\<lambda>cl. (''run-'' @ show_nat (cl_next cl), cl\<lparr>cl_next := Suc (cl_next cl)\<rparr>)),
     containsFinalizer = (\<lambda>fs f. f \<in> set (mj_finalizers fs)),
     addFinalizer = (\<lambda>fs f. fs\<lparr>mj_finalizers :=
                       if f \<in> set (mj_finalizers fs) then mj_finalizers fs else mj_finalizers fs @ [f]\<rparr>),
     removeFinalizer = (\<lambda>fs f. fs\<lparr>mj_finalizers := filter (\<lambda>x. x \<noteq> f) (mj_finalizers fs)\<rparr>),
     setStatusCondition = (\<lambda>cl. set_condition),
     isStatusConditionTrue = (\<lambda>cs ty. \<exists>x \<in> set cs. cond_type x = ty \<and> cond_status x),
     removeStatusCondition = (\<lambda>cs ty. filter (\<lambda>x. cond_type x \<noteq> ty) cs)\<rparr>"

text \<open>The garbage collector removes, by name, what is marked for deletion.\<close>

definition drop_marked :: "('o \<Rightarrow> 'k) \<Rightarrow> ('o \<Rightarrow> bool) \<Rightarrow> 'o list \<Rightarrow> 'o list" where
  "drop_marked key marked xs = filter (\<lambda>x. \<forall>y \<in> set xs. marked y \<longrightarrow> key y \<noteq> key x) xs"

definition collect :: "cluster \<Rightarrow> cluster" where
  "collect cl = cl\<lparr>
     cl_jobs := drop_marked job_key (\<lambda>j. job_deletion_timestamp j \<noteq> None) (cl_jobs cl),
     cl_chaos := drop_marked kind_key (\<lambda>x. ch_deletion_timestamp x \<noteq> None) (cl_chaos cl)\<rparr>"

lemma lookup_filter_key:
  "(\<And>x. x \<in> set xs \<Longrightarrow> p x \<longleftrightarrow> q (key x)) \<Longrightarrow>
   lookup key (filter p xs) k = (if q k then lookup key xs k else None)"
  by (induction xs) (auto simp: lookup_def)

lemma lookup_drop_marked:
  "lookup key (drop_marked key marked xs) k =
     (if \<forall>y \<in> set xs. marked y \<longrightarrow> key y \<noteq> k then lookup key xs k else None)"
  unfolding drop_marked_def by (rule lookup_filter_key) simp

definition mem_client :: "cluster client" where
  "mem_client = memory (retry_steps 4)"

section \<open>What holds of it\<close>

lemma memory_simps [simp]:
  "getJob (memory retry) cl = find_obj job_key (cl_jobs cl)"
  "createJob (memory retry) = mem_createJob"
  "deleteJob (memory retry) = mem_deleteJob"
  "getDeployment (memory retry) cl = find_obj dep_key (cl_deps cl)"
  "patchDeployment (memory retry) = mem_patchDeployment"
  "deleteDeployment (memory retry) = mem_deleteDeployment"
  "getChaos (memory retry) cl kd k = find_obj kind_key (cl_chaos cl) (kd, k)"
  "createChaos (memory retry) = mem_createChaos"
  "deleteChaos (memory retry) = mem_deleteChaos"
  "getMJ (memory retry) cl = find_obj mj_key (cl_mjs cl)"
  "updateMJ (memory retry) = mem_updateMJ"
  "updateMJStatus (memory retry) = mem_updateMJStatus"
  "getConfigMap (memory retry) cl = find_obj cm_key (cl_cms cl)"
  "createConfigMap (memory retry) = mem_createConfigMap"
  "updateConfigMap (memory retry) = mem_updateConfigMap"
  "retryOnConflict (memory retry) = retry"
  "clock (memory retry) = cl_now"
  "recordEvent (memory retry) cl e = cl\<lparr>cl_events := cl_events cl @ [e]\<rparr>"
  "newUUID (memory retry) cl = (''run-'' @ show_nat (cl_next cl), cl\<lparr>cl_next := Suc (cl_next cl)\<rparr>)"
  "containsFinalizer (memory retry) fs f \<longleftrightarrow> f \<in> set (mj_finalizers fs)"
  "removeFinalizer (memory retry) fs f = fs\<lparr>mj_finalizers := filter (\<lambda>x. x \<noteq> f) (mj_finalizers fs)\<rparr>"
  "setStatusCondition (memory retry) cl = set_condition"
  "isStatusConditionTrue (memory retry) cs ty \<longleftrightarrow> (\<exists>x \<in> set cs. cond_type x = ty \<and> cond_status x)"
  "removeStatusCondition (memory retry) cs ty = filter (\<lambda>x. cond_type x \<noteq> ty) cs"
  "listMJ (memory retry) cl ns = Inr (filter (\<lambda>fs. mj_namespace fs = ns) (cl_mjs cl))"
  "listJobs (memory retry) cl ns lk =
     Inr (filter (\<lambda>j. job_namespace j = ns \<and> job_labels j lk \<noteq> None) (cl_jobs cl))"
  "listDeployments (memory retry) cl ns lk =
     Inr (filter (\<lambda>d. dep_namespace d = ns \<and> dep_labels d lk \<noteq> None) (cl_deps cl))"
  by (simp_all add: memory_def fun_eq_iff)

lemma memory_addFinalizer [simp]:
  "addFinalizer (memory retry) fs f = fs\<lparr>mj_finalizers :=
     if f \<in> set (mj_finalizers fs) then mj_finalizers fs else mj_finalizers fs @ [f]\<rparr>"
  by (simp add: memory_def)

lemma retry_steps_ok [simp]: "retry_ok (retry_steps n)"
  by (simp add: retry_ok_def retry_steps_retried)

end
