(* ===== verification/Sample.thy ===== *)
theory Sample
  imports Controller Cluster
begin

text \<open>
  A small scenario on the cluster in memory, used by the witnesses: a Deployment \<^verbatim>\<open>web\<close> with
  three replicas, and a scenario \<^verbatim>\<open>outage\<close> that scales it to zero.
\<close>

definition sample_scale :: action where
  "sample_scale = \<lparr>act_name = ''down'', act_type = ActionTypeScale, act_delay = None, act_workload = None,
     act_scale = Some \<lparr>sa_target_ref = \<lparr>tr_kind = ''Deployment'', tr_name = ''web''\<rparr>, sa_replicas = 0\<rparr>,
     act_deploy_image = None, act_chaos_mesh = None, act_dbexec = None\<rparr>"

definition sample_spec :: mj_spec where
  "sample_spec = \<lparr>sp_display_name = [], sp_description = [], sp_category = [], sp_icon = [],
     sp_expected_symptoms = [], sp_enabled = True, sp_trigger = None, sp_duration = None,
     sp_actions = [sample_scale]\<rparr>"

definition sample_run :: current_run where
  "sample_run = \<lparr>cr_id = ''r1'', cr_trigger = RunTriggerEnabled, cr_started_at = 0, cr_expires_at = None\<rparr>"

definition sample_status :: mj_status where
  "sample_status = \<lparr>st_phase = PhaseActivating, st_current_run = Some sample_run, st_active_actions = [],
     st_last_completed_run_id = [], st_history = [], st_conditions = [], st_observed_generation = 1\<rparr>"

definition sample_mj :: maintenance_job where
  "sample_mj = \<lparr>mj_name = ''outage'', mj_namespace = ''shop'', mj_uid = ''u1'', mj_generation = 1,
     mj_resource_version = 0, mj_deletion_timestamp = None, mj_finalizers = [FinalizerName],
     mj_annotations = Map.empty, mj_spec_of = sample_spec, mj_status_of = sample_status\<rparr>"

definition sample_dep :: deployment where
  "sample_dep = \<lparr>dep_name = ''web'', dep_namespace = ''shop'', dep_labels = Map.empty,
     dep_annotations = Map.empty, dep_generation = 1, dep_creation_timestamp = 0,
     dep_replicas = Some 3, dep_containers = [\<lparr>cn_name = ''app'', cn_image = ''v1''\<rparr>],
     dep_st_observed_generation = 1, dep_st_updated_replicas = 3, dep_st_available_replicas = 3,
     dep_st_replicas = 3, dep_st_conditions = []\<rparr>"

definition sample_cluster :: cluster where
  "sample_cluster = empty_cluster\<lparr>cl_now := 5 * second, cl_mjs := [sample_mj], cl_deps := [sample_dep]\<rparr>"

definition sample_reconciler :: "'w client \<Rightarrow> 'w reconciler" where
  "sample_reconciler c = \<lparr>r_client = c, r_registry = Get, r_operator_image = ''op'', r_namespace = ''shop''\<rparr>"

lemma sample_reconciler_simps [simp]:
  "r_client (sample_reconciler c) = c"
  "r_registry (sample_reconciler c) = Get"
  "r_operator_image (sample_reconciler c) = ''op''"
  "r_namespace (sample_reconciler c) = ''shop''"
  by (simp_all add: sample_reconciler_def)

text \<open>The scenario being deleted, with two Deployments still scaled.\<close>

definition sample_active :: "string \<Rightarrow> string \<Rightarrow> active_action" where
  "sample_active n dep = \<lparr>aa_name = n, aa_type = ActionTypeScale, aa_phase = ActionPhaseApplied,
     aa_applied_at = None, aa_attempts = 0, aa_last_error = [],
     aa_revert = marshal_scale \<lparr>st_kind = ''Deployment'', st_namespace = ''shop'', st_name = dep,
       st_previous_replicas = 3\<rparr>\<rparr>"

definition sample_leaving :: maintenance_job where
  "sample_leaving = sample_mj\<lparr>mj_deletion_timestamp := Some 1,
     mj_status_of := sample_status\<lparr>st_active_actions := [sample_active ''down'' ''web'', sample_active ''api'' ''api'']\<rparr>\<rparr>"

definition sample_leaving_cluster :: cluster where
  "sample_leaving_cluster = sample_cluster\<lparr>cl_mjs := [sample_leaving]\<rparr>"

lemmas sample_defs = sample_scale_def sample_spec_def sample_run_def sample_status_def sample_mj_def
  sample_dep_def sample_cluster_def empty_cluster_def
  sample_active_def sample_leaving_def sample_leaving_cluster_def

text \<open>A log in words.\<close>

fun call_text :: "api_call \<Rightarrow> string" where
  "call_text (CallCreateJob k) = ''create job '' @ snd k"
| "call_text (CallDeleteJob k) = ''delete job '' @ snd k"
| "call_text (CallPatchDeployment k) = ''patch deployment '' @ snd k"
| "call_text (CallDeleteDeployment k) = ''delete deployment '' @ snd k"
| "call_text (CallCreateChaos kd k) = ''create chaos '' @ snd k"
| "call_text (CallDeleteChaos kd k) = ''delete chaos '' @ snd k"
| "call_text (CallUpdateMJ fs) = ''update scenario''"
| "call_text (CallPersisted fs) = ''persist status''"
| "call_text (CallConfigMap m) = ''write config map''"

end
