(* ===== verification/Draining.thy ===== *)
theory Draining
  imports Sample
begin

text \<open>
  The way back: what one pass of \<^verbatim>\<open>reconcileRevert\<close> does to the stored object, and that repeated
  passes drain every active action. The API is assumed quiet for the resource at hand
  (\<open>quiet_store\<close>): a status update of the object just read is acknowledged and stored. What the
  reverts of the actions need is stated by \<open>settling\<close>: a measure of what is left to do, which
  each pass lowers.
\<close>

section \<open>A quiet store\<close>

definition live_object :: "maintenance_job \<Rightarrow> bool" where
  "live_object fs \<longleftrightarrow> mj_deletion_timestamp fs = None \<or> mj_finalizers fs \<noteq> []"

text \<open>What the server stores for a status update: the new status and a new version.\<close>

definition with_status :: "maintenance_job \<Rightarrow> mj_status \<Rightarrow> nat \<Rightarrow> maintenance_job" where
  "with_status fs s v = fs\<lparr>mj_status_of := s, mj_resource_version := v\<rparr>"

lemma with_status_simps [simp]:
  "mj_status_of (with_status fs s v) = s"
  "mj_spec_of (with_status fs s v) = mj_spec_of fs"
  "mj_name (with_status fs s v) = mj_name fs"
  "mj_namespace (with_status fs s v) = mj_namespace fs"
  "mj_uid (with_status fs s v) = mj_uid fs"
  "mj_generation (with_status fs s v) = mj_generation fs"
  "mj_deletion_timestamp (with_status fs s v) = mj_deletion_timestamp fs"
  "mj_finalizers (with_status fs s v) = mj_finalizers fs"
  "mj_annotations (with_status fs s v) = mj_annotations fs"
  "mj_key (with_status fs s v) = mj_key fs"
  "live_object (with_status fs s v) = live_object fs"
  by (simp_all add: with_status_def mj_key_def live_object_def)

definition quiet_store :: "'w client \<Rightarrow> nsname \<Rightarrow> bool" where
  "quiet_store c k \<longleftrightarrow>
     retry_ok (retryOnConflict c)
     \<and> (\<forall>w fs. getMJ c w k = Inr fs \<longrightarrow> mj_key fs = k)
     \<and> (\<forall>w fs s. getMJ c w k = Inr fs \<longrightarrow> live_object fs \<longrightarrow>
          (\<exists>v w'. updateMJStatus c w (fs\<lparr>mj_status_of := s\<rparr>) = (Inr (with_status fs s v), w')
                 \<and> getMJ c w' k = Inr (with_status fs s v)))
     \<and> (\<forall>w e. getMJ c (recordEvent c w e) k = getMJ c w k)
     \<and> (\<forall>fs f. containsFinalizer c fs f \<longleftrightarrow> f \<in> set (mj_finalizers fs))"

lemma quiet_storeD:
  assumes "quiet_store c k"
  shows "retry_ok (retryOnConflict c)"
    and "getMJ c w k = Inr fs \<Longrightarrow> mj_key fs = k"
    and "getMJ c w k = Inr fs \<Longrightarrow> live_object fs \<Longrightarrow>
      \<exists>v w'. updateMJStatus c w (fs\<lparr>mj_status_of := s\<rparr>) = (Inr (with_status fs s v), w')
             \<and> getMJ c w' k = Inr (with_status fs s v)"
    and "getMJ c (recordEvent c w e) k = getMJ c w k"
    and "containsFinalizer c fs f \<longleftrightarrow> f \<in> set (mj_finalizers fs)"
  using assms unfolding quiet_store_def by blast+

definition observed :: "maintenance_job \<Rightarrow> mj_status \<Rightarrow> mj_status" where
  "observed fs s = s\<lparr>st_observed_generation := mj_generation fs\<rparr>"

lemma observed_simps [simp]:
  "st_active_actions (observed fs s) = st_active_actions s"
  "st_phase (observed fs s) = st_phase s"
  "st_current_run (observed fs s) = st_current_run s"
  by (simp_all add: observed_def)

lemma patchStatus_quiet:
  assumes "quiet_store (r_client r) k" and "getMJ (r_client r) w k = Inr cur" and "live_object cur"
    and "mj_key fs = k"
  obtains v w' where
    "patchStatus r fs m w = (Inr (with_status cur (observed cur (m w (mj_status_of cur))) v), w')"
    "getMJ (r_client r) w' k = Inr (with_status cur (observed cur (m w (mj_status_of cur))) v)"
proof -
  let ?c = "r_client r"
  let ?s = "observed cur (m w (mj_status_of cur))"
  have retry: "conflict_retry (retryOnConflict ?c)"
    using quiet_storeD(1) [OF assms(1)] by (simp add: retry_ok_iff)
  obtain v w' where
    u: "updateMJStatus ?c w (cur\<lparr>mj_status_of := ?s\<rparr>) = (Inr (with_status cur ?s v), w')"
      "getMJ ?c w' k = Inr (with_status cur ?s v)"
    using quiet_storeD(3) [OF assms(1-3)] by blast
  then have "patch_once ?c fs m w = (Inr (with_status cur ?s v), w')"
    using assms(2,4) by (simp add: patch_once_def observed_def)
  then have "patchStatus r fs m w = (Inr (with_status cur ?s v), w')"
    unfolding patchStatus_def by (rule conflict_retry.no_conflict [OF retry]) simp
  with u(2) that show thesis by blast
qed

lemma mem_quiet [simp]: "quiet_store mem_client k"
proof -
  have "\<exists>v w'. mem_updateMJStatus w (fs\<lparr>mj_status_of := s\<rparr>) = (Inr (with_status fs s v), w')
      \<and> find_obj mj_key (cl_mjs w') k = Inr (with_status fs s v)"
    if "find_obj mj_key (cl_mjs w) k = Inr fs" "live_object fs" for w fs s
  proof -
    have key: "mj_key fs = k" by (rule find_obj_key [OF that(1)])
    moreover have look: "lookup mj_key (cl_mjs w) k = Some fs"
      using that(1) by (auto simp: find_obj_def split: option.splits)
    moreover have "mj_key (fs\<lparr>mj_status_of := s\<rparr>) = k" using key by (simp add: mj_key_def)
    ultimately show ?thesis
      using that(2)
      by (intro exI [of _ "cl_next w"])
         (auto simp: mem_updateMJStatus_def store_mj_def Let_def with_status_def live_object_def
           find_obj_def lookup_put mj_key_def)
  qed
  then show ?thesis
    by (auto simp: quiet_store_def mem_client_def dest: find_obj_key)
qed

section \<open>When Reconcile reverts\<close>

text \<open>
  The resource is on its way down: it is being deleted without a forced release, or its run is
  no longer wanted, or an interrupted run has left active actions.
\<close>

definition winding_down :: "'w reconciler \<Rightarrow> maintenance_job \<Rightarrow> bool" where
  "winding_down r fs \<longleftrightarrow>
     FinalizerName \<in> set (mj_finalizers fs)
     \<and> (if mj_deletion_timestamp fs \<noteq> None then go_get (mj_annotations fs) ForceReleaseAnnotation \<noteq> ''true''
        else validateSpec (r_registry r) (mj_spec_of fs) = None
             \<and> (case st_current_run (mj_status_of fs) of
                  None \<Rightarrow> st_active_actions (mj_status_of fs) \<noteq> []
                | Some run \<Rightarrow> \<not> runStillWanted fs run))"

definition deleting :: "maintenance_job \<Rightarrow> bool" where
  "deleting fs \<longleftrightarrow> mj_deletion_timestamp fs \<noteq> None"

lemma Reconcile_winding_down:
  assumes "quiet_store (r_client r) k" and "getMJ (r_client r) w k = Inr fs" and "winding_down r fs"
  shows "Reconcile r k w = reconcileRevert r fs (st_current_run (mj_status_of fs)) (deleting fs) w"
  using assms(2,3) quiet_storeD(5) [OF assms(1)]
  by (auto simp: Reconcile_def winding_down_def deleting_def reconcileDelete_def reconcile_live_def
      reconcile_run_def Let_def runStillWanted_def split: option.splits if_splits run_trigger.splits)

text \<open>The active actions after one pass, by what Revert of the last one returned.\<close>

fun after_revert :: "outcome \<Rightarrow> active_action list \<Rightarrow> active_action \<Rightarrow> active_action list" where
  "after_revert (Returned True d) xs aa = xs"
| "after_revert (Returned False d) xs aa = xs @ [mark_reverting aa]"
| "after_revert (Failed e) xs aa = xs @ [mark_revert_failed (wrap32 (aa_attempts aa + 1)) e aa]"
| "after_revert Panicked xs aa = xs @ [aa]"

lemma find_last_active:
  assumes "distinct (map aa_name (xs @ [aa]))"
  shows "findActiveAction (xs @ [aa]) (aa_name aa) = Some (length xs)"
  using assms by (intro findActiveAction_snoc) (auto simp: findActiveAction_None)

lemma update_last_active:
  "distinct (map aa_name (xs @ [aa])) \<Longrightarrow> update_active (aa_name aa) f (xs @ [aa]) = xs @ [f aa]"
  by (simp add: update_active_def find_last_active list_update_append)

lemma drop_last_active:
  assumes "distinct (map aa_name (xs @ [aa]))" and "st_active_actions s = xs @ [aa]"
  shows "st_active_actions (drop_active (aa_name aa) v s) = xs"
  using assms by (simp add: drop_active_def find_last_active)

lemma drop_active_run [simp]: "st_current_run (drop_active n v s) = st_current_run s"
  by (simp add: drop_active_def split: option.splits)

lemma revert_failed_active:
  "distinct (map aa_name (xs @ [aa])) \<Longrightarrow> st_active_actions s = xs @ [aa] \<Longrightarrow>
   st_active_actions (revert_failed c g aa n e v s) = xs @ [mark_revert_failed n e aa]
   \<and> st_current_run (revert_failed c g aa n e v s) = st_current_run s"
  by (simp add: revert_failed_def Let_def statusMutation_def update_last_active setCondition_def)

lemma statusMutation_active:
  "distinct (map aa_name (xs @ [aa])) \<Longrightarrow> st_active_actions s = xs @ [aa] \<Longrightarrow>
   st_active_actions (statusMutation (aa_name aa) f v s) = xs @ [f aa]
   \<and> st_current_run (statusMutation (aa_name aa) f v s) = st_current_run s"
  by (simp add: statusMutation_def update_last_active)

lemma runContext_status [simp]: "runContext r (with_status fs s v) run = runContext r fs run"
  by (simp add: runContext_def)

section \<open>One pass\<close>

text \<open>The stored object of \<open>w\<close> is \<open>fs\<close> with other active actions and the same run.\<close>

definition stored_with :: "'w client \<Rightarrow> 'w \<Rightarrow> maintenance_job \<Rightarrow> active_action list \<Rightarrow> bool" where
  "stored_with c w fs aas \<longleftrightarrow>
     (\<exists>s v. getMJ c w (mj_key fs) = Inr (with_status fs s v) \<and> st_active_actions s = aas
            \<and> st_current_run s = st_current_run (mj_status_of fs))"

lemma patched_stored:
  assumes q: "quiet_store (r_client r) (mj_key fs)" and get: "getMJ (r_client r) w (mj_key fs) = Inr fs"
    and live: "live_object fs" and key: "mj_key fs' = mj_key fs"
    and m: "st_active_actions (m w (mj_status_of fs)) = aas"
      "st_current_run (m w (mj_status_of fs)) = st_current_run (mj_status_of fs)"
  shows "\<exists>s v w'. patchStatus r fs' m w = (Inr (with_status fs s v), w')
    \<and> getMJ (r_client r) w' (mj_key fs) = Inr (with_status fs s v) \<and> st_active_actions s = aas
    \<and> st_current_run s = st_current_run (mj_status_of fs) \<and> st_phase s = st_phase (m w (mj_status_of fs))"
proof -
  obtain v w' where
    "patchStatus r fs' m w = (Inr (with_status fs (observed fs (m w (mj_status_of fs))) v), w')"
    "getMJ (r_client r) w' (mj_key fs) = Inr (with_status fs (observed fs (m w (mj_status_of fs))) v)"
    by (rule patchStatus_quiet [OF q get live key])
  with m show ?thesis
    by (intro exI [of _ "observed fs (m w (mj_status_of fs))"] exI [of _ v] exI [of _ w']) simp
qed

lemma revert_last_pass:
  assumes q: "quiet_store (r_client r) (mj_key fs)" and get: "getMJ (r_client r) w (mj_key fs) = Inr fs"
    and live: "live_object fs" and last: "st_active_actions (mj_status_of fs) = xs @ [aa]"
    and dist: "distinct (map aa_name (xs @ [aa]))" and impl: "r_registry r (aa_type aa) = Some impl"
    and rev: "ai_revert impl (r_client r) (runContext r fs run) (aa_revert aa) w = (out, w1)"
    and kept: "getMJ (r_client r) w1 (mj_key fs) = Inr fs" and out: "out \<noteq> Panicked"
  shows "stored_with (r_client r) (snd (revert_last r fs run w)) fs (after_revert out xs aa)"
proof (cases out)
  case (Failed e)
  let ?n = "wrap32 (aa_attempts aa + 1)"
  define w2 where "w2 = eventf r fs EventWarning ''RevertFailed'' (''action '' @ aa_name aa @ '': '' @ err_text e) w1"
  have get2: "getMJ (r_client r) w2 (mj_key fs) = Inr fs"
    using kept quiet_storeD(4) [OF q] by (simp add: eventf_def w2_def)
  let ?m = "revert_failed (r_client r) (mj_generation fs) aa ?n e"
  have "st_active_actions (?m w2 (mj_status_of fs)) = xs @ [mark_revert_failed ?n e aa]"
    "st_current_run (?m w2 (mj_status_of fs)) = st_current_run (mj_status_of fs)"
    by (simp_all add: revert_failed_active [OF dist last])
  from patched_stored [where m = ?m, OF q get2 live refl this]
  obtain s v w' where "patchStatus r fs (revert_failed (r_client r) (mj_generation fs) aa ?n e) w2
        = (Inr (with_status fs s v), w')"
    "getMJ (r_client r) w' (mj_key fs) = Inr (with_status fs s v)"
    "st_active_actions s = xs @ [mark_revert_failed ?n e aa]"
    "st_current_run s = st_current_run (mj_status_of fs)"
    by blast
  then show ?thesis
    using last impl rev Failed by (auto simp: revert_last_def Let_def stored_with_def w2_def)
next
  case (Returned ok d)
  let ?m = "if ok then drop_active (aa_name aa) else statusMutation (aa_name aa) mark_reverting"
  have "st_active_actions (?m w1 (mj_status_of fs)) = after_revert out xs aa"
    "st_current_run (?m w1 (mj_status_of fs)) = st_current_run (mj_status_of fs)"
    by (simp_all add: Returned drop_last_active [OF dist last] statusMutation_active [OF dist last])
  from patched_stored [where m = ?m, OF q kept live refl this]
  obtain s v w' where "patchStatus r fs ?m w1 = (Inr (with_status fs s v), w')"
    "getMJ (r_client r) w' (mj_key fs) = Inr (with_status fs s v)"
    "st_active_actions s = after_revert out xs aa"
    "st_current_run s = st_current_run (mj_status_of fs)"
    by blast
  then show ?thesis
    using last impl rev Returned by (cases ok) (auto simp: revert_last_def Let_def stored_with_def)
qed (use out in simp)

text \<open>The first patch of a pass, if there is one, changes only the phase.\<close>

lemma reconcileRevert_start:
  assumes q: "quiet_store (r_client r) (mj_key fs)" and get: "getMJ (r_client r) w (mj_key fs) = Inr fs"
    and live: "live_object fs" and ne: "st_active_actions (mj_status_of fs) \<noteq> []"
  obtains s v w0 where "reconcileRevert r fs run del w = revert_last r (with_status fs s v) run w0"
    "getMJ (r_client r) w0 (mj_key fs) = Inr (with_status fs s v)"
    "st_active_actions s = st_active_actions (mj_status_of fs)"
    "st_current_run s = st_current_run (mj_status_of fs)"
    "w0 = w \<or> (\<exists>m res. patchStatus r fs m w = (res, w0))"
proof (cases "st_phase (mj_status_of fs) \<noteq> PhaseReverting \<and> st_phase (mj_status_of fs) \<noteq> PhaseDegraded")
  case False
  show thesis
    by (rule that [of "mj_status_of fs" "mj_resource_version fs" w])
       (use False ne get in \<open>auto simp: reconcileRevert_def with_status_def\<close>)
next
  case True
  let ?m = "\<lambda>v s. s\<lparr>st_phase := PhaseReverting\<rparr>"
  from patched_stored [where m = ?m and aas = "st_active_actions (mj_status_of fs)", OF q get live refl]
  obtain s v w0 where p: "patchStatus r fs ?m w = (Inr (with_status fs s v), w0)"
    "getMJ (r_client r) w0 (mj_key fs) = Inr (with_status fs s v)"
    "st_active_actions s = st_active_actions (mj_status_of fs)"
    "st_current_run s = st_current_run (mj_status_of fs)"
    by auto
  show thesis
    by (rule that [OF _ p(2-4)]) (use True ne p(1) in \<open>auto simp: reconcileRevert_def\<close>)
qed

text \<open>
  The Revert of a pass runs in a world \<open>w0\<close> that differs from \<open>w\<close> by that patch at most, and
  leaves a world \<open>w1\<close>, which differs from the next one by a status update and an event at most.
\<close>

definition updated :: "'w reconciler \<Rightarrow> 'w \<Rightarrow> 'w \<Rightarrow> bool" where
  "updated r w w' \<longleftrightarrow> w' = w \<or> (\<exists>fs m res. patchStatus r fs m w = (res, w'))
     \<or> (\<exists>e fs m res. patchStatus r fs m (recordEvent (r_client r) w e) = (res, w'))"

lemma revert_last_updated:
  assumes "st_active_actions (mj_status_of fs) \<noteq> []"
    and "r_registry r (aa_type (last (st_active_actions (mj_status_of fs)))) = Some impl"
    and "ai_revert impl (r_client r) (runContext r fs run)
           (aa_revert (last (st_active_actions (mj_status_of fs)))) w = (out, w1)"
  shows "updated r w1 (snd (revert_last r fs run w))"
  using assms
  by (auto simp: revert_last_def Let_def updated_def eventf_def split: outcome.splits bool.splits
      prod.splits sum.splits)

lemma winding_down_pass:
  assumes q: "quiet_store (r_client r) (mj_key fs)" and get: "getMJ (r_client r) w (mj_key fs) = Inr fs"
    and live: "live_object fs" and last: "st_active_actions (mj_status_of fs) = xs @ [aa]"
    and dist: "distinct (map aa_name (xs @ [aa]))" and impl: "r_registry r (aa_type aa) = Some impl"
    and revert: "\<And>w out w1. ai_revert impl (r_client r) (runContext r fs run) (aa_revert aa) w = (out, w1) \<Longrightarrow>
      getMJ (r_client r) w1 (mj_key fs) = getMJ (r_client r) w (mj_key fs) \<and> out \<noteq> Panicked"
  obtains w0 out w1 where "updated r w w0"
    "ai_revert impl (r_client r) (runContext r fs run) (aa_revert aa) w0 = (out, w1)"
    "updated r w1 (snd (reconcileRevert r fs run del w))"
    "stored_with (r_client r) (snd (reconcileRevert r fs run del w)) fs (after_revert out xs aa)"
proof -
  from last have ne: "st_active_actions (mj_status_of fs) \<noteq> []" by simp
  obtain s v w0 where start: "reconcileRevert r fs run del w = revert_last r (with_status fs s v) run w0"
    "getMJ (r_client r) w0 (mj_key fs) = Inr (with_status fs s v)"
    "st_active_actions s = st_active_actions (mj_status_of fs)"
    "st_current_run s = st_current_run (mj_status_of fs)"
    "w0 = w \<or> (\<exists>m res. patchStatus r fs m w = (res, w0))"
    by (rule reconcileRevert_start [OF q get live ne])
  obtain out w1 where rev: "ai_revert impl (r_client r) (runContext r fs run) (aa_revert aa) w0 = (out, w1)"
    by (meson surj_pair)
  let ?fs = "with_status fs s v"
  have "stored_with (r_client r) (snd (revert_last r ?fs run w0)) ?fs (after_revert out xs aa)"
    by (rule revert_last_pass [where ?w1.0 = w1, OF _ _ _ _ dist impl])
       (use q live start(2,3) last rev revert [OF rev] in simp_all)
  then have "stored_with (r_client r) (snd (reconcileRevert r fs run del w)) fs (after_revert out xs aa)"
    using start(1,4) by (auto simp: stored_with_def with_status_def mj_key_def)
  moreover have "updated r w1 (snd (reconcileRevert r fs run del w))"
    using revert_last_updated [of ?fs r impl run w0 out w1] start(1,3) last impl rev by simp
  moreover have "updated r w w0" using start(5) by (auto simp: updated_def)
  ultimately show thesis using rev by (intro that)
qed

section \<open>Passes until drained\<close>

text \<open>
  What the reverts of the tokens in \<open>A\<close> are assumed to do, with \<open>env\<close> what happens between two
  passes: none panics or touches the resource, none undoes another's progress, and each lowers
  what \<open>todo\<close> says is left, or is done when nothing is. Status updates and events do not matter
  to \<open>todo\<close>, nor does \<open>env\<close> change the resource.
\<close>

definition settling ::
  "'w reconciler \<Rightarrow> nsname \<Rightarrow> ('w \<Rightarrow> 'w) \<Rightarrow> run_context \<Rightarrow> (action_type \<times> raw_json) set
   \<Rightarrow> (action_type \<times> raw_json \<Rightarrow> 'w \<Rightarrow> nat) \<Rightarrow> bool" where
  "settling r k env rc A todo \<longleftrightarrow>
     (\<forall>w. getMJ (r_client r) (env w) k = getMJ (r_client r) w k)
     \<and> (\<forall>a w fs. todo a (snd (updateMJStatus (r_client r) w fs)) = todo a w
                \<and> todo a (env (snd (updateMJStatus (r_client r) w fs))) = todo a (env w))
     \<and> (\<forall>a w e. todo a (recordEvent (r_client r) w e) = todo a w
                \<and> todo a (env (recordEvent (r_client r) w e)) = todo a (env w))
     \<and> (\<forall>a \<in> A. \<exists>impl. r_registry r (fst a) = Some impl
          \<and> (\<forall>w. let (out, w1) = ai_revert impl (r_client r) rc (snd a) w in
               out \<noteq> Panicked \<and> getMJ (r_client r) w1 k = getMJ (r_client r) w k
               \<and> (\<forall>b \<in> A. todo b (env w1) \<le> todo b w)
               \<and> ((\<exists>d. out = Returned True d) \<or> todo a (env w1) < todo a w)))"

definition token_of :: "active_action \<Rightarrow> action_type \<times> raw_json" where
  "token_of aa = (aa_type aa, aa_revert aa)"

definition left_to_do :: "(action_type \<times> raw_json \<Rightarrow> 'w \<Rightarrow> nat) \<Rightarrow> 'w \<Rightarrow> active_action list \<Rightarrow> nat" where
  "left_to_do todo w aas = sum_list (map (\<lambda>aa. todo (token_of aa) w + 1) aas)"

fun passes :: "'w reconciler \<Rightarrow> nsname \<Rightarrow> ('w \<Rightarrow> 'w) \<Rightarrow> nat \<Rightarrow> 'w \<Rightarrow> 'w" where
  "passes r k env 0 w = w"
| "passes r k env (Suc n) w = passes r k env n (env (snd (Reconcile r k w)))"

lemma settlingD:
  assumes "settling r k env rc A todo"
  shows "getMJ (r_client r) (env w) k = getMJ (r_client r) w k"
    and "todo a (snd (updateMJStatus (r_client r) w fs)) = todo a w"
    and "todo a (env (snd (updateMJStatus (r_client r) w fs))) = todo a (env w)"
    and "todo a (recordEvent (r_client r) w e) = todo a w"
    and "todo a (env (recordEvent (r_client r) w e)) = todo a (env w)"
  using assms unfolding settling_def by blast+

lemma settling_revert:
  assumes "settling r k env rc A todo" and "a \<in> A"
  obtains impl where "r_registry r (fst a) = Some impl"
    "\<And>w out w1. ai_revert impl (r_client r) rc (snd a) w = (out, w1) \<Longrightarrow>
       out \<noteq> Panicked \<and> getMJ (r_client r) w1 k = getMJ (r_client r) w k
       \<and> (\<forall>b \<in> A. todo b (env w1) \<le> todo b w)
       \<and> ((\<exists>d. out = Returned True d) \<or> todo a (env w1) < todo a w)"
proof -
  from assms obtain impl where i: "r_registry r (fst a) = Some impl"
    "\<forall>w. let (out, w1) = ai_revert impl (r_client r) rc (snd a) w in
       out \<noteq> Panicked \<and> getMJ (r_client r) w1 k = getMJ (r_client r) w k
       \<and> (\<forall>b \<in> A. todo b (env w1) \<le> todo b w)
       \<and> ((\<exists>d. out = Returned True d) \<or> todo a (env w1) < todo a w)"
    unfolding settling_def by blast
  show thesis
  proof (rule that [OF i(1)])
    fix w out w1
    assume "ai_revert impl (r_client r) rc (snd a) w = (out, w1)"
    with i(2) [rule_format, of w] show "out \<noteq> Panicked \<and> getMJ (r_client r) w1 k = getMJ (r_client r) w k
       \<and> (\<forall>b \<in> A. todo b (env w1) \<le> todo b w)
       \<and> ((\<exists>d. out = Returned True d) \<or> todo a (env w1) < todo a w)"
      by simp
  qed
qed

lemma patchStatus_todo:
  assumes "settling r k env rc A todo" and "retry_ok (retryOnConflict (r_client r))"
    and "patchStatus r fs m w = (res, w')"
  shows "todo a w' = todo a w \<and> todo a (env w') = todo a (env w)"
proof -
  have retry: "conflict_retry (retryOnConflict (r_client r))" using assms(2) by (simp add: retry_ok_iff)
  have run: "retryOnConflict (r_client r) (patch_once (r_client r) fs m) w = (res, w')"
    using assms(3) by (simp add: patchStatus_def)
  have keeps: "todo a x1 = todo a x \<and> todo a (env x1) = todo a (env x)"
    if once: "patch_once (r_client r) fs m x = (r1, x1)" for x r1 x1
  proof (cases "getMJ (r_client r) x (mj_key fs)")
    case (Inl e)
    with once show ?thesis by (simp add: patch_once_def)
  next
    case (Inr latest)
    with once have "x1 = snd (updateMJStatus (r_client r) x (latest\<lparr>mj_status_of :=
        (m x (mj_status_of latest))\<lparr>st_observed_generation := mj_generation latest\<rparr>\<rparr>))"
      by (simp add: patch_once_def)
    then show ?thesis by (simp add: settlingD(2,3) [OF assms(1)])
  qed
  show ?thesis
    by (rule conflict_retry.preserves [OF retry run, where I = "\<lambda>x. todo a x = todo a w \<and> todo a (env x) = todo a (env w)"])
       (use keeps in auto)
qed

lemma updated_todo:
  assumes "settling r k env rc A todo" and "retry_ok (retryOnConflict (r_client r))" and "updated r w w'"
  shows "todo a w' = todo a w \<and> todo a (env w') = todo a (env w)"
  using assms(3) patchStatus_todo [OF assms(1,2)] settlingD(4,5) [OF assms(1)]
  unfolding updated_def by metis

lemma after_revert_token:
  "token_of ` set (after_revert out xs aa) \<subseteq> token_of ` set (xs @ [aa])"
  by (cases "(out, xs, aa)" rule: after_revert.cases)
     (auto simp: token_of_def mark_reverting_def mark_revert_failed_def)

lemma after_revert_names:
  "distinct (map aa_name (xs @ [aa])) \<Longrightarrow> distinct (map aa_name (after_revert out xs aa))"
  by (cases "(out, xs, aa)" rule: after_revert.cases)
     (auto simp: mark_reverting_def mark_revert_failed_def)

lemma left_to_do_less:
  assumes le: "\<And>b. b \<in> A \<Longrightarrow> todo b w' \<le> todo b w"
    and tokens: "token_of ` set (xs @ [aa]) \<subseteq> A" and out: "out \<noteq> Panicked"
    and progress: "(\<exists>d. out = Returned True d) \<or> todo (token_of aa) w' < todo (token_of aa) w"
  shows "left_to_do todo w' (after_revert out xs aa) < left_to_do todo w (xs @ [aa])"
proof -
  have "left_to_do todo w' xs \<le> left_to_do todo w xs"
    unfolding left_to_do_def using tokens by (intro sum_list_mono) (auto intro: le)
  moreover have "token_of (mark_reverting aa) = token_of aa"
    "token_of (mark_revert_failed n e aa) = token_of aa" for n e
    by (simp_all add: token_of_def mark_reverting_def mark_revert_failed_def)
  ultimately show ?thesis
    using progress out
    by (cases "(out, xs, aa)" rule: after_revert.cases) (auto simp: left_to_do_def)
qed

lemma runStillWanted_status [simp]: "runStillWanted (with_status fs s v) run = runStillWanted fs run"
  by (simp add: runStillWanted_def split: run_trigger.splits)

text \<open>
  \<open>ends fs w\<close> is a reason to revert that lasts: while it holds Reconcile reverts, and it holds of what a
  pass leaves, as long as there is a run or are active actions.
\<close>

definition lasting :: "'w reconciler \<Rightarrow> nsname \<Rightarrow> ('w \<Rightarrow> 'w) \<Rightarrow> (maintenance_job \<Rightarrow> 'w \<Rightarrow> bool) \<Rightarrow> bool" where
  "lasting r k env ends \<longleftrightarrow>
     (\<forall>fs w. getMJ (r_client r) w k = Inr fs \<longrightarrow> ends fs w \<longrightarrow>
        Reconcile r k w = reconcileRevert r fs (st_current_run (mj_status_of fs)) (deleting fs) w)
   \<and> (\<forall>fs w s v. getMJ (r_client r) w k = Inr fs \<longrightarrow> ends fs w \<longrightarrow>
        st_current_run s = st_current_run (mj_status_of fs) \<longrightarrow>
        st_active_actions s \<noteq> [] \<or> st_current_run s \<noteq> None \<longrightarrow>
        ends (with_status fs s v) (env (snd (Reconcile r k w))))"

text \<open>
  What a token remembers is \<open>undone\<close> in a world: a Revert that is done has undone its own token, and
  nothing that the passes and \<open>env\<close> do brings it back. The contract of the actions for it, and what
  \<open>env\<close> and the reconciler's own updates keep (\<open>steady\<close>):
\<close>

definition steady :: "'w reconciler \<Rightarrow> ('w \<Rightarrow> 'w) \<Rightarrow> ('w \<Rightarrow> bool) \<Rightarrow> bool" where
  "steady r env P \<longleftrightarrow> (\<forall>w. P w \<longrightarrow> P (env w)) \<and> (\<forall>w w'. P w \<longrightarrow> updated r w w' \<longrightarrow> P w')
     \<and> (\<forall>w e. P w \<longrightarrow> P (recordEvent (r_client r) w e))"

locale undoing =
  fixes r :: "'w reconciler" and env :: "'w \<Rightarrow> 'w" and rc :: run_context
    and A :: "(action_type \<times> raw_json) set" and undone :: "action_type \<times> raw_json \<Rightarrow> 'w \<Rightarrow> bool"
  assumes retry: "conflict_retry (retryOnConflict (r_client r))"
    and reverts: "\<lbrakk>a \<in> A; r_registry r (fst a) = Some impl; ai_revert impl (r_client r) rc (snd a) w = (out, w1)\<rbrakk> \<Longrightarrow>
      ((\<exists>d. out = Returned True d) \<longrightarrow> undone a w1) \<and> (\<forall>b \<in> A. undone b w \<longrightarrow> undone b w1)"
    and between: "b \<in> A \<Longrightarrow> undone b w \<Longrightarrow> undone b (env w)"
    and status: "b \<in> A \<Longrightarrow> undone b w \<Longrightarrow> undone b (snd (updateMJStatus (r_client r) w fs))"
    and update: "b \<in> A \<Longrightarrow> undone b w \<Longrightarrow> undone b (snd (updateMJ (r_client r) w fs))"
    and event: "b \<in> A \<Longrightarrow> undone b w \<Longrightarrow> undone b (recordEvent (r_client r) w e)"
begin

lemma patch:
  assumes "b \<in> A" and "undone b w" and "patchStatus r fs m w = (res, w')"
  shows "undone b w'"
proof -
  have run: "retryOnConflict (r_client r) (patch_once (r_client r) fs m) w = (res, w')"
    using assms(3) by (simp add: patchStatus_def)
  have "undone b x1" if once: "patch_once (r_client r) fs m x = (r1, x1)" and x: "undone b x" for x r1 x1
  proof (cases "getMJ (r_client r) x (mj_key fs)")
    case (Inl e)
    with once x show ?thesis by (simp add: patch_once_def)
  next
    case (Inr latest)
    with once have "x1 = snd (updateMJStatus (r_client r) x (latest\<lparr>mj_status_of :=
        (m x (mj_status_of latest))\<lparr>st_observed_generation := mj_generation latest\<rparr>\<rparr>))"
      by (simp add: patch_once_def)
    with status [OF assms(1) x] show ?thesis by simp
  qed
  note once = this
  show ?thesis
    by (rule conflict_retry.preserves [OF retry run, where I = "undone b"]) (use once assms(2) in blast)+
qed

lemma kept:
  assumes "b \<in> A" and "undone b w" and "updated r w w'"
  shows "undone b w'"
  using assms(3) patch [OF assms(1)] assms(2) event [OF assms(1,2)] unfolding updated_def by blast

lemma steady: "b \<in> A \<Longrightarrow> steady r env (undone b)"
  using between kept event unfolding steady_def by blast

end

lemma drained_by:
  assumes q: "quiet_store (r_client r) k" and settle: "settling r k env rc A todo" and lasts: "lasting r k env ends"
    and undo: "undoing r env rc A undone"
  shows "getMJ (r_client r) w k = Inr fs \<Longrightarrow> live_object fs \<Longrightarrow>
    st_active_actions (mj_status_of fs) \<noteq> [] \<or> st_current_run (mj_status_of fs) \<noteq> None \<longrightarrow> ends fs w \<Longrightarrow>
    runContext r fs (st_current_run (mj_status_of fs)) = rc \<Longrightarrow>
    distinct (map aa_name (st_active_actions (mj_status_of fs))) \<Longrightarrow>
    token_of ` set (st_active_actions (mj_status_of fs)) \<subseteq> A \<Longrightarrow>
    \<exists>n s v. n \<le> left_to_do todo w (st_active_actions (mj_status_of fs))
      \<and> getMJ (r_client r) (passes r k env n w) k = Inr (with_status fs s v)
      \<and> st_active_actions s = [] \<and> st_current_run s = st_current_run (mj_status_of fs)
      \<and> (st_current_run s \<noteq> None \<longrightarrow> ends (with_status fs s v) (passes r k env n w))
      \<and> (\<forall>b \<in> A. undone b w \<or> b \<in> token_of ` set (st_active_actions (mj_status_of fs)) \<longrightarrow>
           undone b (passes r k env n w))"
proof (induction "left_to_do todo w (st_active_actions (mj_status_of fs))" arbitrary: w fs rule: less_induct)
  case less
  let ?c = "r_client r"
  show ?case
  proof (cases "st_active_actions (mj_status_of fs)" rule: rev_cases)
    case Nil
    have "getMJ ?c (passes r k env 0 w) k = Inr (with_status fs (mj_status_of fs) (mj_resource_version fs))"
      using less.prems(1) by (simp add: with_status_def)
    moreover have "st_current_run (mj_status_of fs) \<noteq> None \<longrightarrow>
        ends (with_status fs (mj_status_of fs) (mj_resource_version fs)) (passes r k env 0 w)"
      using less.prems(3) by (simp add: with_status_def)
    moreover have "\<forall>b \<in> A. undone b w \<or> b \<in> token_of ` set (st_active_actions (mj_status_of fs)) \<longrightarrow>
        undone b (passes r k env 0 w)"
      using Nil by simp
    ultimately show ?thesis using Nil by blast
  next
    case (snoc xs aa)
    have key: "mj_key fs = k" using quiet_storeD(2) [OF q] less.prems(1) by blast
    have a: "token_of aa \<in> A" using less.prems(6) snoc by auto
    obtain impl where impl: "r_registry r (aa_type aa) = Some impl"
      and rev: "\<And>w out w1. ai_revert impl ?c rc (aa_revert aa) w = (out, w1) \<Longrightarrow>
         out \<noteq> Panicked \<and> getMJ ?c w1 k = getMJ ?c w k
         \<and> (\<forall>b \<in> A. todo b (env w1) \<le> todo b w)
         \<and> ((\<exists>d. out = Returned True d) \<or> todo (token_of aa) (env w1) < todo (token_of aa) w)"
      by (rule settling_revert [OF settle a]) (auto simp: token_of_def)
    have wd: "ends fs w" using less.prems(3) snoc by simp
    let ?run = "st_current_run (mj_status_of fs)"
    let ?w' = "snd (reconcileRevert r fs ?run (deleting fs) w)"
    have rec: "snd (Reconcile r k w) = ?w'"
      using lasts less.prems(1) wd snoc by (simp add: lasting_def)
    obtain w0 out w1 where pass: "updated r w w0" "ai_revert impl ?c rc (aa_revert aa) w0 = (out, w1)"
      "updated r w1 ?w'" "stored_with ?c ?w' fs (after_revert out xs aa)"
      by (rule winding_down_pass [of r fs w xs aa impl ?run "deleting fs"])
         (use q less.prems snoc impl key rev in auto)
    note rev' = rev [OF pass(2)]
    have ok: "retry_ok (retryOnConflict ?c)" using quiet_storeD(1) [OF q] .
    have eq: "todo b w0 = todo b w" "todo b (env ?w') = todo b (env w1)" for b
      using updated_todo [OF settle ok pass(1)] updated_todo [OF settle ok pass(3)] by auto
    obtain s v where stored: "getMJ ?c ?w' k = Inr (with_status fs s v)"
      "st_active_actions s = after_revert out xs aa" "st_current_run s = ?run"
      using pass(4) key by (auto simp: stored_with_def)
    let ?fs' = "with_status fs s v"
    have impl': "r_registry r (fst (token_of aa)) = Some impl" "ai_revert impl ?c rc (snd (token_of aa)) w0 = (out, w1)"
      using impl pass(2) by (simp_all add: token_of_def)
    have undone': "undone b (env ?w') \<or> b \<in> token_of ` set (st_active_actions s)"
      if b: "b \<in> A" "undone b w \<or> b \<in> token_of ` set (st_active_actions (mj_status_of fs))" for b
    proof -
      note onward = undoing.between [OF undo b(1) undoing.kept [OF undo b(1) _ pass(3)]]
      note revert = undoing.reverts [OF undo a impl']
      consider "undone b w" | "b \<in> token_of ` set (after_revert out xs aa)" | "b = token_of aa" "\<exists>d. out = Returned True d"
        using b(2) snoc by (cases "(out, xs, aa)" rule: after_revert.cases)
          (auto simp: token_of_def mark_reverting_def mark_revert_failed_def)
      then show ?thesis
      proof cases
        case 1
        with onward revert b(1) undoing.kept [OF undo b(1) 1 pass(1)] show ?thesis by blast
      next
        case 2
        with stored(2) show ?thesis by simp
      next
        case 3
        with onward revert show ?thesis by blast
      qed
    qed
    have smaller: "left_to_do todo (env ?w') (st_active_actions s) < left_to_do todo w (st_active_actions (mj_status_of fs))"
      unfolding stored(2) snoc
      by (rule left_to_do_less [where A = A]) (use rev' eq less.prems(6) snoc in auto)
    have "\<exists>n s' v'. n \<le> left_to_do todo (env ?w') (st_active_actions s)
        \<and> getMJ ?c (passes r k env n (env ?w')) k = Inr (with_status ?fs' s' v')
        \<and> st_active_actions s' = [] \<and> st_current_run s' = st_current_run s
        \<and> (st_current_run s' \<noteq> None \<longrightarrow> ends (with_status ?fs' s' v') (passes r k env n (env ?w')))
        \<and> (\<forall>b \<in> A. undone b (env ?w') \<or> b \<in> token_of ` set (st_active_actions s) \<longrightarrow>
             undone b (passes r k env n (env ?w')))"
    proof (rule less.hyps [of "env ?w'" ?fs', unfolded with_status_simps])
      show "token_of ` set (st_active_actions s) \<subseteq> A"
        unfolding stored(2) by (rule subset_trans [OF after_revert_token]) (use less.prems(6) snoc in simp)
      show "distinct (map aa_name (st_active_actions s))"
        using after_revert_names [of xs aa out] less.prems(5) snoc stored(2) by simp
      show "st_active_actions s \<noteq> [] \<or> st_current_run s \<noteq> None \<longrightarrow> ends ?fs' (env ?w')"
        using lasts less.prems(1) wd stored(3) unfolding lasting_def rec [symmetric] by blast
    qed (use smaller stored(1,3) less.prems settlingD(1) [OF settle] in simp_all)
    then obtain n s' v' where n: "n \<le> left_to_do todo (env ?w') (st_active_actions s)"
      "getMJ ?c (passes r k env n (env ?w')) k = Inr (with_status ?fs' s' v')"
      "st_active_actions s' = []" "st_current_run s' = st_current_run s"
      "st_current_run s' \<noteq> None \<longrightarrow> ends (with_status ?fs' s' v') (passes r k env n (env ?w'))"
      "\<forall>b \<in> A. undone b (env ?w') \<or> b \<in> token_of ` set (st_active_actions s) \<longrightarrow>
         undone b (passes r k env n (env ?w'))"
      by blast
    have "getMJ ?c (passes r k env (Suc n) w) k = Inr (with_status fs s' v')"
      using n(2) rec by (simp add: with_status_def)
    moreover have "Suc n \<le> left_to_do todo w (st_active_actions (mj_status_of fs))"
      using n(1) smaller by simp
    moreover have "with_status ?fs' s' v' = with_status fs s' v'" by (simp add: with_status_def)
    moreover have same: "passes r k env (Suc n) w = passes r k env n (env ?w')" using rec by simp
    moreover have "\<forall>b \<in> A. undone b w \<or> b \<in> token_of ` set (st_active_actions (mj_status_of fs)) \<longrightarrow>
        undone b (passes r k env (Suc n) w)"
      unfolding same using undone' n(6) by blast
    ultimately show ?thesis
      using n(3-5) stored(3) by (intro exI [of _ "Suc n"] exI [of _ s'] exI [of _ v']) simp
  qed
qed

lemma winding_down_lasts:
  assumes "quiet_store (r_client r) k"
  shows "lasting r k env (\<lambda>fs w. winding_down r fs)"
proof -
  have "winding_down r (with_status fs s v)"
    if "winding_down r fs" "st_current_run s = st_current_run (mj_status_of fs)"
      "st_active_actions s \<noteq> [] \<or> st_current_run s \<noteq> None" for fs s v
    using that by (auto simp: winding_down_def split: option.splits)
  then show ?thesis using Reconcile_winding_down [OF assms] unfolding lasting_def by blast
qed

lemmas drained_aux = drained_by [OF _ _ winding_down_lasts]

end
