(* ===== verification/Mended.thy ===== *)
theory Mended
  imports Draining
begin

text \<open>
  What the Reverts of Scale and DeployImage do to the Deployments of the cluster in memory. Both mend: they
  touch their own Deployment alone, free it, return it to a replica count or a container to an image,
  and add nothing. Two tokens on one Deployment are at odds unless they agree on what to return to:
  \<open>f\<close> gives each Deployment its count, and \<open>g\<close> each container its image.
\<close>

section \<open>Undone and left to do\<close>

definition restorable :: "deploy_image_token \<Rightarrow> deployment \<Rightarrow> bool" where
  "restorable t d \<longleftrightarrow>
     (case containerIndex d (dt_container t) of None \<Rightarrow> False | Some i \<Rightarrow> image_at d i = dt_bad_image t)"

definition deploy_todo :: "run_context \<Rightarrow> deploy_image_token \<Rightarrow> cluster \<Rightarrow> nat" where
  "deploy_todo rc t cl =
     (case lookup dep_key (cl_deps cl) (dt_key t) of
        None \<Rightarrow> 0
      | Some d \<Rightarrow> if \<not> held_by_other rc d \<and> restorable t d then 1 else 0)"

definition scale_undone :: "run_context \<Rightarrow> scale_token \<Rightarrow> cluster \<Rightarrow> bool" where
  "scale_undone rc t cl \<longleftrightarrow>
     (case lookup dep_key (cl_deps cl) (st_key t) of
        None \<Rightarrow> True
      | Some d \<Rightarrow> held_by_other rc d \<or> dep_replicas d = Some (st_previous_replicas t) \<and> holder d = [])"

definition deploy_undone :: "run_context \<Rightarrow> deploy_image_token \<Rightarrow> cluster \<Rightarrow> bool" where
  "deploy_undone rc t cl \<longleftrightarrow>
     (case lookup dep_key (cl_deps cl) (dt_key t) of
        None \<Rightarrow> True
      | Some d \<Rightarrow> held_by_other rc d
          \<or> \<not> restorable t d \<and> dep_annotations d (knownGood t) = None \<and> holder d = [])"

section \<open>Mending\<close>

definition mends :: "(nsname \<Rightarrow> int) \<Rightarrow> (nsname \<Rightarrow> string \<Rightarrow> string) \<Rightarrow> deployment \<Rightarrow> deployment \<Rightarrow> bool" where
  "mends f g d d' \<longleftrightarrow> dep_key d' = dep_key d \<and> holder d' = []
     \<and> (\<forall>k. dep_annotations d' k = None \<or> dep_annotations d' k = dep_annotations d k)
     \<and> dep_replicas d' \<in> {dep_replicas d, Some (f (dep_key d))}
     \<and> (\<forall>n. containerIndex d' n = containerIndex d n)
     \<and> (\<forall>n i. containerIndex d n = Some i \<longrightarrow> image_at d' i \<in> {image_at d i, g (dep_key d) n})"

definition deps_mended ::
  "(nsname \<Rightarrow> int) \<Rightarrow> (nsname \<Rightarrow> string \<Rightarrow> string) \<Rightarrow> run_context \<Rightarrow> cluster \<Rightarrow> cluster \<Rightarrow> bool" where
  "deps_mended f g rc cl cl1 \<longleftrightarrow> (\<exists>ds. cl1 = cl\<lparr>cl_deps := ds\<rparr>
     \<and> (\<forall>k. lookup dep_key ds k = lookup dep_key (cl_deps cl) k
          \<or> (\<exists>d d'. lookup dep_key (cl_deps cl) k = Some d \<and> lookup dep_key ds k = Some d'
               \<and> \<not> held_by_other rc d \<and> mends f g d d')))"

lemma deps_mended_refl [simp]: "deps_mended f g rc cl cl"
  by (auto simp: deps_mended_def intro: exI [of _ "cl_deps cl"])

lemma deps_mended_put:
  assumes "lookup dep_key (cl_deps cl) k = Some d" and "\<not> held_by_other rc d" and "mends f g d d'"
  shows "deps_mended f g rc cl (cl\<lparr>cl_deps := put dep_key d' (cl_deps cl)\<rparr>)"
proof -
  have "dep_key d' = k" using lookup_key [OF assms(1)] assms(3) by (simp add: mends_def)
  then have put: "lookup dep_key (put dep_key d' (cl_deps cl)) j = (if j = k then Some d' else lookup dep_key (cl_deps cl) j)" for j
    by (simp add: lookup_put)
  show ?thesis
    unfolding deps_mended_def
  proof (intro exI [of _ "put dep_key d' (cl_deps cl)"] conjI allI)
    fix j
    show "lookup dep_key (put dep_key d' (cl_deps cl)) j = lookup dep_key (cl_deps cl) j
        \<or> (\<exists>d d''. lookup dep_key (cl_deps cl) j = Some d \<and> lookup dep_key (put dep_key d' (cl_deps cl)) j = Some d''
              \<and> \<not> held_by_other rc d \<and> mends f g d d'')"
      unfolding put using assms by (cases "j = k") simp_all
  qed (rule refl)
qed

lemma deps_mended_cases:
  assumes "deps_mended f g rc cl cl1"
  obtains "lookup dep_key (cl_deps cl1) k = lookup dep_key (cl_deps cl) k"
  | d d' where "lookup dep_key (cl_deps cl) k = Some d" "lookup dep_key (cl_deps cl1) k = Some d'" "dep_key d = k"
      "\<not> held_by_other rc d" "mends f g d d'"
proof -
  obtain ds where ds: "cl1 = cl\<lparr>cl_deps := ds\<rparr>" "lookup dep_key ds k = lookup dep_key (cl_deps cl) k
      \<or> (\<exists>d d'. lookup dep_key (cl_deps cl) k = Some d \<and> lookup dep_key ds k = Some d'
           \<and> \<not> held_by_other rc d \<and> mends f g d d')"
    using assms unfolding deps_mended_def by blast
  from ds(2) show thesis
  proof
    assume "lookup dep_key ds k = lookup dep_key (cl_deps cl) k"
    with ds(1) show thesis by (intro that(1)) simp
  next
    assume "\<exists>d d'. lookup dep_key (cl_deps cl) k = Some d \<and> lookup dep_key ds k = Some d'
        \<and> \<not> held_by_other rc d \<and> mends f g d d'"
    then obtain d d' where "lookup dep_key (cl_deps cl) k = Some d" "lookup dep_key ds k = Some d'"
      "\<not> held_by_other rc d" "mends f g d d'"
      by blast
    with ds(1) lookup_key [OF this(1)] show thesis by (intro that(2) [of d d']) simp_all
  qed
qed

lemma deps_mended_frame:
  "deps_mended f g rc cl cl1 \<Longrightarrow> cl_jobs cl1 = cl_jobs cl \<and> cl_chaos cl1 = cl_chaos cl \<and> cl_mjs cl1 = cl_mjs cl"
  by (auto simp: deps_mended_def)

lemma mends_restorable:
  assumes "mends f g d d'" and "restorable t d'" and "dt_bad_image t \<noteq> g (dep_key d) (dt_container t)"
  shows "restorable t d"
proof -
  obtain i where i: "containerIndex d' (dt_container t) = Some i" "image_at d' i = dt_bad_image t"
    using assms(2) by (auto simp: restorable_def split: option.splits)
  have same: "containerIndex d (dt_container t) = Some i" using assms(1) i(1) by (simp add: mends_def)
  then have "image_at d' i \<in> {image_at d i, g (dep_key d) (dt_container t)}"
    using assms(1) unfolding mends_def by blast
  with i same assms(3) show ?thesis by (auto simp: restorable_def)
qed

lemma mended_todo:
  assumes "deps_mended f g rc cl cl1" and "dt_bad_image t \<noteq> g (dt_key t) (dt_container t)"
  shows "deploy_todo rc t cl1 \<le> deploy_todo rc t cl"
proof (rule deps_mended_cases [OF assms(1), of "dt_key t"])
  fix d d'
  assume "lookup dep_key (cl_deps cl) (dt_key t) = Some d" "lookup dep_key (cl_deps cl1) (dt_key t) = Some d'"
    "dep_key d = dt_key t" "\<not> held_by_other rc d" "mends f g d d'"
  then show ?thesis using mends_restorable [of f g d d' t] assms(2) by (auto simp: deploy_todo_def)
qed (simp add: deploy_todo_def)

lemma mended_scale_undone:
  assumes "deps_mended f g rc cl cl1" and "st_previous_replicas t = f (st_key t)" and "scale_undone rc t cl"
  shows "scale_undone rc t cl1"
proof (rule deps_mended_cases [OF assms(1), of "st_key t"])
  fix d d'
  assume "lookup dep_key (cl_deps cl) (st_key t) = Some d" "lookup dep_key (cl_deps cl1) (st_key t) = Some d'"
    "dep_key d = st_key t" "\<not> held_by_other rc d" "mends f g d d'"
  then show ?thesis using assms(2,3) by (auto simp: scale_undone_def mends_def)
qed (use assms(3) in \<open>simp add: scale_undone_def\<close>)

lemma mended_deploy_undone:
  assumes "deps_mended f g rc cl cl1" and "dt_bad_image t \<noteq> g (dt_key t) (dt_container t)" and "deploy_undone rc t cl"
  shows "deploy_undone rc t cl1"
proof (rule deps_mended_cases [OF assms(1), of "dt_key t"])
  fix d d'
  assume d: "lookup dep_key (cl_deps cl) (dt_key t) = Some d" "lookup dep_key (cl_deps cl1) (dt_key t) = Some d'"
    "dep_key d = dt_key t" "\<not> held_by_other rc d" "mends f g d d'"
  then have "\<not> restorable t d'" using mends_restorable [OF d(5)] assms(2,3) by (auto simp: deploy_undone_def)
  moreover have "dep_annotations d' (knownGood t) = None" "holder d' = []"
    using d assms(3) unfolding deploy_undone_def mends_def by auto
  ultimately show ?thesis using d(2) by (simp add: deploy_undone_def)
qed (use assms(3) in \<open>simp add: deploy_undone_def\<close>)

section \<open>The Reverts\<close>

lemma revert_scale_mends:
  assumes "Scale_Revert mem_client rc (marshal_scale t) cl = (out, cl1)" and "int32_ok (st_previous_replicas t)"
    and "st_previous_replicas t = f (st_key t)"
  shows "out = Returned True 0 \<and> scale_undone rc t cl1 \<and> deps_mended f g rc cl cl1"
proof (cases "lookup dep_key (cl_deps cl) (st_key t)")
  case None
  with assms(1,2) show ?thesis
    by (auto simp: Scale_Revert_def mem_client_def find_obj_def scale_undone_def absent_def isNotFound_def)
next
  case (Some d)
  let ?d = "d\<lparr>dep_replicas := Some (st_previous_replicas t), dep_annotations := (dep_annotations d)(HeldByAnnotation := None)\<rparr>"
  have key: "dep_key d = st_key t" by (rule lookup_key [OF Some])
  then have key': "dep_key ?d = st_key t" by (simp add: dep_key_def)
  have free: "holder ?d = []" by (simp add: holder_def go_get_def)
  have mends: "mends f g d ?d"
    using key key' free assms(3) by (simp add: mends_def containerIndex_def image_at_def)
  show ?thesis
  proof (cases "held_by_other rc d \<or> dep_replicas d = Some (st_previous_replicas t) \<and> holder d = []")
    case True
    with assms(1,2) Some have "cl1 = cl \<and> out = Returned True 0"
      by (auto simp: Scale_Revert_def mem_client_def find_obj_def split: if_splits)
    with True Some show ?thesis by (auto simp: scale_undone_def)
  next
    case False
    with assms(1,2) Some key have "out = Returned True 0 \<and> cl1 = cl\<lparr>cl_deps := put dep_key ?d (cl_deps cl)\<rparr>"
      by (auto simp: Scale_Revert_def mem_client_def find_obj_def mem_patchDeployment_def Let_def)
    with free key' False deps_mended_put [OF Some _ mends, of rc] show ?thesis by (auto simp: scale_undone_def lookup_put)
  qed
qed

lemma rolled_back_mends:
  assumes "containerIndex d (dt_container t) = Some i \<or> restore = None" and "restore = None \<or> restore = Some i"
    and "dt_good_image t = g (dep_key d) (dt_container t)"
  shows "mends f g d (rolled_back t restore d)"
proof (cases restore)
  case None
  then show ?thesis
    by (simp add: mends_def rolled_back_def dep_key_def holder_def go_get_def containerIndex_def image_at_def)
next
  case (Some j)
  with assms(1,2) have i: "containerIndex d (dt_container t) = Some i" "j = i" by auto
  have bound: "i < length (dep_containers d)" "cn_name (dep_containers d ! i) = dt_container t"
    using containerIndex_bound [OF i(1)] by auto
  have "image_at (rolled_back t restore d) m \<in> {image_at d m, g (dep_key d) n}" if "containerIndex d n = Some m" for n m
    using containerIndex_bound [OF that] bound Some i(2) assms(3)
    by (auto simp: rolled_back_def set_image_def image_at_def nth_list_update)
  moreover have "containerIndex (rolled_back t restore d) n = containerIndex d n" for n
    using containerIndex_set_image [OF bound(1)] Some i(2) by (simp add: rolled_back_def containerIndex_def)
  ultimately show ?thesis
    by (simp add: mends_def rolled_back_def dep_key_def holder_def go_get_def)
qed

lemma revert_deploy_mends:
  assumes "DeployImage_Revert mem_client rc (marshal_deploy_image t) cl = (out, cl1)"
    and "dt_good_image t = g (dt_key t) (dt_container t)" and "dt_bad_image t \<noteq> dt_good_image t"
  shows "deps_mended f g rc cl cl1 \<and> (out = Returned True 0 \<and> deploy_undone rc t cl1
    \<or> out = Returned False (5 * second) \<and> deploy_todo rc t cl1 < deploy_todo rc t cl)"
proof (cases "lookup dep_key (cl_deps cl) (dt_key t)")
  case None
  with assms(1) show ?thesis
    by (auto simp: DeployImage_Revert_def mem_client_def find_obj_def deploy_undone_def absent_def isNotFound_def)
next
  case (Some d)
  have key: "dep_key d = dt_key t" by (rule lookup_key [OF Some])
  define restore where "restore = (case containerIndex d (dt_container t) of
      None \<Rightarrow> None | Some i \<Rightarrow> if image_at d i = dt_bad_image t then Some i else None)"
  let ?d = "rolled_back t restore d"
  have restore: "restore \<noteq> None \<longleftrightarrow> restorable t d"
    by (auto simp: restore_def restorable_def split: option.splits)
  have mends: "mends f g d ?d"
    by (cases restore; rule rolled_back_mends [where i = "the restore"])
       (use assms(2) key in \<open>auto simp: restore_def split: option.splits if_splits\<close>)
  have key': "dep_key ?d = dt_key t" "holder ?d = []" using mends key by (simp_all add: mends_def)
  have mark: "dep_annotations ?d (knownGood t) = None"
    by (simp add: rolled_back_def knownGood_def)
  have gone: "\<not> restorable t ?d"
  proof (cases restore)
    case None
    then have "dep_containers ?d = dep_containers d" by (simp add: rolled_back_def)
    then have "restorable t ?d = restorable t d"
      by (simp add: restorable_def containerIndex_def image_at_def split: option.split)
    with restore None show ?thesis by simp
  next
    case (Some i)
    then have i: "containerIndex d (dt_container t) = Some i"
      by (auto simp: restore_def split: option.splits if_splits)
    then have "containerIndex ?d (dt_container t) = Some i" using mends by (simp add: mends_def)
    moreover have "image_at ?d i = dt_good_image t"
      using containerIndex_bound [OF i] Some by (simp add: rolled_back_def set_image_def image_at_def)
    ultimately show ?thesis using assms(3) by (simp add: restorable_def)
  qed
  show ?thesis
  proof (cases "held_by_other rc d \<or> restore = None \<and> dep_annotations d (knownGood t) = None \<and> holder d = []")
    case True
    with assms(1) Some have "cl1 = cl \<and> out = Returned True 0"
      by (simp add: DeployImage_Revert_def mem_client_def find_obj_def Let_def restore_def [symmetric] split: if_splits)
    with True Some restore show ?thesis by (auto simp: deploy_undone_def)
  next
    case False
    with assms(1) Some key have run: "cl1 = cl\<lparr>cl_deps := put dep_key ?d (cl_deps cl)\<rparr>"
      "out = (if restore \<noteq> None then Returned False (5 * second) else Returned True 0)"
      by (simp_all add: DeployImage_Revert_def mem_client_def find_obj_def mem_patchDeployment_def Let_def restore_def [symmetric]
          split: if_splits)
    have "deps_mended f g rc cl cl1" unfolding run(1) by (rule deps_mended_put [OF Some _ mends]) (use False in simp)
    moreover have "lookup dep_key (cl_deps cl1) (dt_key t) = Some ?d" unfolding run(1) by (simp add: lookup_put key')
    ultimately show ?thesis
      using run(2) restore Some False gone mark key' by (auto simp: deploy_undone_def deploy_todo_def)
  qed
qed

end
