(* ===== verification/Settling.thy ===== *)
theory Settling
  imports Mended
begin

text \<open>
  The cluster in memory meets \<open>settling\<close>, for the tokens of Workload, ChaosMesh, Scale and DeployImage:
  what the Revert of each does there, and what it leaves to do. (The Revert of DBExec waits for a Job of
  its own to succeed, which no client of the cluster can promise.)
\<close>

section \<open>A cluster in which reverts settle\<close>

text \<open>
  In the cluster in memory, with the garbage collector between the passes, the tokens of these actions
  settle: an object of ours is deleted in one pass and collected before the next, and an image is rolled
  back in one pass and seen to be good in the next. Tokens that agree on what to return to:
\<close>

inductive_set plain_tokens :: "(nsname \<Rightarrow> int) \<Rightarrow> (nsname \<Rightarrow> string \<Rightarrow> string) \<Rightarrow> (action_type \<times> raw_json) set" for f g where
  plain_workload: "(ActionTypeWorkload, marshal_workload t) \<in> plain_tokens f g"
| plain_chaos: "(ActionTypeChaosMesh, marshal_chaos t) \<in> plain_tokens f g"
| plain_scale: "int32_ok (st_previous_replicas t) \<Longrightarrow> st_previous_replicas t = f (st_key t) \<Longrightarrow>
    (ActionTypeScale, marshal_scale t) \<in> plain_tokens f g"
| plain_deploy: "dt_good_image t = g (dt_key t) (dt_container t) \<Longrightarrow> dt_bad_image t \<noteq> dt_good_image t \<Longrightarrow>
    (ActionTypeDeployImage, marshal_deploy_image t) \<in> plain_tokens f g"

lemma plain_tokensE:
  assumes "a \<in> plain_tokens f g"
  obtains (workload) t where "a = (ActionTypeWorkload, marshal_workload t)"
  | (chaos) t where "a = (ActionTypeChaosMesh, marshal_chaos t)"
  | (scale) t where "a = (ActionTypeScale, marshal_scale t)" "int32_ok (st_previous_replicas t)"
      "st_previous_replicas t = f (st_key t)"
  | (deploy) t where "a = (ActionTypeDeployImage, marshal_deploy_image t)"
      "dt_good_image t = g (dt_key t) (dt_container t)" "dt_bad_image t \<noteq> dt_good_image t"
  using assms by (cases a) (auto elim: plain_tokens.cases)

definition present_ours :: "('o \<Rightarrow> bool) \<Rightarrow> go_error + 'o \<Rightarrow> nat" where
  "present_ours ours r = (case r of Inl e \<Rightarrow> 0 | Inr x \<Rightarrow> if ours x then 1 else 0)"

definition plain_todo :: "run_context \<Rightarrow> action_type \<times> raw_json \<Rightarrow> cluster \<Rightarrow> nat" where
  "plain_todo rc a cl =
     (case fst a of
        ActionTypeWorkload \<Rightarrow>
          (case unmarshal_workload (snd a) of
             Inr t \<Rightarrow> present_ours (job_ours rc) (find_obj job_key (cl_jobs cl) (wt_key t)) | Inl e \<Rightarrow> 0)
      | ActionTypeChaosMesh \<Rightarrow>
          (case unmarshal_chaos (snd a) of
             Inr t \<Rightarrow> present_ours (chaos_ours rc) (find_obj kind_key (cl_chaos cl) (ct_kind t, ct_key t))
           | Inl e \<Rightarrow> 0)
      | ActionTypeDeployImage \<Rightarrow>
          (case unmarshal_deploy_image (snd a) of Inr t \<Rightarrow> deploy_todo rc t cl | Inl e \<Rightarrow> 0)
      | _ \<Rightarrow> 0)"

lemma present_after_collect:
  "present_ours ours (find_obj key (drop_marked key marked xs) k) \<le> present_ours ours (find_obj key xs k)"
  by (simp add: find_obj_def lookup_drop_marked present_ours_def split: option.splits)

text \<open>Marking the object found under \<open>k\<close>: it is gone after the collection, and no other appears.\<close>

lemma present_after_put:
  assumes "marked x"
  shows "present_ours ours (find_obj key (drop_marked key marked (put key x xs)) (key x)) = 0"
    and "j \<noteq> key x \<Longrightarrow> present_ours ours (find_obj key (drop_marked key marked (put key x xs)) j)
           \<le> present_ours ours (find_obj key xs j)"
  using assms put_in [of x key xs]
  by (auto simp: find_obj_def lookup_drop_marked lookup_put present_ours_def split: option.splits)

definition marked_job :: "cluster \<Rightarrow> job \<Rightarrow> cluster" where
  "marked_job cl j = cl\<lparr>cl_jobs := put job_key (j\<lparr>job_deletion_timestamp := Some (cl_now cl)\<rparr>) (cl_jobs cl)\<rparr>"

definition marked_chaos :: "cluster \<Rightarrow> chaos \<Rightarrow> cluster" where
  "marked_chaos cl x = cl\<lparr>cl_chaos := put kind_key (x\<lparr>ch_deletion_timestamp := Some (cl_now cl)\<rparr>) (cl_chaos cl)\<rparr>"

lemma find_obj_Inr: "find_obj key xs k = Inr x \<longleftrightarrow> lookup key xs k = Some x"
  by (auto simp: find_obj_def split: option.splits)

lemma find_obj_Inl: "find_obj key xs k = Inl e \<longleftrightarrow> lookup key xs k = None \<and> e = absent"
  by (auto simp: find_obj_def split: option.splits)

lemma absent_not_found [simp]: "isNotFound absent"
  by (simp add: absent_def isNotFound_def)

text \<open>What the Revert of each such token does in the cluster in memory.\<close>

lemma mem_revert_workload:
  assumes "Workload_Revert mem_client rc (marshal_workload t) cl = (out, cl1)"
  shows "(out = Returned True 0 \<and> cl1 = cl
          \<and> present_ours (job_ours rc) (find_obj job_key (cl_jobs cl) (wt_key t)) = 0)
    \<or> (\<exists>j d. out = Returned False d \<and> lookup job_key (cl_jobs cl) (wt_key t) = Some j \<and> job_ours rc j
         \<and> (cl1 = marked_job cl j \<or> (cl1 = cl \<and> job_deletion_timestamp j \<noteq> None)))"
proof (cases "lookup job_key (cl_jobs cl) (wt_key t)")
  case None
  with assms show ?thesis
    by (auto simp: Workload_Revert_def mem_client_def find_obj_def present_ours_def)
next
  case (Some j)
  then have "job_key j = wt_key t" by (rule lookup_key)
  with assms Some show ?thesis
    by (auto simp: Workload_Revert_def mem_client_def find_obj_def present_ours_def job_ours_def
        mem_deleteJob_def marked_job_def split: if_splits)
qed

lemma mem_revert_chaos:
  assumes "ChaosMesh_Revert mem_client rc (marshal_chaos t) cl = (out, cl1)"
  shows "(out = Returned True 0 \<and> cl1 = cl
          \<and> present_ours (chaos_ours rc) (find_obj kind_key (cl_chaos cl) (ct_kind t, ct_key t)) = 0)
    \<or> (\<exists>x d. out = Returned False d \<and> lookup kind_key (cl_chaos cl) (ct_kind t, ct_key t) = Some x \<and> chaos_ours rc x
         \<and> (cl1 = marked_chaos cl x \<or> (cl1 = cl \<and> ch_deletion_timestamp x \<noteq> None)))"
proof (cases "lookup kind_key (cl_chaos cl) (ct_kind t, ct_key t)")
  case None
  with assms show ?thesis
    by (auto simp: ChaosMesh_Revert_def mem_client_def find_obj_def present_ours_def)
next
  case (Some x)
  then have "kind_key x = (ct_kind t, ct_key t)" by (rule lookup_key)
  with assms Some show ?thesis
    by (auto simp: ChaosMesh_Revert_def mem_client_def find_obj_def present_ours_def chaos_ours_def
        mem_deleteChaos_def marked_chaos_def split: if_splits)
qed

lemma mem_revert_scale:
  assumes "Scale_Revert mem_client rc (marshal_scale t) cl = (out, cl1)" and "int32_ok (st_previous_replicas t)"
  shows "out = Returned True 0 \<and> (\<exists>ds. cl1 = cl\<lparr>cl_deps := ds\<rparr>)"
  using revert_scale_mends [OF assms, of "\<lambda>_. st_previous_replicas t"] unfolding deps_mended_def by blast

lemma lookup_in: "lookup key xs k = Some x \<Longrightarrow> x \<in> set xs"
  unfolding lookup_def by (induction xs) (auto split: if_splits)

lemma present_marked:
  "lookup key xs k = Some x \<Longrightarrow> marked x \<Longrightarrow> present_ours ours (find_obj key (drop_marked key marked xs) k) = 0"
  by (frule lookup_in, drule lookup_key)
     (auto simp: find_obj_def lookup_drop_marked present_ours_def split: option.splits)

lemma present_put_le:
  "marked x \<Longrightarrow> present_ours ours (find_obj key (drop_marked key marked (put key x xs)) k)
     \<le> present_ours ours (find_obj key xs k)"
  using present_after_put [where marked = marked and x = x and ours = ours and key = key and xs = xs] by (cases "k = key x") auto

lemma plain_todo_le:
  "plain_todo rc b (collect cl) \<le> plain_todo rc b cl"
  "plain_todo rc b (collect (marked_job cl j)) \<le> plain_todo rc b cl"
  "plain_todo rc b (collect (marked_chaos cl x)) \<le> plain_todo rc b cl"
  by (auto simp: plain_todo_def collect_def marked_job_def marked_chaos_def present_after_collect
      present_put_le deploy_todo_def split: action_type.splits sum.splits)

lemma deploy_todo_collect [simp]: "deploy_todo rc t (collect cl) = deploy_todo rc t cl"
  by (simp add: deploy_todo_def collect_def)

lemma plain_todo_mended:
  assumes "deps_mended f g rc cl cl1" and "b \<in> plain_tokens f g"
  shows "plain_todo rc b (collect cl1) \<le> plain_todo rc b cl"
  using assms(2)
proof (cases rule: plain_tokensE)
  case (deploy t)
  then show ?thesis using mended_todo [OF assms(1), of t] by (simp add: plain_todo_def)
qed (use deps_mended_frame [OF assms(1)] in \<open>simp_all add: plain_todo_def collect_def present_after_collect\<close>)

lemma plain_todo_workload:
  assumes "lookup job_key (cl_jobs cl) (wt_key t) = Some j" and "job_ours rc j"
    and "cl1 = marked_job cl j \<or> (cl1 = cl \<and> job_deletion_timestamp j \<noteq> None)"
  shows "plain_todo rc (ActionTypeWorkload, marshal_workload t) (collect cl1)
    < plain_todo rc (ActionTypeWorkload, marshal_workload t) cl"
proof -
  let ?m = "\<lambda>j. job_deletion_timestamp j \<noteq> None"
  let ?j = "j\<lparr>job_deletion_timestamp := Some (cl_now cl)\<rparr>"
  have "job_key ?j = wt_key t" using lookup_key [OF assms(1)] by (simp add: job_key_def)
  then have "present_ours (job_ours rc) (find_obj job_key (drop_marked job_key ?m (cl_jobs cl1)) (wt_key t)) = 0"
    using assms(3) present_after_put(1) [of ?m ?j "job_ours rc" job_key "cl_jobs cl"]
      present_marked [OF assms(1), of ?m "job_ours rc"]
    by (auto simp: marked_job_def)
  with assms(1,2) show ?thesis
    by (simp add: plain_todo_def collect_def present_ours_def find_obj_def)
qed

lemma plain_todo_chaos:
  assumes "lookup kind_key (cl_chaos cl) (ct_kind t, ct_key t) = Some x" and "chaos_ours rc x"
    and "cl1 = marked_chaos cl x \<or> (cl1 = cl \<and> ch_deletion_timestamp x \<noteq> None)"
  shows "plain_todo rc (ActionTypeChaosMesh, marshal_chaos t) (collect cl1)
    < plain_todo rc (ActionTypeChaosMesh, marshal_chaos t) cl"
proof -
  let ?m = "\<lambda>x. ch_deletion_timestamp x \<noteq> None"
  let ?x = "x\<lparr>ch_deletion_timestamp := Some (cl_now cl)\<rparr>"
  let ?k = "(ct_kind t, ct_key t)"
  have "kind_key ?x = ?k" using lookup_key [OF assms(1)] by (simp add: kind_key_def chaos_key_def)
  then have "present_ours (chaos_ours rc) (find_obj kind_key (drop_marked kind_key ?m (cl_chaos cl1)) ?k) = 0"
    using assms(3) present_after_put(1) [of ?m ?x "chaos_ours rc" kind_key "cl_chaos cl"]
      present_marked [OF assms(1), of ?m "chaos_ours rc"]
    by (auto simp: marked_chaos_def)
  with assms(1,2) show ?thesis
    by (simp add: plain_todo_def collect_def present_ours_def find_obj_def)
qed

lemma mem_revert_settles:
  assumes "a \<in> plain_tokens f g"
  obtains impl where "Get (fst a) = Some impl"
    "\<And>w out w1. ai_revert impl mem_client rc (snd a) w = (out, w1) \<Longrightarrow>
       out \<noteq> Panicked \<and> cl_mjs w1 = cl_mjs w
       \<and> (\<forall>b \<in> plain_tokens f g. plain_todo rc b (collect w1) \<le> plain_todo rc b w)
       \<and> ((\<exists>d. out = Returned True d) \<or> plain_todo rc a (collect w1) < plain_todo rc a w)"
  using assms
proof (cases rule: plain_tokensE)
  case (workload t)
  show thesis
  proof (rule that [of Workload])
    fix w out w1
    assume "ai_revert Workload mem_client rc (snd a) w = (out, w1)"
    with workload have "Workload_Revert mem_client rc (marshal_workload t) w = (out, w1)" by simp
    from mem_revert_workload [OF this] workload plain_todo_workload [of w t _ rc w1]
    show "out \<noteq> Panicked \<and> cl_mjs w1 = cl_mjs w
       \<and> (\<forall>b \<in> plain_tokens f g. plain_todo rc b (collect w1) \<le> plain_todo rc b w)
       \<and> ((\<exists>d. out = Returned True d) \<or> plain_todo rc a (collect w1) < plain_todo rc a w)"
      by (auto simp: plain_todo_le) (auto simp: marked_job_def)
  qed (simp add: workload)
next
  case (chaos t)
  show thesis
  proof (rule that [of ChaosMesh])
    fix w out w1
    assume "ai_revert ChaosMesh mem_client rc (snd a) w = (out, w1)"
    with chaos have "ChaosMesh_Revert mem_client rc (marshal_chaos t) w = (out, w1)" by simp
    from mem_revert_chaos [OF this] chaos plain_todo_chaos [of w t _ rc w1]
    show "out \<noteq> Panicked \<and> cl_mjs w1 = cl_mjs w
       \<and> (\<forall>b \<in> plain_tokens f g. plain_todo rc b (collect w1) \<le> plain_todo rc b w)
       \<and> ((\<exists>d. out = Returned True d) \<or> plain_todo rc a (collect w1) < plain_todo rc a w)"
      by (auto simp: plain_todo_le) (auto simp: marked_chaos_def)
  qed (simp add: chaos)
next
  case (scale t)
  show thesis
  proof (rule that [of Scale])
    fix w out w1
    assume "ai_revert Scale mem_client rc (snd a) w = (out, w1)"
    with scale have "Scale_Revert mem_client rc (marshal_scale t) w = (out, w1)" by simp
    from revert_scale_mends [OF this scale(2), of f g] scale(3)
    have "out = Returned True 0" "deps_mended f g rc w w1" by simp_all
    with plain_todo_mended [OF this(2)] deps_mended_frame [OF this(2)]
    show "out \<noteq> Panicked \<and> cl_mjs w1 = cl_mjs w
       \<and> (\<forall>b \<in> plain_tokens f g. plain_todo rc b (collect w1) \<le> plain_todo rc b w)
       \<and> ((\<exists>d. out = Returned True d) \<or> plain_todo rc a (collect w1) < plain_todo rc a w)"
      by simp
  qed (simp add: scale)
next
  case (deploy t)
  show thesis
  proof (rule that [of DeployImage])
    fix w out w1
    assume "ai_revert DeployImage mem_client rc (snd a) w = (out, w1)"
    with deploy have "DeployImage_Revert mem_client rc (marshal_deploy_image t) w = (out, w1)" by simp
    note mends = revert_deploy_mends [where f = f and g = g, OF this deploy(2,3)]
    with plain_todo_mended [of f g rc w w1] deps_mended_frame [of f g rc w w1] deploy(1)
    show "out \<noteq> Panicked \<and> cl_mjs w1 = cl_mjs w
       \<and> (\<forall>b \<in> plain_tokens f g. plain_todo rc b (collect w1) \<le> plain_todo rc b w)
       \<and> ((\<exists>d. out = Returned True d) \<or> plain_todo rc a (collect w1) < plain_todo rc a w)"
      by (auto simp: plain_todo_def)
  qed (simp add: deploy)
qed

lemma plain_todo_frame:
  "cl_jobs cl' = cl_jobs cl \<Longrightarrow> cl_chaos cl' = cl_chaos cl \<Longrightarrow> cl_deps cl' = cl_deps cl \<Longrightarrow>
   plain_todo rc a cl' = plain_todo rc a cl \<and> plain_todo rc a (collect cl') = plain_todo rc a (collect cl)"
  by (simp add: plain_todo_def collect_def deploy_todo_def split: action_type.splits sum.splits)

lemma mem_update_frame:
  "cl_jobs (snd (mem_updateMJStatus cl fs)) = cl_jobs cl"
  "cl_chaos (snd (mem_updateMJStatus cl fs)) = cl_chaos cl"
  "cl_deps (snd (mem_updateMJStatus cl fs)) = cl_deps cl"
  by (simp_all add: mem_updateMJStatus_def store_mj_def Let_def split: option.splits)

lemma mem_settling:
  "settling (sample_reconciler mem_client) k collect rc (plain_tokens f g) (plain_todo rc)"
proof -
  have mj: "cl_mjs (collect cl) = cl_mjs cl" for cl by (simp add: collect_def)
  have "plain_todo rc a (snd (mem_updateMJStatus w fs)) = plain_todo rc a w
      \<and> plain_todo rc a (collect (snd (mem_updateMJStatus w fs))) = plain_todo rc a (collect w)" for a w fs
    by (rule plain_todo_frame) (simp_all add: mem_update_frame)
  moreover have "plain_todo rc a (w\<lparr>cl_events := es\<rparr>) = plain_todo rc a w
      \<and> plain_todo rc a (collect (w\<lparr>cl_events := es\<rparr>)) = plain_todo rc a (collect w)" for a w es
    by (rule plain_todo_frame) simp_all
  moreover have "\<exists>impl. Get (fst a) = Some impl \<and> (\<forall>w. let (out, w1) = ai_revert impl mem_client rc (snd a) w in
       out \<noteq> Panicked \<and> find_obj mj_key (cl_mjs w1) k = find_obj mj_key (cl_mjs w) k
       \<and> (\<forall>b \<in> plain_tokens f g. plain_todo rc b (collect w1) \<le> plain_todo rc b w)
       \<and> ((\<exists>d. out = Returned True d) \<or> plain_todo rc a (collect w1) < plain_todo rc a w))"
    if "a \<in> plain_tokens f g" for a
    by (rule mem_revert_settles [OF that]) (fastforce split: prod.splits)
  ultimately show ?thesis
    unfolding settling_def by (simp add: mj mem_client_def)
qed

end
