(* ===== verification/Undone.thy ===== *)
theory Undone
  imports Settling
begin

text \<open>
  What the tokens of Workload, ChaosMesh, Scale and DeployImage remember is undone by their Reverts, in the
  cluster in memory: the Job or the chaos object of the scenario is gone, the Deployment has its replica
  count back, or its container another image than the bad one and no marker, and no holder. The cluster
  meets the contract \<open>undoing\<close>.
\<close>

section \<open>What is undone\<close>

definition workload_undone :: "run_context \<Rightarrow> workload_token \<Rightarrow> cluster \<Rightarrow> bool" where
  "workload_undone rc t cl \<longleftrightarrow>
     (case lookup job_key (cl_jobs cl) (wt_key t) of None \<Rightarrow> True | Some j \<Rightarrow> \<not> job_ours rc j)"

definition chaos_undone :: "run_context \<Rightarrow> chaos_mesh_token \<Rightarrow> cluster \<Rightarrow> bool" where
  "chaos_undone rc t cl \<longleftrightarrow>
     (case lookup kind_key (cl_chaos cl) (ct_kind t, ct_key t) of None \<Rightarrow> True | Some x \<Rightarrow> \<not> chaos_ours rc x)"

definition plain_undone :: "run_context \<Rightarrow> action_type \<times> raw_json \<Rightarrow> cluster \<Rightarrow> bool" where
  "plain_undone rc a cl \<longleftrightarrow>
     (case fst a of
        ActionTypeWorkload \<Rightarrow> (case unmarshal_workload (snd a) of Inr t \<Rightarrow> workload_undone rc t cl | Inl e \<Rightarrow> True)
      | ActionTypeChaosMesh \<Rightarrow> (case unmarshal_chaos (snd a) of Inr t \<Rightarrow> chaos_undone rc t cl | Inl e \<Rightarrow> True)
      | ActionTypeScale \<Rightarrow> (case unmarshal_scale (snd a) of Inr t \<Rightarrow> scale_undone rc t cl | Inl e \<Rightarrow> True)
      | ActionTypeDeployImage \<Rightarrow>
          (case unmarshal_deploy_image (snd a) of Inr t \<Rightarrow> deploy_undone rc t cl | Inl e \<Rightarrow> True)
      | _ \<Rightarrow> True)"

lemma plain_undone_simps [simp]:
  "plain_undone rc (ActionTypeWorkload, marshal_workload t) cl = workload_undone rc t cl"
  "plain_undone rc (ActionTypeChaosMesh, marshal_chaos t') cl = chaos_undone rc t' cl"
  "int32_ok (st_previous_replicas t'') \<Longrightarrow>
     plain_undone rc (ActionTypeScale, marshal_scale t'') cl = scale_undone rc t'' cl"
  "plain_undone rc (ActionTypeDeployImage, marshal_deploy_image u) cl = deploy_undone rc u cl"
  by (simp_all add: plain_undone_def)

section \<open>What keeps it\<close>

lemma plain_undone_frame:
  "cl_jobs cl' = cl_jobs cl \<Longrightarrow> cl_chaos cl' = cl_chaos cl \<Longrightarrow> cl_deps cl' = cl_deps cl \<Longrightarrow>
   plain_undone rc a cl' = plain_undone rc a cl"
  by (simp add: plain_undone_def workload_undone_def chaos_undone_def scale_undone_def deploy_undone_def
      split: action_type.split sum.split)

lemma plain_undone_collect: "plain_undone rc a cl \<Longrightarrow> plain_undone rc a (collect cl)"
  by (auto simp: plain_undone_def workload_undone_def chaos_undone_def scale_undone_def deploy_undone_def collect_def
      lookup_drop_marked split: action_type.splits sum.splits)

lemma undone_marked_job:
  assumes "lookup job_key (cl_jobs cl) k = Some j" and "job_ours rc j" and "plain_undone rc a cl"
  shows "plain_undone rc a (marked_job cl j)"
proof -
  have "job_key j = k" by (rule lookup_key [OF assms(1)])
  with assms show ?thesis
    by (auto simp: plain_undone_def workload_undone_def chaos_undone_def scale_undone_def deploy_undone_def marked_job_def
        lookup_put job_key_def split: action_type.splits sum.splits)
qed

lemma undone_marked_chaos:
  assumes "lookup kind_key (cl_chaos cl) k = Some x" and "chaos_ours rc x" and "plain_undone rc a cl"
  shows "plain_undone rc a (marked_chaos cl x)"
proof -
  have "kind_key x = k" by (rule lookup_key [OF assms(1)])
  with assms show ?thesis
    by (auto simp: plain_undone_def workload_undone_def chaos_undone_def scale_undone_def deploy_undone_def marked_chaos_def
        lookup_put kind_key_def chaos_key_def split: action_type.splits sum.splits)
qed

lemma undone_mended:
  assumes "deps_mended f g rc cl cl1" and "b \<in> plain_tokens f g" and "plain_undone rc b cl"
  shows "plain_undone rc b cl1"
  using assms(2)
proof (cases rule: plain_tokensE)
  case (scale t)
  with assms(3) mended_scale_undone [OF assms(1)] show ?thesis by simp
next
  case (deploy t)
  with assms(3) mended_deploy_undone [OF assms(1), of t] show ?thesis by simp
qed (use assms(3) deps_mended_frame [OF assms(1)] in \<open>simp_all add: workload_undone_def chaos_undone_def\<close>)

text \<open>One Revert: its own token is undone when it says so, and no other comes back.\<close>

lemma plain_revert:
  assumes "a \<in> plain_tokens f g" and "Get (fst a) = Some impl"
    and "ai_revert impl mem_client rc (snd a) cl = (out, cl1)"
  shows "((\<exists>d. out = Returned True d) \<longrightarrow> plain_undone rc a cl1)
    \<and> (\<forall>b \<in> plain_tokens f g. plain_undone rc b cl \<longrightarrow> plain_undone rc b cl1)"
  using assms(1)
proof (cases rule: plain_tokensE)
  case (workload t)
  with assms have "Workload_Revert mem_client rc (marshal_workload t) cl = (out, cl1)" by auto
  from mem_revert_workload [OF this] workload show ?thesis
    by (auto simp: workload_undone_def present_ours_def find_obj_def intro: undone_marked_job
        split: option.splits if_splits)
next
  case (chaos t)
  with assms have "ChaosMesh_Revert mem_client rc (marshal_chaos t) cl = (out, cl1)" by auto
  from mem_revert_chaos [OF this] chaos show ?thesis
    by (auto simp: chaos_undone_def present_ours_def find_obj_def intro: undone_marked_chaos
        split: option.splits if_splits)
next
  case (scale t)
  with assms have "Scale_Revert mem_client rc (marshal_scale t) cl = (out, cl1)" by auto
  from revert_scale_mends [OF this scale(2), of f g] scale undone_mended [of f g rc cl cl1] show ?thesis by simp
next
  case (deploy t)
  with assms have "DeployImage_Revert mem_client rc (marshal_deploy_image t) cl = (out, cl1)" by auto
  from revert_deploy_mends [where f = f and g = g, OF this deploy(2,3)] deploy(1) undone_mended [of f g rc cl cl1]
  show ?thesis by auto
qed

lemma mem_updates_frame:
  "cl_jobs (snd (mem_updateMJ cl fs)) = cl_jobs cl"
  "cl_chaos (snd (mem_updateMJ cl fs)) = cl_chaos cl" "cl_deps (snd (mem_updateMJ cl fs)) = cl_deps cl"
  by (simp_all add: mem_updateMJ_def store_mj_def Let_def split: option.splits)

lemma plain_undoing:
  assumes "\<And>b cl. plain_undone rc b (env cl) = plain_undone rc b (collect cl)"
  shows "undoing (sample_reconciler mem_client) env rc (plain_tokens f g) (plain_undone rc)"
proof (rule undoing.intro)
  show "conflict_retry (retryOnConflict (r_client (sample_reconciler mem_client)))"
    using quiet_storeD(1) [OF mem_quiet] by (simp add: retry_ok_iff)
next
  fix a impl w out w1
  assume "a \<in> plain_tokens f g" "r_registry (sample_reconciler mem_client) (fst a) = Some impl"
    "ai_revert impl (r_client (sample_reconciler mem_client)) rc (snd a) w = (out, w1)"
  then show "((\<exists>d. out = Returned True d) \<longrightarrow> plain_undone rc a w1)
      \<and> (\<forall>b \<in> plain_tokens f g. plain_undone rc b w \<longrightarrow> plain_undone rc b w1)"
    by (intro plain_revert [of a f g impl]) simp_all
next
  fix b w fs e
  let ?c = "r_client (sample_reconciler mem_client)"
  assume "plain_undone rc b w"
  moreover have "plain_undone rc b (snd (updateMJStatus ?c w fs)) = plain_undone rc b w"
    "plain_undone rc b (snd (updateMJ ?c w fs)) = plain_undone rc b w"
    "plain_undone rc b (recordEvent ?c w e) = plain_undone rc b w"
    by (rule plain_undone_frame, simp_all add: mem_client_def mem_update_frame mem_updates_frame)+
  ultimately show "plain_undone rc b (env w)" "plain_undone rc b (snd (updateMJStatus ?c w fs))"
    "plain_undone rc b (snd (updateMJ ?c w fs))" "plain_undone rc b (recordEvent ?c w e)"
    by (simp_all add: assms plain_undone_collect)
qed

interpretation plain: undoing "sample_reconciler mem_client" collect rc "plain_tokens f g" "plain_undone rc" for rc f g
  by (rule plain_undoing) simp

end
