(* ===== verification/Drained.thy ===== *)
theory Drained
  imports Undone
begin

text \<open>The properties of the way back, with the cluster in memory as their witness.\<close>

section \<open>The properties\<close>

lemma sample_leaving_facts:
  "getMJ mem_client sample_leaving_cluster (''shop'', ''outage'') = Inr sample_leaving"
  "live_object sample_leaving"
  "winding_down (sample_reconciler mem_client) sample_leaving"
  "st_active_actions (mj_status_of sample_leaving) = [sample_active ''down'' ''web'', sample_active ''api'' ''api'']"
  by (simp_all add: sample_defs find_obj_def lookup_def mem_client_def mj_key_def live_object_def winding_down_def)





end
