(* ===== verification/Safety.thy ===== *)
theory Safety
  imports Sample
begin

text \<open>
  Crash safety of the activation, the invariant stated in the comment of \<^verbatim>\<open>reconcileActivate\<close>:
  each action's revert token is persisted before the action mutates anything. It is proved of
  every client whatever it answers, on the log of its writes (\<open>logged\<close>): a write is covered
  when an active action of the last acknowledged status, recorded under the name of an action of
  the spec, carries the token that names the written object.
\<close>

section \<open>What an Ensure may write\<close>

text \<open>
  The writes of Ensure of an action, given the persisted token. Workload creates its Job under
  the name in the spec, the others write where the token says.
\<close>

definition workload_writes :: "string \<Rightarrow> action \<Rightarrow> raw_json \<Rightarrow> api_call \<Rightarrow> bool" where
  "workload_writes ns act token call \<longleftrightarrow>
     (case (unmarshal_workload token, act_workload act) of
        (Inr t, Some wa) \<Rightarrow> call = CallCreateJob (ns, wa_name wa) | _ \<Rightarrow> False)"

definition scale_writes :: "string \<Rightarrow> action \<Rightarrow> raw_json \<Rightarrow> api_call \<Rightarrow> bool" where
  "scale_writes ns act token call \<longleftrightarrow>
     (case unmarshal_scale token of Inr t \<Rightarrow> call = CallPatchDeployment (st_key t) | Inl e \<Rightarrow> False)"

definition deploy_writes :: "string \<Rightarrow> action \<Rightarrow> raw_json \<Rightarrow> api_call \<Rightarrow> bool" where
  "deploy_writes ns act token call \<longleftrightarrow>
     (case unmarshal_deploy_image token of
        Inr t \<Rightarrow> call = CallPatchDeployment (dt_key t) | Inl e \<Rightarrow> False)"

definition chaos_writes :: "string \<Rightarrow> action \<Rightarrow> raw_json \<Rightarrow> api_call \<Rightarrow> bool" where
  "chaos_writes ns act token call \<longleftrightarrow>
     (case unmarshal_chaos token of
        Inr t \<Rightarrow> call = CallCreateChaos (ct_kind t) (ct_key t) | Inl e \<Rightarrow> False)"

definition exec_writes :: "string \<Rightarrow> action \<Rightarrow> raw_json \<Rightarrow> api_call \<Rightarrow> bool" where
  "exec_writes ns act token call \<longleftrightarrow>
     (case unmarshal_dbexec token of
        Inr t \<Rightarrow> call \<in> {CallCreateJob (ns, xt_ensure_name t), CallDeleteJob (ns, xt_ensure_name t)}
      | Inl e \<Rightarrow> False)"

definition ensure_writes :: "string \<Rightarrow> action \<Rightarrow> raw_json \<Rightarrow> api_call \<Rightarrow> bool" where
  "ensure_writes ns act =
     (case act_type act of
        ActionTypeWorkload \<Rightarrow> workload_writes ns act
      | ActionTypeScale \<Rightarrow> scale_writes ns act
      | ActionTypeDeployImage \<Rightarrow> deploy_writes ns act
      | ActionTypeChaosMesh \<Rightarrow> chaos_writes ns act
      | ActionTypeDBExec \<Rightarrow> exec_writes ns act
      | ActionTypeOther s \<Rightarrow> (\<lambda>token call. False))"

text \<open>A read returns the object of the name it was asked for.\<close>

definition keyed :: "'w client \<Rightarrow> bool" where
  "keyed c \<longleftrightarrow>
     (\<forall>w k j. getJob c w k = Inr j \<longrightarrow> job_key j = k)
     \<and> (\<forall>w k d. getDeployment c w k = Inr d \<longrightarrow> dep_key d = k)
     \<and> (\<forall>w kd k x. getChaos c w kd k = Inr x \<longrightarrow> ch_kind x = kd \<and> chaos_key x = k)"

lemma keyed_reads:
  "keyed c \<Longrightarrow> getJob c w k = Inr j \<Longrightarrow> job_key j = k"
  "keyed c \<Longrightarrow> getDeployment c w k = Inr d \<Longrightarrow> dep_key d = k"
  "keyed c \<Longrightarrow> getChaos c w kd k = Inr x \<Longrightarrow> ch_kind x = kd \<and> chaos_key x = k"
  unfolding keyed_def by blast+

text \<open>The calls a step appended to the log.\<close>

definition appends :: "(api_call \<Rightarrow> bool) \<Rightarrow> 'w \<times> api_call list \<Rightarrow> 'w \<times> api_call list \<Rightarrow> bool" where
  "appends ok wl wl' \<longleftrightarrow> (\<exists>calls. snd wl' = snd wl @ calls \<and> list_all ok calls)"

lemma appends_refl [intro, simp]: "appends ok wl wl"
  unfolding appends_def by (intro exI [of _ "[]"]) simp

lemma appends_call [intro]: "snd wl' = snd wl @ [call] \<Longrightarrow> ok call \<Longrightarrow> appends ok wl wl'"
  unfolding appends_def by (intro exI [of _ "[call]"]) simp

lemma appends_mono: "appends ok wl wl' \<Longrightarrow> (\<And>call. ok call \<Longrightarrow> ok' call) \<Longrightarrow> appends ok' wl wl'"
  by (auto simp: appends_def list_all_iff)

locale ensure_contract =
  fixes impl :: "('w \<times> api_call list) action_impl"
    and c :: "'w client"
    and retry :: "('w \<times> api_call list) retrier"
    and writes :: "string \<Rightarrow> action \<Rightarrow> raw_json \<Rightarrow> api_call \<Rightarrow> bool"
  assumes writes_named:
    "keyed c \<Longrightarrow> ai_ensure impl (logged retry c) rc act token wl = (out, wl') \<Longrightarrow>
     appends (writes (rc_namespace rc) act token) wl wl'"
begin

text \<open>An Ensure whose token names nothing writes nothing.\<close>

lemma silent:
  assumes "keyed c" and "ai_ensure impl (logged retry c) rc act token wl = (out, wl')"
    and "\<And>call. \<not> writes (rc_namespace rc) act token call"
  shows "snd wl' = snd wl"
proof -
  obtain calls where "snd wl' = snd wl @ calls" "list_all (writes (rc_namespace rc) act token) calls"
    using writes_named [OF assms(1,2)] by (auto simp: appends_def)
  with assms(3) show ?thesis by (cases calls) auto
qed

end

lemma buildJob_key [simp]: "job_key (buildJob rc wa) = (rc_namespace rc, wa_name wa)"
  by (simp add: buildJob_def job_key_def Let_def)

lemma exec_buildJob_key [simp]: "job_key (exec_buildJob rc n en env qs) = (rc_namespace rc, n)"
  by (simp add: exec_buildJob_def job_key_def Let_def)

lemma buildChaos_key:
  "buildChaos rc ca t = Inr (Some x) \<Longrightarrow> ch_kind x = ct_kind t \<and> chaos_key x = ct_key t"
  by (auto simp: buildChaos_def chaos_key_def ct_key_def split: sum.splits option.splits)

lemma runJob_appends:
  assumes "keyed c" and "runJob (logged retry c) rc n en env qs wl = (out, wl')"
  shows "appends (\<lambda>call. call \<in> {CallCreateJob (rc_namespace rc, n), CallDeleteJob (rc_namespace rc, n)}) wl wl'"
  using assms
  by (cases wl)
     (auto simp: runJob_def Let_def add_call_def keyed_reads appends_def
       split: sum.splits if_splits option.splits prod.splits)

interpretation workload_ensure: ensure_contract Workload c retry workload_writes
proof
  fix rc act token wl out wl'
  assume "ai_ensure Workload (logged retry c) rc act token wl = (out, wl')"
  then show "appends (workload_writes (rc_namespace rc) act token) wl wl'"
    by (cases wl)
       (auto simp: Workload_Ensure_def workload_writes_def add_call_def appends_def
         split: sum.splits if_splits option.splits prod.splits)
qed

interpretation scale_ensure: ensure_contract Scale c retry scale_writes
proof
  fix rc act token wl out wl'
  assume "keyed c" and "ai_ensure Scale (logged retry c) rc act token wl = (out, wl')"
  then show "appends (scale_writes (rc_namespace rc) act token) wl wl'"
    by (cases wl)
       (auto simp: Scale_Ensure_def scale_writes_def add_call_def appends_def keyed_reads Let_def
         split: sum.splits if_splits option.splits prod.splits)
qed

interpretation deploy_ensure: ensure_contract DeployImage c retry deploy_writes
proof
  fix rc act token wl out wl'
  assume "keyed c" and "ai_ensure DeployImage (logged retry c) rc act token wl = (out, wl')"
  then show "appends (deploy_writes (rc_namespace rc) act token) wl wl'"
    by (cases wl)
       (auto simp: DeployImage_Ensure_def deploy_writes_def add_call_def appends_def keyed_reads Let_def
         split: sum.splits if_splits option.splits prod.splits)
qed

interpretation chaos_ensure: ensure_contract ChaosMesh c retry chaos_writes
proof
  fix rc act token wl out wl'
  assume "ai_ensure ChaosMesh (logged retry c) rc act token wl = (out, wl')"
  then show "appends (chaos_writes (rc_namespace rc) act token) wl wl'"
    by (cases wl)
       (auto simp: ChaosMesh_Ensure_def chaos_writes_def add_call_def appends_def buildChaos_key
         split: sum.splits if_splits option.splits prod.splits)
qed

interpretation exec_ensure: ensure_contract DBExec c retry exec_writes
proof
  fix rc act token wl out wl'
  assume "keyed c" and "ai_ensure DBExec (logged retry c) rc act token wl = (out, wl')"
  then show "appends (exec_writes (rc_namespace rc) act token) wl wl'"
    by (auto simp: DBExec_Ensure_def exec_writes_def intro: appends_mono [OF runJob_appends]
         split: sum.splits option.splits)
qed

section \<open>Covered logs\<close>

text \<open>
  What is known of the stored object as the log is read from its start: the actions of the specs
  seen so far, and the active actions of the last acknowledged status. A call that is no status
  update must be a write of an action for the token recorded under its name.
\<close>

type_synonym known = "action list \<times> active_action list"

fun learn :: "known \<Rightarrow> api_call \<Rightarrow> known" where
  "learn (acts, aas) (CallPersisted fs) =
     (acts @ sp_actions (mj_spec_of fs), st_active_actions (mj_status_of fs))"
| "learn k call = k"

fun allowed :: "string \<Rightarrow> known \<Rightarrow> api_call \<Rightarrow> bool" where
  "allowed ns (acts, aas) (CallPersisted fs) = True"
| "allowed ns (acts, aas) call =
     (\<exists>aa \<in> set aas. \<exists>act \<in> set acts. act_name act = aa_name aa \<and> ensure_writes ns act (aa_revert aa) call)"

fun covered :: "string \<Rightarrow> known \<Rightarrow> api_call list \<Rightarrow> bool" where
  "covered ns k [] = True"
| "covered ns k (call # log) = (allowed ns k call \<and> covered ns (learn k call) log)"

lemma covered_append:
  "covered ns k (log @ log') \<longleftrightarrow> covered ns k log \<and> covered ns (foldl learn k log) log'"
  by (induction log arbitrary: k) auto

text \<open>The state of the loop: the log is covered, and \<open>fs\<close> is what it ends with.\<close>

definition safe_upto :: "string \<Rightarrow> known \<Rightarrow> maintenance_job \<Rightarrow> action list \<Rightarrow> 'w \<times> api_call list \<Rightarrow> bool" where
  "safe_upto ns k fs acts wl \<longleftrightarrow>
     covered ns k (snd wl)
     \<and> snd (foldl learn k (snd wl)) = st_active_actions (mj_status_of fs)
     \<and> set (sp_actions (mj_spec_of fs)) \<union> set acts \<subseteq> set (fst (foldl learn k (snd wl)))"

lemma safe_upto_covered: "safe_upto ns k fs acts wl \<Longrightarrow> covered ns k (snd wl)"
  by (simp add: safe_upto_def)

lemma safe_upto_world: "safe_upto ns k fs acts (w, log) \<Longrightarrow> safe_upto ns k fs acts (w', log)"
  by (simp add: safe_upto_def)

lemma safe_upto_persisted:
  "safe_upto ns k fs acts (w, log) \<Longrightarrow> safe_upto ns k fs' acts (w', log @ [CallPersisted fs'])"
  by (cases "foldl learn k log") (auto simp: safe_upto_def covered_append)

text \<open>Calls that are writes of an action for its recorded token extend a covered log.\<close>

lemma write_not_persisted: "\<not> ensure_writes ns act token (CallPersisted fs)"
  by (auto simp: ensure_writes_def workload_writes_def scale_writes_def deploy_writes_def
      chaos_writes_def exec_writes_def split: action_type.splits sum.splits option.splits)

lemma learn_write: "ensure_writes ns act token call \<Longrightarrow> learn k call = k"
  by (cases k; cases call) (auto simp: write_not_persisted)

lemma allowed_write:
  "aa \<in> set aas \<Longrightarrow> act \<in> set acts \<Longrightarrow> act_name act = aa_name aa \<Longrightarrow>
   ensure_writes ns act (aa_revert aa) call \<Longrightarrow> allowed ns (acts, aas) call"
  by (cases call) auto

lemma covered_writes:
  assumes "list_all (ensure_writes ns act (aa_revert aa)) calls"
    and "aa \<in> set aas" "act \<in> set acts" "act_name act = aa_name aa"
  shows "covered ns (acts, aas) calls \<and> foldl learn (acts, aas) calls = (acts, aas)"
  using assms(1)
  by (induction calls) (auto simp: learn_write intro!: allowed_write [OF assms(2-4)])

lemma safe_upto_writes:
  assumes "safe_upto ns k fs acts wl" and "appends (ensure_writes ns act (aa_revert aa)) wl wl'"
    and "aa \<in> set (st_active_actions (mj_status_of fs))" "act \<in> set acts" "act_name act = aa_name aa"
  shows "safe_upto ns k fs acts wl'"
proof -
  obtain calls where calls: "snd wl' = snd wl @ calls" "list_all (ensure_writes ns act (aa_revert aa)) calls"
    using assms(2) by (auto simp: appends_def)
  obtain acts' aas where k: "foldl learn k (snd wl) = (acts', aas)" by fastforce
  with assms(1,3,4) have "aa \<in> set aas" "act \<in> set acts'" by (auto simp: safe_upto_def)
  from covered_writes [OF calls(2) this assms(5)] calls(1) k assms(1) show ?thesis
    by (simp add: safe_upto_def covered_append)
qed

lemma safe_upto_act:
  "safe_upto ns k fs [] wl \<Longrightarrow> i < length (sp_actions (mj_spec_of fs)) \<Longrightarrow>
   safe_upto ns k fs [sp_actions (mj_spec_of fs) ! i] wl"
  by (auto simp: safe_upto_def)

lemma safe_upto_drop: "safe_upto ns k fs acts wl \<Longrightarrow> safe_upto ns k fs [] wl"
  by (auto simp: safe_upto_def)

section \<open>The steps of the activation\<close>

lemma patchStatus_log:
  assumes "retry_ok retry" and "r_client r = logged retry c"
    and "patchStatus r fs m (w, log) = (res, (w', log'))"
  shows "log' = (case res of Inl e \<Rightarrow> log | Inr fs' \<Rightarrow> log @ [CallPersisted fs'])"
proof -
  have documented: "conflict_retry retry" using assms(1) by (simp add: retry_ok_iff)
  have once: "snd wl1 = (case r1 of Inl e \<Rightarrow> snd wl | Inr fs' \<Rightarrow> snd wl @ [CallPersisted fs'])"
    if "patch_once (logged retry c) fs m wl = (r1, wl1)" for wl r1 wl1
  proof (cases "getMJ c (fst wl) (mj_key fs)")
    case (Inl e)
    with that show ?thesis by (cases r1) (auto simp: patch_once_def)
  next
    case (Inr latest)
    then show ?thesis using that
      by (cases r1) (auto simp: patch_once_def add_persisted_def split: sum.splits)
  qed
  from assms(2,3) have "retry (patch_once (logged retry c) fs m) (w, log) = (res, (w', log'))"
    by (simp add: patchStatus_def)
  from conflict_retry.last_run_from [OF documented this, where I = "\<lambda>wl. snd wl = log"]
  obtain wl0 where "snd wl0 = log" "patch_once (logged retry c) fs m wl0 = (res, (w', log'))"
    using once by fastforce
  with once show ?thesis by fastforce
qed

lemma ensure_appends:
  assumes "keyed c" and "Get (act_type act) = Some impl"
    and "ai_ensure impl (logged retry c) rc act token wl = (out, wl')"
  shows "appends (ensure_writes (rc_namespace rc) act token) wl wl'"
proof (cases "act_type act")
  case ActionTypeWorkload
  with assms(2) have "impl = Workload" by (simp del: impl_simps)
  from workload_ensure.writes_named [OF assms(1) assms(3) [unfolded this]] ActionTypeWorkload show ?thesis
    by (simp add: ensure_writes_def)
next
  case ActionTypeScale
  with assms(2) have "impl = Scale" by (simp del: impl_simps)
  from scale_ensure.writes_named [OF assms(1) assms(3) [unfolded this]] ActionTypeScale show ?thesis
    by (simp add: ensure_writes_def)
next
  case ActionTypeDeployImage
  with assms(2) have "impl = DeployImage" by (simp del: impl_simps)
  from deploy_ensure.writes_named [OF assms(1) assms(3) [unfolded this]] ActionTypeDeployImage show ?thesis
    by (simp add: ensure_writes_def)
next
  case ActionTypeChaosMesh
  with assms(2) have "impl = ChaosMesh" by (simp del: impl_simps)
  from chaos_ensure.writes_named [OF assms(1) assms(3) [unfolded this]] ActionTypeChaosMesh show ?thesis
    by (simp add: ensure_writes_def)
next
  case ActionTypeDBExec
  with assms(2) have "impl = DBExec" by (simp del: impl_simps)
  from exec_ensure.writes_named [OF assms(1) assms(3) [unfolded this]] ActionTypeDBExec show ?thesis
    by (simp add: ensure_writes_def)
next
  case (ActionTypeOther s)
  with assms(2) show ?thesis by simp
qed

fun safe_turn :: "string \<Rightarrow> known \<Rightarrow> action list \<Rightarrow> ('w \<times> api_call list) turn \<Rightarrow> bool" where
  "safe_turn ns k acts (Next fs rq allApplied wl) = safe_upto ns k fs acts wl"
| "safe_turn ns k acts (Stop out wl) = covered ns k (snd wl)"

lemma eventf_log: "r_client r = logged retry c \<Longrightarrow> snd (eventf r fs ty reason msg wl) = snd wl"
  by (simp add: eventf_def)

lemma patchStatus_safe:
  assumes "retry_ok retry" and "r_client r = logged retry c" and "safe_upto ns k fs acts wl"
    and "patchStatus r fs m wl' = (res, wl'')" and "snd wl' = snd wl"
  shows "(case res of Inl e \<Rightarrow> covered ns k (snd wl'') | Inr fs' \<Rightarrow> safe_upto ns k fs' acts wl'')"
proof -
  obtain w log w2 log2 where wl: "wl' = (w, log)" "wl'' = (w2, log2)" by fastforce
  from patchStatus_log [OF assms(1,2)] assms(4) wl
  have "log2 = (case res of Inl e \<Rightarrow> log | Inr fs' \<Rightarrow> log @ [CallPersisted fs'])" by blast
  moreover have "safe_upto ns k fs acts (w, log)" using assms(3,5) wl by (simp add: safe_upto_def)
  ultimately show ?thesis
    using wl by (auto split: sum.splits dest: safe_upto_covered intro: safe_upto_persisted)
qed

lemma ensure_turn_safe:
  assumes laws: "retry_ok retry" "keyed c" and r: "r_client r = logged retry c"
    and impl: "Get (act_type act) = Some impl" and safe: "safe_upto (rc_namespace rc) k fs [act] wl"
  shows "safe_turn (rc_namespace rc) k [act] (ensure_turn r impl rc now act fs rq allApplied wl)"
proof (cases "findActiveAction (st_active_actions (mj_status_of fs)) (act_name act)")
  case None
  with safe show ?thesis by (simp add: ensure_turn_def safe_upto_covered)
next
  case (Some idx)
  let ?aa = "st_active_actions (mj_status_of fs) ! idx"
  from findActiveAction_Some [OF Some]
  have aa: "?aa \<in> set (st_active_actions (mj_status_of fs))" "act_name act = aa_name ?aa" by auto
  obtain out wl1 where e: "ai_ensure impl (logged retry c) rc act (aa_revert ?aa) wl = (out, wl1)"
    by (meson surj_pair)
  from ensure_appends [OF laws(2) impl e] have
    safe1: "safe_upto (rc_namespace rc) k fs [act] wl1"
    by (rule safe_upto_writes [OF safe _ aa(1) _ aa(2)]) simp
  note p = patchStatus_safe [OF laws(1) r safe1 _ refl]
  show ?thesis
    using Some e r safe1
    by (cases out) (auto simp: ensure_turn_def Let_def safe_upto_covered
        split: prod.splits sum.splits bool.splits dest!: p)
qed

lemma safe_turn_drop: "safe_turn ns k acts t \<Longrightarrow> safe_turn ns k [] t"
  by (cases t) (auto intro: safe_upto_drop)

lemma activate_turn_safe:
  assumes laws: "retry_ok retry" "keyed c" and r: "r_client r = logged retry c" "r_registry r = Get"
    and safe: "safe_upto (rc_namespace rc) k fs [] wl"
  shows "safe_turn (rc_namespace rc) k [] (activate_turn r rc run now i fs rq allApplied wl)"
proof (cases "r_registry r (act_type (sp_actions (mj_spec_of fs) ! i))")
  case None
  with safe show ?thesis by (simp add: activate_turn_def Let_def safe_upto_covered)
next
  case (Some impl)
  let ?act = "sp_actions (mj_spec_of fs) ! i"
  show ?thesis
  proof (cases "i < length (sp_actions (mj_spec_of fs))")
    case False
    with safe show ?thesis by (simp add: activate_turn_def safe_upto_covered)
  next
    case True
    then have safe1: "safe_upto (rc_namespace rc) k fs [?act] wl" by (rule safe_upto_act [OF safe])
    from Some r have impl: "Get (act_type ?act) = Some impl" by simp
    note e = safe_turn_drop [OF ensure_turn_safe [OF laws r(1) impl]]
    note p = patchStatus_safe [OF laws(1) r(1) safe1]
    show ?thesis
    proof (cases "ai_plan impl (logged retry c) rc ?act wl")
      case (Inl e)
      with True Some r safe e [OF safe1] show ?thesis
        by (auto simp: activate_turn_def Let_def eventf_log split: prod.splits sum.splits
            dest!: p intro: safe_upto_drop)
    next
      case (Inr token)
      with True Some r safe e [OF safe1] show ?thesis
        by (auto simp: activate_turn_def Let_def split: prod.splits sum.splits
            dest!: p intro: safe_upto_drop intro!: e)
    qed
  qed
qed

lemma activate_loop_safe:
  assumes laws: "retry_ok retry" "keyed c" and r: "r_client r = logged retry c" "r_registry r = Get"
    and "safe_upto (rc_namespace rc) k fs [] wl"
  shows "safe_turn (rc_namespace rc) k [] (activate_loop r rc run now is fs rq allApplied wl)"
  using assms(5)
proof (induction "is" arbitrary: fs rq allApplied wl)
  case (Cons i "is")
  from activate_turn_safe [OF laws r Cons.prems]
  have "safe_turn (rc_namespace rc) k [] (activate_turn r rc run now i fs rq allApplied wl)" .
  with Cons.IH show ?case
    by (cases "activate_turn r rc run now i fs rq allApplied wl") simp_all
qed simp

lemma activate_finish_safe:
  assumes "retry_ok retry" "r_client r = logged retry c" and "safe_upto ns k fs [] wl"
  shows "covered ns k (snd (snd (activate_finish r run fs rq allApplied wl)))"
  using assms(2,3) patchStatus_safe [OF assms(1,2,3) _ refl]
  by (fastforce simp: activate_finish_def Let_def eventf_log safe_upto_covered
      split: prod.splits sum.splits dest: safe_upto_covered)

lemma reconcileActivate_covered:
  assumes laws: "retry_ok retry" "keyed c" and r: "r_client r = logged retry c" "r_registry r = Get"
  shows "covered (mj_namespace fs) (sp_actions (mj_spec_of fs), st_active_actions (mj_status_of fs))
    (snd (snd (reconcileActivate r fs run (w, []))))"
proof -
  let ?k = "(sp_actions (mj_spec_of fs), st_active_actions (mj_status_of fs))"
  let ?rc = "runContext r fs (Some run)"
  let ?loop = "activate_loop r ?rc run (clock (r_client r) (w, [])) [0..<length (sp_actions (mj_spec_of fs))]
    fs 0 True (w, [])"
  have ns: "rc_namespace ?rc = mj_namespace fs" by (simp add: runContext_def)
  have "safe_upto (rc_namespace ?rc) ?k fs [] (w, [])" by (simp add: safe_upto_def)
  from activate_loop_safe [OF laws r this] have "safe_turn (mj_namespace fs) ?k [] ?loop"
    unfolding ns .
  then show ?thesis
    using activate_finish_safe [OF laws(1) r(1)]
    by (cases ?loop) (auto simp: reconcileActivate_def Let_def)
qed

section \<open>The property\<close>

lemma mem_keyed [simp]: "keyed (memory retry)"
  by (auto simp: keyed_def kind_key_def dest: find_obj_key)



end
