(* ===== verification/DeploymentProps.thy ===== *)
theory DeploymentProps
  imports Sample
begin

text \<open>
  What the actions Scale and DeployImage promise of the Deployment they act on: the round trip
  through Plan, Ensure and Revert, the hold, and the rollback marker. The API is assumed to store
  what a patch of the Deployment just read says (\<open>stores_deployments\<close>); generation and status of
  a Deployment are the server's.
\<close>

definition dep_view :: "deployment \<Rightarrow> nsname \<times> str_map \<times> str_map \<times> int option \<times> container list" where
  "dep_view d = (dep_key d, dep_labels d, dep_annotations d, dep_replicas d, dep_containers d)"

definition stores_deployments :: "'w client \<Rightarrow> bool" where
  "stores_deployments c \<longleftrightarrow>
     (\<forall>w k d. getDeployment c w k = Inr d \<longrightarrow> dep_key d = k
        \<and> (\<forall>d'. dep_key d' = k \<longrightarrow>
             (\<exists>w' d''. patchDeployment c w d d' = (None, w') \<and> getDeployment c w' k = Inr d''
                \<and> dep_view d'' = dep_view d' \<and> (\<forall>k'. getMJ c w' k' = getMJ c w k'))))"

lemma stores_deploymentsD:
  assumes "stores_deployments c" and "getDeployment c w k = Inr d" and "dep_key d' = k"
  obtains w' d'' where "patchDeployment c w d d' = (None, w')" "getDeployment c w' k = Inr d''"
    "dep_view d'' = dep_view d'" "\<And>k'. getMJ c w' k' = getMJ c w k'"
  using assms unfolding stores_deployments_def by blast

lemma dep_view_simps:
  assumes "dep_view d = dep_view d'"
  shows "dep_key d = dep_key d'" "dep_labels d = dep_labels d'" "dep_annotations d = dep_annotations d'"
    "dep_replicas d = dep_replicas d'" "dep_containers d = dep_containers d'" "holder d = holder d'"
    "replicas_or_default d = replicas_or_default d'" "containerIndex d = containerIndex d'"
    "image_at d = image_at d'"
  using assms by (simp_all add: dep_view_def holder_def replicas_or_default_def containerIndex_def [abs_def]
      image_at_def [abs_def])

lemma mem_stores [simp]: "stores_deployments mem_client"
proof -
  have "\<exists>w' d''. mem_patchDeployment w d d' = (None, w') \<and> find_obj dep_key (cl_deps w') k = Inr d''
      \<and> dep_view d'' = dep_view d' \<and> cl_mjs w' = cl_mjs w"
    if "find_obj dep_key (cl_deps w) k = Inr d" "dep_key d' = k" for w k d d'
    using that find_obj_key [OF that(1)]
    by (auto simp: mem_patchDeployment_def find_obj_def lookup_put split: option.splits)
  then show ?thesis
    by (fastforce simp: stores_deployments_def mem_client_def dest: find_obj_key)
qed

section \<open>Scale\<close>

lemma held_by_ne [simp]: "held_by rc \<noteq> []" "[] \<noteq> held_by rc"
  by (auto simp: held_by_def)

lemma held_by_not_other: "holder d = held_by rc \<Longrightarrow> \<not> held_by_other rc d"
  by (simp add: held_by_other_def)

lemma free_not_other: "holder d = [] \<Longrightarrow> \<not> held_by_other rc d"
  by (simp add: held_by_other_def)

lemma check_holder_own: "\<not> held_by_other rc d \<Longrightarrow> check_holder c rc t d w = None"
  by (simp add: check_holder_def)

text \<open>What Ensure and Revert make of a Deployment.\<close>

definition scaled :: "run_context \<Rightarrow> scale_action \<Rightarrow> deployment \<Rightarrow> deployment" where
  "scaled rc sa d = d\<lparr>dep_replicas := Some (sa_replicas sa),
     dep_annotations := (dep_annotations d)(HeldByAnnotation \<mapsto> held_by rc)\<rparr>"

definition unscaled :: "int \<Rightarrow> deployment \<Rightarrow> deployment" where
  "unscaled n d = d\<lparr>dep_replicas := Some n, dep_annotations := (dep_annotations d)(HeldByAnnotation := None)\<rparr>"

lemma scaled_simps [simp]:
  "dep_replicas (scaled rc sa d) = Some (sa_replicas sa)" "holder (scaled rc sa d) = held_by rc"
  "dep_key (scaled rc sa d) = dep_key d"
  "dep_replicas (unscaled n d) = Some n" "holder (unscaled n d) = []" "dep_key (unscaled n d) = dep_key d"
  by (simp_all add: scaled_def unscaled_def holder_def dep_key_def)

lemma Scale_Ensure_holds:
  assumes c: "stores_deployments c" and get: "getDeployment c w (st_key t) = Inr dep"
    and act: "act_scale act = Some sa" and t: "int32_ok (st_previous_replicas t)"
    and free: "check_holder c rc t dep w = None"
  obtains w' d where "Scale_Ensure c rc act (marshal_scale t) w = (Returned True 0, w')"
    "getDeployment c w' (st_key t) = Inr d" "dep_view d = dep_view (scaled rc sa dep)"
proof (cases "dep_replicas dep = Some (sa_replicas sa) \<and> holder dep = held_by rc")
  case True
  then have "dep_annotations dep HeldByAnnotation = Some (held_by rc)"
    using held_by_ne [of rc] by (cases "dep_annotations dep HeldByAnnotation")
       (simp_all add: holder_def go_get_def del: held_by_ne)
  then have "(dep_annotations dep)(HeldByAnnotation \<mapsto> held_by rc) = dep_annotations dep"
    by (simp add: fun_eq_iff)
  with True have "dep_view dep = dep_view (scaled rc sa dep)"
    by (simp add: dep_view_def scaled_def dep_key_def)
  with True show thesis using get act t free by (intro that [of w dep]) (simp_all add: Scale_Ensure_def)
next
  case False
  from c get have "dep_key dep = st_key t" unfolding stores_deployments_def by blast
  then obtain w' d where w': "patchDeployment c w dep (scaled rc sa dep) = (None, w')"
    "getDeployment c w' (st_key t) = Inr d" "dep_view d = dep_view (scaled rc sa dep)"
    using stores_deploymentsD [OF c get, of "scaled rc sa dep"] scaled_simps(3) by metis
  show thesis
    by (rule that [OF _ w'(2,3)])
       (use False get act t free w'(1) in \<open>auto simp: Scale_Ensure_def scaled_def Let_def\<close>)
qed

lemma Scale_Revert_releases:
  assumes c: "stores_deployments c" and get: "getDeployment c w (st_key t) = Inr dep"
    and t: "int32_ok (st_previous_replicas t)" and own: "\<not> held_by_other rc dep"
  obtains w' d where "Scale_Revert c rc (marshal_scale t) w = (Returned True 0, w')"
    "getDeployment c w' (st_key t) = Inr d" "dep_replicas d = Some (st_previous_replicas t)" "holder d = []"
    "dep_view d = dep_view (unscaled (st_previous_replicas t) dep) \<or> w' = w"
proof (cases "dep_replicas dep = Some (st_previous_replicas t) \<and> holder dep = []")
  case True
  with get t own show thesis by (intro that [of w dep]) (simp_all add: Scale_Revert_def)
next
  case False
  let ?d = "unscaled (st_previous_replicas t) dep"
  from c get have "dep_key dep = st_key t" unfolding stores_deployments_def by blast
  then obtain w' d where w': "patchDeployment c w dep ?d = (None, w')"
    "getDeployment c w' (st_key t) = Inr d" "dep_view d = dep_view ?d"
    using stores_deploymentsD [OF c get, of ?d] scaled_simps(6) by metis
  show thesis
    by (rule that [OF _ w'(2)])
       (use False get t own w'(1,3) dep_view_simps [OF w'(3)] in
          \<open>auto simp: Scale_Revert_def unscaled_def Let_def holder_def\<close>)
qed

lemma Scale_Ensure_again:
  "getDeployment c w (st_key t) = Inr d \<Longrightarrow> dep_replicas d = Some (sa_replicas sa) \<Longrightarrow> holder d = held_by rc \<Longrightarrow>
   act_scale act = Some sa \<Longrightarrow> int32_ok (st_previous_replicas t) \<Longrightarrow>
   Scale_Ensure c rc act (marshal_scale t) w = (Returned True 0, w)"
  by (simp add: Scale_Ensure_def check_holder_own held_by_not_other)

lemma Scale_Revert_again:
  "getDeployment c w (st_key t) = Inr d \<Longrightarrow> dep_replicas d = Some (st_previous_replicas t) \<Longrightarrow> holder d = [] \<Longrightarrow>
   int32_ok (st_previous_replicas t) \<Longrightarrow>
   Scale_Revert c rc (marshal_scale t) w = (Returned True 0, w)"
  by (simp add: Scale_Revert_def free_not_other)

text \<open>
  C13. Scale goes there and back. For a Deployment nobody holds, Plan, Ensure and Revert in turn
  succeed: Ensure sets the replica count of the spec and the hold, and repeated it changes
  nothing; Revert brings back the count that Plan saw, drops the hold, keeps the containers and
  every other annotation, and repeated it changes nothing.
\<close>

theorem scale_round_trip:
  assumes c: "stores_deployments c" and act: "act_scale act = Some sa"
    and get: "getDeployment c w (rc_namespace rc, tr_name (sa_target_ref sa)) = Inr dep"
    and free: "holder dep = []" and n: "int32_ok (replicas_or_default dep)"
  shows "\<exists>token w1 d1 w2 d2.
     Scale_Plan c rc act w = Inr token
     \<and> Scale_Ensure c rc act token w = (Returned True 0, w1)
     \<and> getDeployment c w1 (dep_key dep) = Inr d1
     \<and> dep_replicas d1 = Some (sa_replicas sa) \<and> holder d1 = held_by rc
     \<and> Scale_Ensure c rc act token w1 = (Returned True 0, w1)
     \<and> Scale_Revert c rc token w1 = (Returned True 0, w2)
     \<and> getDeployment c w2 (dep_key dep) = Inr d2
     \<and> dep_replicas d2 = Some (replicas_or_default dep) \<and> holder d2 = []
     \<and> dep_containers d2 = dep_containers dep
     \<and> (dep_annotations d2)(HeldByAnnotation := None) = (dep_annotations dep)(HeldByAnnotation := None)
     \<and> Scale_Revert c rc token w2 = (Returned True 0, w2)"
proof -
  define t where "t = \<lparr>st_kind = ''Deployment'', st_namespace = rc_namespace rc,
    st_name = tr_name (sa_target_ref sa), st_previous_replicas = replicas_or_default dep\<rparr>"
  have key: "dep_key dep = st_key t" using c get by (auto simp: stores_deployments_def t_def st_key_def)
  have get': "getDeployment c w (st_key t) = Inr dep" using get by (simp add: t_def st_key_def)
  have t: "int32_ok (st_previous_replicas t)" using n by (simp add: t_def)
  have plan: "Scale_Plan c rc act w = Inr (marshal_scale t)" using act get by (simp add: Scale_Plan_def t_def)
  obtain w1 d1 where e: "Scale_Ensure c rc act (marshal_scale t) w = (Returned True 0, w1)"
    "getDeployment c w1 (st_key t) = Inr d1" "dep_view d1 = dep_view (scaled rc sa dep)"
    by (rule Scale_Ensure_holds [OF c get' act t check_holder_own [OF free_not_other [OF free]]])
  note d1 = dep_view_simps [OF e(3)]
  have own: "holder d1 = held_by rc" using d1(6) by simp
  obtain w2 d2 where r: "Scale_Revert c rc (marshal_scale t) w1 = (Returned True 0, w2)"
    "getDeployment c w2 (st_key t) = Inr d2" "dep_replicas d2 = Some (st_previous_replicas t)" "holder d2 = []"
    "dep_view d2 = dep_view (unscaled (st_previous_replicas t) d1) \<or> w2 = w1"
    by (rule Scale_Revert_releases [OF c e(2) t held_by_not_other [OF own]])
  have "w2 \<noteq> w1" using r(2,4) e(2) own by auto
  with r(5) have v2: "dep_view d2 = dep_view (unscaled (st_previous_replicas t) d1)" by simp
  have d2: "dep_containers d2 = dep_containers dep"
    "(dep_annotations d2)(HeldByAnnotation := None) = (dep_annotations dep)(HeldByAnnotation := None)"
    using dep_view_simps(3,5) [OF v2] d1(3,5) by (simp_all add: unscaled_def scaled_def)
  show ?thesis
    unfolding key using plan e r d1(4) own d2 t
      Scale_Ensure_again [OF e(2) _ own act t] Scale_Revert_again [OF r(2,3,4) t]
    by (intro exI [of _ "marshal_scale t"] exI [of _ w1] exI [of _ d1] exI [of _ w2] exI [of _ d2])
       (simp add: t_def)
qed

definition sample_rc :: run_context where
  "sample_rc = \<lparr>rc_scenario_name = ''outage'', rc_scenario_uid = ''u1'', rc_namespace = ''shop'',
     rc_run_id = ''r1'', rc_run_duration = 0, rc_operator_image = ''op''\<rparr>"

lemma sample_web:
  "getDeployment mem_client sample_cluster (''shop'', ''web'') = Inr sample_dep"
  "dep_key sample_dep = (''shop'', ''web'')" "holder sample_dep = []"
  by (simp_all add: mem_client_def sample_defs find_obj_def lookup_def dep_key_def holder_def)

theorem scale_round_trip_witness:
  "\<exists>token w1 w2 d2. Scale_Plan mem_client sample_rc sample_scale sample_cluster = Inr token
     \<and> Scale_Ensure mem_client sample_rc sample_scale token sample_cluster = (Returned True 0, w1)
     \<and> Scale_Revert mem_client sample_rc token w1 = (Returned True 0, w2)
     \<and> getDeployment mem_client w2 (''shop'', ''web'') = Inr d2 \<and> dep_replicas d2 = Some 3"
proof -
  obtain sa where "act_scale sample_scale = Some sa" "tr_name (sa_target_ref sa) = ''web''"
    by (simp add: sample_scale_def)
  with scale_round_trip [of mem_client sample_scale sa sample_cluster sample_rc sample_dep] sample_web
  show ?thesis
    by (simp add: sample_rc_def replicas_or_default_def int32_ok_def sample_dep_def) blast
qed

section \<open>The hold\<close>

text \<open>
  C17. A Deployment held by another scenario is left alone. While that scenario is live, or cannot
  be looked up, Scale fails to ensure and changes nothing; DeployImage fails in any case; and the
  Reverts of both are done at once and change nothing.
\<close>

theorem foreign_hold_untouched:
  assumes "getDeployment c w (ns, n) = Inr dep" and "held_by_other rc dep"
    and "act_scale act = Some sa" and "int32_ok p" and "act_deploy_image act' = Some da"
    and "\<And>other. getMJ c w (ns, fst (cut (CHR ''/'') (holder dep))) = Inr other \<Longrightarrow> live_scenario other"
    and "\<And>e. getMJ c w (ns, fst (cut (CHR ''/'') (holder dep))) = Inl e \<Longrightarrow> \<not> isNotFound e"
  shows "(\<exists>e. Scale_Ensure c rc act (marshal_scale
            \<lparr>st_kind = kd, st_namespace = ns, st_name = n, st_previous_replicas = p\<rparr>) w = (Failed e, w))
    \<and> Scale_Revert c rc (marshal_scale
            \<lparr>st_kind = kd, st_namespace = ns, st_name = n, st_previous_replicas = p\<rparr>) w = (Returned True 0, w)
    \<and> (\<exists>e. DeployImage_Ensure c rc act' (marshal_deploy_image
            \<lparr>dt_kind = kd, dt_namespace = ns, dt_name = n, dt_container = ct, dt_good_image = g, dt_bad_image = b\<rparr>) w
          = (Failed e, w))
    \<and> DeployImage_Revert c rc (marshal_deploy_image
            \<lparr>dt_kind = kd, dt_namespace = ns, dt_name = n, dt_container = ct, dt_good_image = g, dt_bad_image = b\<rparr>) w
          = (Returned True 0, w)"
  using assms
  by (cases "getMJ c w (ns, fst (cut (CHR ''/'') (holder dep)))")
     (simp_all add: Scale_Ensure_def Scale_Revert_def DeployImage_Ensure_def DeployImage_Revert_def
       check_holder_def st_key_def dt_key_def)

definition sample_deploy :: action where
  "sample_deploy = sample_scale\<lparr>act_type := ActionTypeDeployImage, act_scale := None,
     act_deploy_image := Some \<lparr>da_target_ref = \<lparr>tr_kind = ''Deployment'', tr_name = ''web''\<rparr>,
       da_container = ''app'', da_image = ''v2'', da_known_good_image = [], da_rollout_timeout = None\<rparr>\<rparr>"

definition other_rc :: run_context where
  "other_rc = sample_rc\<lparr>rc_scenario_name := ''other''\<rparr>"

definition held_dep :: deployment where
  "held_dep = sample_dep\<lparr>dep_annotations := [HeldByAnnotation \<mapsto> ''outage/r1''], dep_replicas := Some 0\<rparr>"

definition held_cluster :: cluster where
  "held_cluster = sample_cluster\<lparr>cl_deps := [held_dep]\<rparr>"

lemma held_facts:
  "getDeployment mem_client held_cluster (''shop'', ''web'') = Inr held_dep"
  "held_by_other other_rc held_dep" "fst (cut (CHR ''/'') (holder held_dep)) = ''outage''"
  "getMJ mem_client held_cluster (''shop'', ''outage'') = Inr sample_mj" "live_scenario sample_mj"
  by (simp_all add: mem_client_def held_cluster_def held_dep_def sample_defs find_obj_def lookup_def
      dep_key_def holder_def held_by_other_def other_rc_def sample_rc_def hasPrefix_def cut_def
      mj_key_def live_scenario_def)

theorem foreign_hold_untouched_witness:
  "\<exists>e. Scale_Ensure mem_client other_rc sample_scale (marshal_scale
     \<lparr>st_kind = ''Deployment'', st_namespace = ''shop'', st_name = ''web'', st_previous_replicas = 0\<rparr>) held_cluster
     = (Failed e, held_cluster)"
  using foreign_hold_untouched [of mem_client held_cluster "''shop''" "''web''" held_dep other_rc sample_scale _
      0 sample_deploy] held_facts
  by (simp add: sample_scale_def sample_deploy_def int32_ok_def)

text \<open>
  Scale.Plan reads the replica count without looking at the hold. When a scenario plans while
  another holds the Deployment, and applies its action after the other has let go, its Revert
  restores the count the other had injected, not the count it found when it applied.
\<close>

theorem scale_plan_ignores_hold:
  assumes c: "stores_deployments c" and act: "act_scale act = Some sa"
    and get0: "getDeployment c w0 (rc_namespace rc, tr_name (sa_target_ref sa)) = Inr dep0"
    and held: "held_by_other rc dep0" and n: "int32_ok (replicas_or_default dep0)"
    and get: "getDeployment c w (rc_namespace rc, tr_name (sa_target_ref sa)) = Inr dep"
    and free: "holder dep = []"
  shows "\<exists>token w1 w2 d2. Scale_Plan c rc act w0 = Inr token
     \<and> Scale_Ensure c rc act token w = (Returned True 0, w1)
     \<and> Scale_Revert c rc token w1 = (Returned True 0, w2)
     \<and> getDeployment c w2 (rc_namespace rc, tr_name (sa_target_ref sa)) = Inr d2
     \<and> dep_replicas d2 = Some (replicas_or_default dep0) \<and> holder d2 = []"
proof -
  define t where "t = \<lparr>st_kind = ''Deployment'', st_namespace = rc_namespace rc,
    st_name = tr_name (sa_target_ref sa), st_previous_replicas = replicas_or_default dep0\<rparr>"
  have k: "st_key t = (rc_namespace rc, tr_name (sa_target_ref sa))" by (simp add: t_def st_key_def)
  have get': "getDeployment c w (st_key t) = Inr dep" using get k by simp
  have t: "int32_ok (st_previous_replicas t)" using n by (simp add: t_def)
  have plan: "Scale_Plan c rc act w0 = Inr (marshal_scale t)"
    using act get0 by (simp add: Scale_Plan_def t_def)
  obtain w1 d1 where e: "Scale_Ensure c rc act (marshal_scale t) w = (Returned True 0, w1)"
    "getDeployment c w1 (st_key t) = Inr d1" "dep_view d1 = dep_view (scaled rc sa dep)"
    by (rule Scale_Ensure_holds [OF c get' act t check_holder_own [OF free_not_other [OF free]]])
  have own: "holder d1 = held_by rc" using dep_view_simps(6) [OF e(3)] by simp
  obtain w2 d2 where r: "Scale_Revert c rc (marshal_scale t) w1 = (Returned True 0, w2)"
    "getDeployment c w2 (st_key t) = Inr d2" "dep_replicas d2 = Some (st_previous_replicas t)" "holder d2 = []"
    by (rule Scale_Revert_releases [OF c e(2) t held_by_not_other [OF own]])
  show ?thesis using plan e(1) r k by (auto simp: t_def)
qed

theorem scale_plan_ignores_hold_witness:
  "\<exists>token w1 w2 d2. Scale_Plan mem_client other_rc sample_scale held_cluster = Inr token
     \<and> Scale_Ensure mem_client other_rc sample_scale token sample_cluster = (Returned True 0, w1)
     \<and> Scale_Revert mem_client other_rc token w1 = (Returned True 0, w2)
     \<and> getDeployment mem_client w2 (''shop'', ''web'') = Inr d2
     \<and> dep_replicas d2 = Some 0 \<and> dep_replicas sample_dep = Some 3"
proof -
  obtain sa where "act_scale sample_scale = Some sa" "tr_name (sa_target_ref sa) = ''web''"
    by (simp add: sample_scale_def)
  with scale_plan_ignores_hold [of mem_client sample_scale sa held_cluster other_rc held_dep sample_cluster sample_dep]
    held_facts sample_web
  show ?thesis
    by (simp add: other_rc_def sample_rc_def replicas_or_default_def int32_ok_def held_dep_def sample_dep_def) blast
qed

section \<open>DeployImage\<close>

lemma resolve_good_nonempty: "observed \<noteq> [] \<Longrightarrow> resolve_good da dep observed \<noteq> []"
  by (simp add: resolve_good_def Let_def)

lemma DeployImage_Plan_Inr:
  assumes "DeployImage_Plan c rc act w = Inr token" and "act_deploy_image act = Some da"
  obtains dep i where "getDeployment c w (rc_namespace rc, tr_name (da_target_ref da)) = Inr dep"
    "containerIndex dep (da_container da) = Some i" "image_at dep i \<noteq> []"
    "token = marshal_deploy_image \<lparr>dt_kind = ''Deployment'', dt_namespace = rc_namespace rc,
       dt_name = tr_name (da_target_ref da), dt_container = da_container da,
       dt_good_image = resolve_good da dep (image_at dep i), dt_bad_image = da_image da\<rparr>"
    "resolve_good da dep (image_at dep i) \<noteq> da_image da"
  using assms that
  by (auto simp: DeployImage_Plan_def Let_def split: sum.splits if_splits option.splits)

text \<open>
  Plan of DeployImage only gives a token that can be reverted: the rollback image it names is
  not empty and is not the image to be deployed, and it is the first of the spec's known-good
  image, the marker an interrupted run left, and the image observed.
\<close>

theorem deploy_plan_revertible:
  assumes "DeployImage_Plan c rc act w = Inr token" and "act_deploy_image act = Some da"
  shows "\<exists>t dep i. unmarshal_deploy_image token = Inr t
     \<and> getDeployment c w (dt_key t) = Inr dep \<and> containerIndex dep (dt_container t) = Some i
     \<and> dt_bad_image t = da_image da \<and> dt_good_image t \<noteq> dt_bad_image t \<and> dt_good_image t \<noteq> []
     \<and> dt_good_image t \<in> {da_known_good_image da, go_get (dep_annotations dep) (knownGood t), image_at dep i}
     \<and> (da_known_good_image da \<noteq> [] \<longrightarrow> dt_good_image t = da_known_good_image da)"
proof -
  obtain dep i where p: "getDeployment c w (rc_namespace rc, tr_name (da_target_ref da)) = Inr dep"
    "containerIndex dep (da_container da) = Some i" "image_at dep i \<noteq> []"
    "token = marshal_deploy_image \<lparr>dt_kind = ''Deployment'', dt_namespace = rc_namespace rc,
       dt_name = tr_name (da_target_ref da), dt_container = da_container da,
       dt_good_image = resolve_good da dep (image_at dep i), dt_bad_image = da_image da\<rparr>"
    "resolve_good da dep (image_at dep i) \<noteq> da_image da"
    by (rule DeployImage_Plan_Inr [OF assms])
  have "resolve_good da dep (image_at dep i)
      \<in> {da_known_good_image da, go_get (dep_annotations dep) (KnownGoodAnnotationPrefix @ da_container da), image_at dep i}"
    "da_known_good_image da \<noteq> [] \<longrightarrow> resolve_good da dep (image_at dep i) = da_known_good_image da"
    by (auto simp: resolve_good_def Let_def)
  with p resolve_good_nonempty [OF p(3)] show ?thesis
    by (simp add: dt_key_def knownGood_def)
qed

lemma sample_plan:
  "DeployImage_Plan mem_client sample_rc sample_deploy sample_cluster = Inr (marshal_deploy_image
     \<lparr>dt_kind = ''Deployment'', dt_namespace = ''shop'', dt_name = ''web'', dt_container = ''app'',
      dt_good_image = ''v1'', dt_bad_image = ''v2''\<rparr>)"
  using sample_web(1)
  by (simp add: DeployImage_Plan_def sample_deploy_def sample_rc_def sample_dep_def resolve_good_def
      containerIndex_def image_at_def)

theorem deploy_plan_revertible_witness:
  "\<exists>token t. DeployImage_Plan mem_client sample_rc sample_deploy sample_cluster = Inr token
     \<and> unmarshal_deploy_image token = Inr t \<and> dt_bad_image t = ''v2'' \<and> dt_good_image t \<noteq> ''v2''"
proof -
  obtain da where da: "act_deploy_image sample_deploy = Some da" "da_image da = ''v2''"
    by (simp add: sample_deploy_def)
  from deploy_plan_revertible [OF sample_plan da(1)] da(2) sample_plan show ?thesis by auto
qed

text \<open>The two patches of DeployImage, and what they leave.\<close>

lemma swapped_simps [simp]:
  "dep_key (swapped rc t i d) = dep_key d" "holder (swapped rc t i d) = held_by rc"
  "dep_annotations (swapped rc t i d) (knownGood t) = Some (dt_good_image t)"
  by (simp_all add: swapped_def dep_key_def holder_def knownGood_def)

text \<open>
  C16. There is no window in which the bad image is live without its rollback marker: whatever
  Ensure of DeployImage does to the cluster is one patch of the Deployment just read, which sets
  the token's bad image in the token's container, the marker with the good image, the hold of
  the run and the scenario's label, and changes nothing else of the Deployment.
\<close>

theorem deploy_marks_with_swap:
  assumes "snd (DeployImage_Ensure c rc act (marshal_deploy_image t) w) \<noteq> w"
  shows "\<exists>dep i d. getDeployment c w (dt_key t) = Inr dep \<and> containerIndex dep (dt_container t) = Some i
     \<and> snd (DeployImage_Ensure c rc act (marshal_deploy_image t) w) = snd (patchDeployment c w dep d)
     \<and> dep_containers d = (dep_containers dep)[i := (dep_containers dep ! i)\<lparr>cn_image := dt_bad_image t\<rparr>]
     \<and> dep_annotations d = (dep_annotations dep)
         (KnownGoodAnnotationPrefix @ dt_container t \<mapsto> dt_good_image t, HeldByAnnotation \<mapsto> held_by rc)
     \<and> dep_labels d = (dep_labels dep)(ScenarioLabel \<mapsto> rc_scenario_name rc)
     \<and> dep_replicas d = dep_replicas dep \<and> dep_key d = dep_key dep"
proof -
  obtain dep i where d: "getDeployment c w (dt_key t) = Inr dep" "containerIndex dep (dt_container t) = Some i"
    "snd (DeployImage_Ensure c rc act (marshal_deploy_image t) w) = snd (patchDeployment c w dep (swapped rc t i dep))"
    using assms
    by (auto simp: DeployImage_Ensure_def Let_def split: option.splits sum.splits if_splits prod.splits)
  then show ?thesis
    by (intro exI [of _ dep] exI [of _ i] exI [of _ "swapped rc t i dep"])
       (simp add: swapped_def set_image_def knownGood_def dep_key_def)
qed

theorem deploy_marks_with_swap_witness:
  "\<exists>dep d. getDeployment mem_client sample_cluster (''shop'', ''web'') = Inr dep
     \<and> snd (DeployImage_Ensure mem_client sample_rc sample_deploy (marshal_deploy_image
         \<lparr>dt_kind = ''Deployment'', dt_namespace = ''shop'', dt_name = ''web'', dt_container = ''app'',
          dt_good_image = ''v1'', dt_bad_image = ''v2''\<rparr>) sample_cluster) = snd (patchDeployment mem_client sample_cluster dep d)
     \<and> dep_annotations d (KnownGoodAnnotationPrefix @ ''app'') = Some ''v1''"
proof -
  let ?t = "\<lparr>dt_kind = ''Deployment'', dt_namespace = ''shop'', dt_name = ''web'', dt_container = ''app'',
     dt_good_image = ''v1'', dt_bad_image = ''v2''\<rparr>"
  have "map (\<lambda>d. dep_annotations d HeldByAnnotation)
      (cl_deps (snd (DeployImage_Ensure mem_client sample_rc sample_deploy (marshal_deploy_image ?t) sample_cluster)))
    = [Some ''outage/r1'']"
    by code_simp
  then have "snd (DeployImage_Ensure mem_client sample_rc sample_deploy (marshal_deploy_image ?t) sample_cluster)
      \<noteq> sample_cluster"
    by (auto simp: sample_defs)
  from deploy_marks_with_swap [OF this] show ?thesis
    by (simp add: dt_key_def) (metis fun_upd_other fun_upd_same known_good_not_held(1))
qed

lemma set_image_back:
  "i < length (dep_containers d) \<Longrightarrow> dep_containers d' = set_image d i img \<Longrightarrow> img' = image_at d i \<Longrightarrow>
   set_image d' i img' = dep_containers d"
  by (simp add: set_image_def image_at_def)

lemma DeployImage_Ensure_swaps:
  assumes c: "stores_deployments c" and get: "getDeployment c w (dt_key t) = Inr dep"
    and act: "act_deploy_image act = Some da" and own: "\<not> held_by_other rc dep"
    and i: "containerIndex dep (dt_container t) = Some i" and img: "image_at dep i \<noteq> dt_bad_image t"
  obtains w' d where "DeployImage_Ensure c rc act (marshal_deploy_image t) w = (Returned False (5 * second), w')"
    "getDeployment c w' (dt_key t) = Inr d" "dep_view d = dep_view (swapped rc t i dep)"
proof -
  from c get have "dep_key dep = dt_key t" unfolding stores_deployments_def by blast
  then obtain w' d where w': "patchDeployment c w dep (swapped rc t i dep) = (None, w')"
    "getDeployment c w' (dt_key t) = Inr d" "dep_view d = dep_view (swapped rc t i dep)"
    using stores_deploymentsD [OF c get, of "swapped rc t i dep"] swapped_simps(1) by metis
  show thesis
    by (rule that [OF _ w'(2,3)]) (use assms w'(1) in \<open>simp add: DeployImage_Ensure_def\<close>)
qed

lemma rolled_back_simps [simp]:
  "dep_key (rolled_back t r d) = dep_key d" "holder (rolled_back t r d) = []"
  "dep_annotations (rolled_back t r d) (knownGood t) = None"
  by (simp_all add: rolled_back_def dep_key_def holder_def)

lemma DeployImage_Revert_rolls_back:
  assumes c: "stores_deployments c" and get: "getDeployment c w (dt_key t) = Inr dep"
    and own: "\<not> held_by_other rc dep"
    and i: "containerIndex dep (dt_container t) = Some i" and img: "image_at dep i = dt_bad_image t"
  obtains w' d where "DeployImage_Revert c rc (marshal_deploy_image t) w = (Returned False (5 * second), w')"
    "getDeployment c w' (dt_key t) = Inr d" "dep_view d = dep_view (rolled_back t (Some i) dep)"
proof -
  from c get have "dep_key dep = dt_key t" unfolding stores_deployments_def by blast
  then obtain w' d where w': "patchDeployment c w dep (rolled_back t (Some i) dep) = (None, w')"
    "getDeployment c w' (dt_key t) = Inr d" "dep_view d = dep_view (rolled_back t (Some i) dep)"
    using stores_deploymentsD [OF c get, of "rolled_back t (Some i) dep"] rolled_back_simps(1) by metis
  show thesis
    by (rule that [OF _ w'(2,3)]) (use assms w'(1) in \<open>simp add: DeployImage_Revert_def\<close>)
qed

text \<open>The swap and the way back, from the token as a record.\<close>

lemma deploy_cycle:
  assumes c: "stores_deployments c" and get: "getDeployment c w (dt_key t) = Inr dep"
    and act: "act_deploy_image act = Some da" and free: "holder dep = []"
    and i: "containerIndex dep (dt_container t) = Some i"
    and bad: "image_at dep i \<noteq> dt_bad_image t" and good: "dt_good_image t \<noteq> dt_bad_image t"
  obtains w1 d1 w2 d2 where
    "DeployImage_Ensure c rc act (marshal_deploy_image t) w = (Returned False (5 * second), w1)"
    "getDeployment c w1 (dt_key t) = Inr d1" "image_at d1 i = dt_bad_image t" "holder d1 = held_by rc"
    "DeployImage_Revert c rc (marshal_deploy_image t) w1 = (Returned False (5 * second), w2)"
    "getDeployment c w2 (dt_key t) = Inr d2" "image_at d2 i = dt_good_image t" "holder d2 = []"
    "dep_annotations d2 (knownGood t) = None" "dep_labels d2 = (dep_labels dep)(ScenarioLabel := None)"
    "dt_good_image t = image_at dep i \<longrightarrow> dep_containers d2 = dep_containers dep"
    "DeployImage_Revert c rc (marshal_deploy_image t) w2 = (Returned True 0, w2)"
proof -
  have bound: "i < length (dep_containers dep)" using containerIndex_bound [OF i] by simp
  obtain w1 d1 where e: "DeployImage_Ensure c rc act (marshal_deploy_image t) w = (Returned False (5 * second), w1)"
    "getDeployment c w1 (dt_key t) = Inr d1" "dep_view d1 = dep_view (swapped rc t i dep)"
    by (rule DeployImage_Ensure_swaps [OF c get act free_not_other [OF free] i bad])
  have cont1: "dep_containers d1 = set_image dep i (dt_bad_image t)"
    using dep_view_simps(5) [OF e(3)] by (simp add: swapped_def)
  have own: "holder d1 = held_by rc" using dep_view_simps(6) [OF e(3)] by simp
  have i1: "containerIndex d1 (dt_container t) = Some i"
    using containerIndex_set_image [OF bound] i cont1 by (simp add: containerIndex_def)
  have img1: "image_at d1 i = dt_bad_image t"
    using bound cont1 by (simp add: image_at_def set_image_def)
  obtain w2 d2 where r: "DeployImage_Revert c rc (marshal_deploy_image t) w1 = (Returned False (5 * second), w2)"
    "getDeployment c w2 (dt_key t) = Inr d2" "dep_view d2 = dep_view (rolled_back t (Some i) d1)"
    by (rule DeployImage_Revert_rolls_back [OF c e(2) held_by_not_other [OF own] i1 img1])
  note v2 = dep_view_simps [OF r(3)]
  have cont2: "dep_containers d2 = set_image d1 i (dt_good_image t)"
    using v2(5) by (simp add: rolled_back_def)
  have free2: "holder d2 = []" using v2(6) by simp
  have mark2: "dep_annotations d2 (knownGood t) = None" using v2(3) by simp
  have bound1: "i < length (dep_containers d1)" using bound cont1 by (simp add: set_image_def)
  have img2: "image_at d2 i = dt_good_image t" using bound1 cont2 by (simp add: image_at_def set_image_def)
  have i2: "containerIndex d2 (dt_container t) = Some i"
    using containerIndex_set_image [OF bound1] i1 cont2 by (simp add: containerIndex_def)
  have restored: "dt_good_image t = image_at dep i \<longrightarrow> dep_containers d2 = dep_containers dep"
    using set_image_back [OF bound cont1] cont2 by simp
  have again: "DeployImage_Revert c rc (marshal_deploy_image t) w2 = (Returned True 0, w2)"
    using r(2) free_not_other [OF free2] i2 img2 good mark2 free2 by (simp add: DeployImage_Revert_def)
  have labels: "dep_labels d2 = (dep_labels dep)(ScenarioLabel := None)"
    using v2(2) dep_view_simps(2) [OF e(3)] by (simp add: rolled_back_def swapped_def)
  show ?thesis by (rule that [OF e(1,2) img1 own r(1,2) img2 free2 mark2 labels restored again])
qed

text \<open>
  C14. DeployImage goes there and back. For a Deployment that nobody holds, without a marker and
  not running the bad image, Plan, Ensure and two Reverts in turn: Ensure deploys the bad image
  under the run's hold, the first Revert puts the good image in, the second finds nothing left
  and is done. The marker, the hold and the label are gone, and without a known-good image in the
  spec the containers are what they were.
\<close>

theorem deploy_round_trip:
  assumes c: "stores_deployments c" and act: "act_deploy_image act = Some da"
    and plan: "DeployImage_Plan c rc act w = Inr token"
    and get: "getDeployment c w (rc_namespace rc, tr_name (da_target_ref da)) = Inr dep"
    and free: "holder dep = []" and i: "containerIndex dep (da_container da) = Some i"
    and img: "image_at dep i \<noteq> da_image da"
    and unmarked: "dep_annotations dep (KnownGoodAnnotationPrefix @ da_container da) = None"
  shows "\<exists>w1 d1 w2 d2. DeployImage_Ensure c rc act token w = (Returned False (5 * second), w1)
     \<and> getDeployment c w1 (dep_key dep) = Inr d1 \<and> image_at d1 i = da_image da \<and> holder d1 = held_by rc
     \<and> DeployImage_Revert c rc token w1 = (Returned False (5 * second), w2)
     \<and> getDeployment c w2 (dep_key dep) = Inr d2 \<and> image_at d2 i \<noteq> da_image da \<and> holder d2 = []
     \<and> dep_annotations d2 (KnownGoodAnnotationPrefix @ da_container da) = None
     \<and> dep_labels d2 = (dep_labels dep)(ScenarioLabel := None)
     \<and> (da_known_good_image da = [] \<longrightarrow> dep_containers d2 = dep_containers dep)
     \<and> DeployImage_Revert c rc token w2 = (Returned True 0, w2)"
proof -
  obtain dep' i' where "getDeployment c w (rc_namespace rc, tr_name (da_target_ref da)) = Inr dep'"
    "containerIndex dep' (da_container da) = Some i'"
    and token': "token = marshal_deploy_image \<lparr>dt_kind = ''Deployment'', dt_namespace = rc_namespace rc,
       dt_name = tr_name (da_target_ref da), dt_container = da_container da,
       dt_good_image = resolve_good da dep' (image_at dep' i'), dt_bad_image = da_image da\<rparr>"
    and good': "resolve_good da dep' (image_at dep' i') \<noteq> da_image da"
    by (rule DeployImage_Plan_Inr [OF plan act])
  with get i have eq: "dep' = dep" "i' = i" by auto
  define t where "t = \<lparr>dt_kind = ''Deployment'', dt_namespace = rc_namespace rc,
    dt_name = tr_name (da_target_ref da), dt_container = da_container da,
    dt_good_image = resolve_good da dep (image_at dep i), dt_bad_image = da_image da\<rparr>"
  have token: "token = marshal_deploy_image t" using token' eq by (simp add: t_def)
  have t: "dt_good_image t \<noteq> dt_bad_image t" "containerIndex dep (dt_container t) = Some i"
    "image_at dep i \<noteq> dt_bad_image t" "dt_bad_image t = da_image da"
    "knownGood t = KnownGoodAnnotationPrefix @ da_container da"
    using good' eq i img by (simp_all add: t_def knownGood_def)
  have key: "dep_key dep = dt_key t" using c get by (auto simp: stores_deployments_def t_def dt_key_def)
  have get': "getDeployment c w (dt_key t) = Inr dep" using get by (simp add: t_def dt_key_def)
  have plain: "dt_good_image t = image_at dep i" if "da_known_good_image da = []"
    using that unmarked by (simp add: t_def resolve_good_def go_get_def)
  show ?thesis
    by (rule deploy_cycle [OF c get' act free t(2,3,1), of rc]) (use t plain in \<open>auto simp: token key\<close>)
qed

theorem deploy_round_trip_witness:
  "\<exists>token w1 w2 d2. DeployImage_Plan mem_client sample_rc sample_deploy sample_cluster = Inr token
     \<and> DeployImage_Ensure mem_client sample_rc sample_deploy token sample_cluster = (Returned False (5 * second), w1)
     \<and> DeployImage_Revert mem_client sample_rc token w1 = (Returned False (5 * second), w2)
     \<and> DeployImage_Revert mem_client sample_rc token w2 = (Returned True 0, w2)
     \<and> getDeployment mem_client w2 (''shop'', ''web'') = Inr d2 \<and> dep_containers d2 = dep_containers sample_dep"
proof -
  obtain da where da: "act_deploy_image sample_deploy = Some da" "tr_name (da_target_ref da) = ''web''"
    "da_container da = ''app''" "da_image da = ''v2''" "da_known_good_image da = []"
    by (simp add: sample_deploy_def)
  have "containerIndex sample_dep ''app'' = Some 0" "image_at sample_dep 0 \<noteq> ''v2''"
    "dep_annotations sample_dep (KnownGoodAnnotationPrefix @ ''app'') = None"
    by (simp_all add: sample_dep_def containerIndex_def image_at_def)
  with deploy_round_trip [OF mem_stores da(1) sample_plan, of sample_dep 0] da sample_web sample_plan
  show ?thesis by (simp add: sample_rc_def) blast
qed

end
