(* ===== verification/ObjectProps.thy ===== *)
theory ObjectProps
  imports Sample
begin

text \<open>
  What the actions that create objects promise: Workload and ChaosMesh by the contract of a
  labelled object (the interpretations \<open>workload\<close> and \<open>chaos_mesh\<close>), DBExec by its Jobs. Nothing
  is assumed of the API here.
\<close>

section \<open>Workload\<close>

text \<open>
  Workload touches only Jobs of its scenario. Whatever the API answers: Revert is done exactly
  when there is no Job of that name or it bears another scenario's label, and then changes
  nothing; it changes the cluster only by deleting a Job of the scenario that is not being deleted
  yet; Ensure changes it only by creating its Job, where there was none of the token's name.
\<close>

theorem workload_only_own_jobs:
  "((\<exists>d. fst (Workload_Revert c rc (marshal_workload t) w) = Returned True d) \<longleftrightarrow>
      (case getJob c w (wt_key t) of
         Inl e \<Rightarrow> isNotFound e | Inr j \<Rightarrow> go_get (job_labels j) ScenarioLabel \<noteq> rc_scenario_name rc))
   \<and> (\<forall>d w'. Workload_Revert c rc (marshal_workload t) w = (Returned True d, w') \<longrightarrow> w' = w)
   \<and> (snd (Workload_Revert c rc (marshal_workload t) w) \<noteq> w \<longrightarrow>
        (\<exists>j. getJob c w (wt_key t) = Inr j \<and> go_get (job_labels j) ScenarioLabel = rc_scenario_name rc
           \<and> job_deletion_timestamp j = None
           \<and> snd (Workload_Revert c rc (marshal_workload t) w) = snd (deleteJob c w Foreground j)))
   \<and> (snd (Workload_Ensure c rc (act\<lparr>act_workload := Some wa\<rparr>) (marshal_workload t) w) \<noteq> w \<longrightarrow>
        (\<exists>e. getJob c w (wt_key t) = Inl e \<and> isNotFound e
           \<and> snd (Workload_Ensure c rc (act\<lparr>act_workload := Some wa\<rparr>) (marshal_workload t) w)
             = snd (createJob c w (buildJob rc wa))))"
proof (intro conjI)
  show "(\<exists>d. fst (Workload_Revert c rc (marshal_workload t) w) = Returned True d) \<longleftrightarrow>
      (case getJob c w (wt_key t) of
         Inl e \<Rightarrow> isNotFound e | Inr j \<Rightarrow> go_get (job_labels j) ScenarioLabel \<noteq> rc_scenario_name rc)"
    using workload.done_iff [of c rc t w] by (auto simp: workload.nothing_ours_def job_ours_def split: sum.splits)
  show "\<forall>d w'. Workload_Revert c rc (marshal_workload t) w = (Returned True d, w') \<longrightarrow> w' = w"
    by (intro allI impI) (erule conjunct1 [OF workload.idempotent])
  show "snd (Workload_Revert c rc (marshal_workload t) w) \<noteq> w \<longrightarrow>
        (\<exists>j. getJob c w (wt_key t) = Inr j \<and> go_get (job_labels j) ScenarioLabel = rc_scenario_name rc
           \<and> job_deletion_timestamp j = None
           \<and> snd (Workload_Revert c rc (marshal_workload t) w) = snd (deleteJob c w Foreground j))"
    using workload.writes_only_ours [of c rc t w] by (auto simp: job_ours_def)
  show "snd (Workload_Ensure c rc (act\<lparr>act_workload := Some wa\<rparr>) (marshal_workload t) w) \<noteq> w \<longrightarrow>
        (\<exists>e. getJob c w (wt_key t) = Inl e \<and> isNotFound e
           \<and> snd (Workload_Ensure c rc (act\<lparr>act_workload := Some wa\<rparr>) (marshal_workload t) w)
             = snd (createJob c w (buildJob rc wa)))"
    using workload.ensure_creates_only [where c = c and rc = rc and act = act and wa = wa and t = t and w = w]
    by simp
qed

definition sample_rc' :: run_context where
  "sample_rc' = \<lparr>rc_scenario_name = ''outage'', rc_scenario_uid = ''u1'', rc_namespace = ''shop'',
     rc_run_id = ''r1'', rc_run_duration = 60 * second, rc_operator_image = ''op''\<rparr>"

definition sample_wa :: workload_action where
  "sample_wa = \<lparr>wa_name = ''load'', wa_image = [], wa_command = [], wa_engine = ''postgres'',
     wa_queries = [''select 1''], wa_concurrency = 0, wa_interval = None, wa_env = [],
     wa_deadline_margin = None, wa_colocate_with_app = [], wa_cpu_burn = 0\<rparr>"

definition sample_wt :: workload_token where
  "sample_wt = \<lparr>wt_kind = ''Job'', wt_namespace = ''shop'', wt_name = ''load''\<rparr>"

text \<open>A cluster with the scenario's Job, and one with somebody else's.\<close>

definition loaded_cluster :: "string \<Rightarrow> cluster" where
  "loaded_cluster owner = sample_cluster\<lparr>cl_jobs :=
     [(buildJob sample_rc' sample_wa)\<lparr>job_labels := [ScenarioLabel \<mapsto> owner]\<rparr>]\<rparr>"

lemma loaded_facts:
  "getJob mem_client (loaded_cluster owner) (wt_key sample_wt)
     = Inr ((buildJob sample_rc' sample_wa)\<lparr>job_labels := [ScenarioLabel \<mapsto> owner]\<rparr>)"
  by (simp add: mem_client_def loaded_cluster_def find_obj_def lookup_def job_key_def buildJob_def Let_def
      sample_wt_def wt_key_def sample_rc'_def sample_wa_def)

theorem workload_only_own_jobs_witness:
  "(\<exists>d. Workload_Revert mem_client sample_rc' (marshal_workload sample_wt) (loaded_cluster ''other'')
      = (Returned True d, loaded_cluster ''other''))
   \<and> (\<forall>d. fst (Workload_Revert mem_client sample_rc' (marshal_workload sample_wt) (loaded_cluster ''outage''))
       \<noteq> Returned True d)"
proof
  show "\<exists>d. Workload_Revert mem_client sample_rc' (marshal_workload sample_wt) (loaded_cluster ''other'')
      = (Returned True d, loaded_cluster ''other'')"
    using workload_only_own_jobs [of mem_client sample_rc' sample_wt "loaded_cluster ''other''"]
    by (simp add: loaded_facts sample_rc'_def) (metis eq_snd_iff fst_conv)
  show "\<forall>d. fst (Workload_Revert mem_client sample_rc' (marshal_workload sample_wt) (loaded_cluster ''outage''))
       \<noteq> Returned True d"
    using workload_only_own_jobs [of mem_client sample_rc' sample_wt "loaded_cluster ''outage''"]
    by (simp add: loaded_facts sample_rc'_def)
qed

text \<open>
  The Job of a Workload runs and ends. It has at least one pod; its deadline is a day for a
  run without an end, and otherwise not before the end of the run when the margin is a second or
  more and the sum fits 64 bits; it is labelled and owned by the scenario; and it runs the
  command of the spec, or else the operator's query loop with the spec's queries in order.
\<close>

theorem workload_job:
  "1 \<le> js_parallelism (job_spec_of (buildJob rc wa))
   \<and> (rc_run_duration rc \<le> 0 \<longrightarrow> js_active_deadline_seconds (job_spec_of (buildJob rc wa)) = 86400)
   \<and> (0 < rc_run_duration rc \<longrightarrow> (\<forall>m. wa_deadline_margin wa = Some m \<longrightarrow> second \<le> m \<longrightarrow>
        int64_ok (rc_run_duration rc + m) \<longrightarrow>
        rc_run_duration rc \<le> js_active_deadline_seconds (job_spec_of (buildJob rc wa)) * second))
   \<and> (0 < rc_run_duration rc \<longrightarrow> wa_deadline_margin wa = None \<longrightarrow> int64_ok (rc_run_duration rc + 5 * minute) \<longrightarrow>
        rc_run_duration rc \<le> js_active_deadline_seconds (job_spec_of (buildJob rc wa)) * second)
   \<and> job_labels (buildJob rc wa) ScenarioLabel = Some (rc_scenario_name rc)
   \<and> map or_uid (job_owners (buildJob rc wa)) = [rc_scenario_uid rc]
   \<and> (wa_command wa \<noteq> [] \<longrightarrow> js_args (job_spec_of (buildJob rc wa)) = wa_command wa)
   \<and> (wa_command wa = [] \<longrightarrow> wa_cpu_burn wa \<le> 0 \<longrightarrow>
        drop 7 (js_args (job_spec_of (buildJob rc wa))) = queryArgs (wa_queries wa))"
proof -
  have rounded: "d \<le> go_div x second * second" if "d + second \<le> x" "0 < d" for d x
  proof -
    have "0 \<le> x" using that by (simp add: second_def)
    then have "go_div x second = x div second" by (simp add: go_div_nonneg second_def)
    with that show ?thesis by (simp add: second_def)
  qed
  have day: "go_div (24 * hour) second = 86400" by (simp add: go_div_def time_consts)
  have margin: "second \<le> 5 * minute" by (simp add: time_consts)
  show ?thesis
    using rounded day margin
    by (auto simp: buildJob_def Let_def workload_deadline_def workload_concurrency_def defaultConcurrency_def
        unboundedRunDeadline_def defaultDeadlineMargin_def workload_args_def owner_of_def ScenarioLabel_def)
qed

theorem workload_job_witness:
  "rc_run_duration sample_rc' \<le> js_active_deadline_seconds (job_spec_of (buildJob sample_rc' sample_wa)) * second
   \<and> 1 \<le> js_parallelism (job_spec_of (buildJob sample_rc' sample_wa))"
  using workload_job [of sample_rc' sample_wa]
  by (simp add: sample_wa_def sample_rc'_def int64_ok_def time_consts)

text \<open>
  Workload.Ensure looks for the Job named in the token but creates the one named in the spec.
  When the spec's Workload is renamed during a run, Ensure creates the renamed Job, and the Revert
  of the token, once the Job of its own name is gone, is done without a write: the renamed Job
  stays.
\<close>

theorem workload_rename_leaks:
  assumes "wa_name wa \<noteq> wt_name t" and "getJob c w (wt_key t) = Inl e" and "isNotFound e"
    and "createJob c w (buildJob rc wa) = (None, w1)" and "getJob c w1 (wt_key t) = Inl e'" and "isNotFound e'"
  shows "Workload_Ensure c rc (act\<lparr>act_workload := Some wa\<rparr>) (marshal_workload t) w = (Returned True 0, w1)
    \<and> Workload_Revert c rc (marshal_workload t) w1 = (Returned True 0, w1)
    \<and> job_key (buildJob rc wa) \<noteq> wt_key t"
  using assms
  by (simp add: Workload_Ensure_def Workload_Revert_def buildJob_def Let_def job_key_def wt_key_def)

theorem workload_rename_leaks_witness:
  "\<exists>w1. Workload_Ensure mem_client sample_rc' (sample_scale\<lparr>act_workload := Some sample_wa\<rparr>)
          (marshal_workload (sample_wt\<lparr>wt_name := ''old''\<rparr>)) sample_cluster = (Returned True 0, w1)
     \<and> Workload_Revert mem_client sample_rc' (marshal_workload (sample_wt\<lparr>wt_name := ''old''\<rparr>)) w1
         = (Returned True 0, w1)"
proof -
  let ?j = "buildJob sample_rc' sample_wa"
  have "createJob mem_client sample_cluster ?j = (None, sample_cluster\<lparr>cl_jobs := [?j]\<rparr>)"
    by (simp add: mem_client_def mem_createJob_def sample_cluster_def empty_cluster_def lookup_def)
  moreover have "getJob mem_client sample_cluster (''shop'', ''old'') = Inl absent"
    "getJob mem_client (sample_cluster\<lparr>cl_jobs := [?j]\<rparr>) (''shop'', ''old'') = Inl absent"
    by (simp_all add: mem_client_def find_obj_def lookup_def sample_cluster_def empty_cluster_def job_key_def
        buildJob_def Let_def sample_wa_def sample_rc'_def)
  ultimately show ?thesis
    using workload_rename_leaks [of sample_wa "sample_wt\<lparr>wt_name := ''old''\<rparr>" mem_client sample_cluster absent sample_rc'
        _ absent sample_scale]
    by (simp add: sample_wa_def sample_wt_def wt_key_def absent_def isNotFound_def)
qed

section \<open>ChaosMesh\<close>

text \<open>
  ChaosMesh touches only chaos objects of its scenario, as Workload does with Jobs: Revert is
  done exactly when there is none or it is another scenario's, and then changes nothing; it only
  deletes an object of the scenario that is not being deleted yet, and leaves its finalizers
  alone; Ensure only creates its object, where there was none.
\<close>

theorem chaos_only_own_objects:
  "((\<exists>d. fst (ChaosMesh_Revert c rc (marshal_chaos t) w) = Returned True d) \<longleftrightarrow>
      (case getChaos c w (ct_kind t) (ct_key t) of
         Inl e \<Rightarrow> isNotFound e | Inr x \<Rightarrow> go_get (ch_labels x) ScenarioLabel \<noteq> rc_scenario_name rc))
   \<and> (\<forall>d w'. ChaosMesh_Revert c rc (marshal_chaos t) w = (Returned True d, w') \<longrightarrow> w' = w)
   \<and> (snd (ChaosMesh_Revert c rc (marshal_chaos t) w) \<noteq> w \<longrightarrow>
        (\<exists>x. getChaos c w (ct_kind t) (ct_key t) = Inr x \<and> go_get (ch_labels x) ScenarioLabel = rc_scenario_name rc
           \<and> ch_deletion_timestamp x = None
           \<and> snd (ChaosMesh_Revert c rc (marshal_chaos t) w) = snd (deleteChaos c w Foreground x)))
   \<and> (snd (ChaosMesh_Ensure c rc (act\<lparr>act_chaos_mesh := Some (ca\<lparr>ca_spec := Raw (JObj fs)\<rparr>)\<rparr>) (marshal_chaos t) w) \<noteq> w \<longrightarrow>
        (\<exists>e. getChaos c w (ct_kind t) (ct_key t) = Inl e \<and> isNotFound e
           \<and> snd (ChaosMesh_Ensure c rc (act\<lparr>act_chaos_mesh := Some (ca\<lparr>ca_spec := Raw (JObj fs)\<rparr>)\<rparr>) (marshal_chaos t) w)
             = snd (createChaos c w (chaos_of rc t (map_of (rev fs))))))"
proof (intro conjI)
  show "(\<exists>d. fst (ChaosMesh_Revert c rc (marshal_chaos t) w) = Returned True d) \<longleftrightarrow>
      (case getChaos c w (ct_kind t) (ct_key t) of
         Inl e \<Rightarrow> isNotFound e | Inr x \<Rightarrow> go_get (ch_labels x) ScenarioLabel \<noteq> rc_scenario_name rc)"
    using chaos_mesh.done_iff [of c rc t w] by (auto simp: chaos_mesh.nothing_ours_def chaos_ours_def split: sum.splits)
  show "\<forall>d w'. ChaosMesh_Revert c rc (marshal_chaos t) w = (Returned True d, w') \<longrightarrow> w' = w"
    by (intro allI impI) (erule conjunct1 [OF chaos_mesh.idempotent])
  show "snd (ChaosMesh_Revert c rc (marshal_chaos t) w) \<noteq> w \<longrightarrow>
        (\<exists>x. getChaos c w (ct_kind t) (ct_key t) = Inr x \<and> go_get (ch_labels x) ScenarioLabel = rc_scenario_name rc
           \<and> ch_deletion_timestamp x = None
           \<and> snd (ChaosMesh_Revert c rc (marshal_chaos t) w) = snd (deleteChaos c w Foreground x))"
    using chaos_mesh.writes_only_ours [of c rc t w] by (auto simp: chaos_ours_def)
  show "snd (ChaosMesh_Ensure c rc (act\<lparr>act_chaos_mesh := Some (ca\<lparr>ca_spec := Raw (JObj fs)\<rparr>)\<rparr>) (marshal_chaos t) w) \<noteq> w \<longrightarrow>
        (\<exists>e. getChaos c w (ct_kind t) (ct_key t) = Inl e \<and> isNotFound e
           \<and> snd (ChaosMesh_Ensure c rc (act\<lparr>act_chaos_mesh := Some (ca\<lparr>ca_spec := Raw (JObj fs)\<rparr>)\<rparr>) (marshal_chaos t) w)
             = snd (createChaos c w (chaos_of rc t (map_of (rev fs)))))"
    using chaos_mesh.ensure_creates_only [where c = c and rc = rc and act = act and ca = ca and fs = fs and t = t and w = w]
    by simp
qed

definition sample_ct :: chaos_mesh_token where
  "sample_ct = \<lparr>ct_api_version = chaosMeshAPIVersion, ct_kind = ''NetworkChaos'', ct_namespace = ''shop'', ct_name = ''lag''\<rparr>"

definition lagging_cluster :: "string \<Rightarrow> cluster" where
  "lagging_cluster owner = sample_cluster\<lparr>cl_chaos :=
     [(chaos_of sample_rc' sample_ct Map.empty)\<lparr>ch_labels := [ScenarioLabel \<mapsto> owner]\<rparr>]\<rparr>"

lemma lagging_facts:
  "getChaos mem_client (lagging_cluster owner) (ct_kind sample_ct) (ct_key sample_ct)
     = Inr ((chaos_of sample_rc' sample_ct Map.empty)\<lparr>ch_labels := [ScenarioLabel \<mapsto> owner]\<rparr>)"
  by (simp add: mem_client_def lagging_cluster_def find_obj_def lookup_def kind_key_def chaos_key_def chaos_of_def ct_key_def)

theorem chaos_only_own_objects_witness:
  "\<exists>d. ChaosMesh_Revert mem_client sample_rc' (marshal_chaos sample_ct) (lagging_cluster ''other'')
      = (Returned True d, lagging_cluster ''other'')"
  using chaos_only_own_objects [of mem_client sample_rc' sample_ct "lagging_cluster ''other''"]
  by (simp add: lagging_facts sample_rc'_def) (metis eq_snd_iff fst_conv)

text \<open>
  The dead-man switch. A chaos object built from a spec that decodes to fields has those
  fields, the token's name and kind, and the scenario's label; its duration is the user's when
  the spec has one, and otherwise a day for a run without an end and five minutes more than the
  run for one with an end. A spec that does not decode gives an error and no object.
\<close>

theorem chaos_dead_man:
  "(\<forall>x. buildChaos rc ca t = Inr (Some x) \<longrightarrow>
      (\<exists>m. chaos_spec_fields (ca_spec ca) = Inr (Some m)
         \<and> (\<forall>k. k \<noteq> ''duration'' \<longrightarrow> ch_spec x k = m k)
         \<and> ch_spec x ''duration'' =
             (case m ''duration'' of
                Some v \<Rightarrow> Some v
              | None \<Rightarrow> Some (JStr (if rc_run_duration rc \<le> 0 then ''24h''
                                   else durationString (wrap64 (rc_run_duration rc + 5 * minute))))))
      \<and> ch_kind x = ct_kind t \<and> chaos_key x = ct_key t
      \<and> ch_labels x = [ScenarioLabel \<mapsto> rc_scenario_name rc] \<and> ch_owners x = [owner_of rc])
   \<and> (\<forall>e. buildChaos rc ca t = Inl e \<longleftrightarrow> chaos_spec_fields (ca_spec ca) = Inl e)"
  by (auto simp: buildChaos_def with_duration_def chaosDuration_def chaosUnboundedDuration_def
      chaosDeadmanMargin_def chaos_key_def ct_key_def split: sum.splits option.splits)

theorem chaos_dead_man_witness:
  "\<exists>x. buildChaos sample_rc' \<lparr>ca_kind = ''NetworkChaos'', ca_name = ''lag'',
       ca_spec = Raw (JObj [(''mode'', JStr ''all'')])\<rparr> sample_ct = Inr (Some x)
     \<and> ch_spec x ''mode'' = Some (JStr ''all'') \<and> ch_spec x ''duration'' = Some (JStr ''6m0s'')"
proof -
  let ?ca = "\<lparr>ca_kind = ''NetworkChaos'', ca_name = ''lag'', ca_spec = Raw (JObj [(''mode'', JStr ''all'')])\<rparr>"
  have "chaos_spec_fields (ca_spec ?ca) = Inr (Some (map_of [(''mode'', JStr ''all'')]))"
    by (simp add: chaos_spec_fields_def asObj_def)
  moreover have "durationString (wrap64 (rc_run_duration sample_rc' + 5 * minute)) = ''6m0s''"
    by (simp add: durationString_def sample_rc'_def int64_ok_def time_consts show_nat.simps fmtFrac_def
        frac_digits_numeral digit_char_def) (simp add: char_of_def bit_0)
  moreover have "0 < rc_run_duration sample_rc'" by (simp add: sample_rc'_def second_def)
  moreover obtain x where "buildChaos sample_rc' ?ca sample_ct = Inr (Some x)"
    by (simp add: buildChaos_def chaos_spec_fields_def asObj_def)
  ultimately show ?thesis using chaos_dead_man [of sample_rc' ?ca sample_ct] by auto
qed

section \<open>DBExec\<close>

lemma runJob_done_iff:
  "fst (runJob c rc n en env qs w) = Returned True d \<longleftrightarrow>
     (\<exists>j. getJob c w (rc_namespace rc, n) = Inr j \<and> go_get (job_labels j) ScenarioLabel = rc_scenario_name rc
          \<and> 0 < job_succeeded j) \<and> d = 0"
  by (auto simp: runJob_def Let_def split: sum.splits option.splits prod.splits if_splits)

lemma runJob_done_keeps: "runJob c rc n en env qs w = (Returned True d, w') \<Longrightarrow> w' = w"
  by (auto simp: runJob_def Let_def split: sum.splits option.splits prod.splits if_splits)

text \<open>
  DBExec is done only when its own Job has succeeded. Ensure with a token is done exactly when
  the Job of the token's ensure name exists, is the scenario's and has succeeded; Revert exactly
  when the token has no revert statements or the same holds of its revert name; and whoever is
  done has changed nothing. The answer does not depend on the world otherwise.
\<close>

theorem exec_done_when_succeeded:
  "(\<forall>da. act_dbexec act = Some da \<longrightarrow>
      ((\<exists>d. fst (DBExec_Ensure c rc act (marshal_dbexec t) w) = Returned True d) \<longleftrightarrow>
       (\<exists>j. getJob c w (rc_namespace rc, xt_ensure_name t) = Inr j
          \<and> go_get (job_labels j) ScenarioLabel = rc_scenario_name rc \<and> 0 < job_succeeded j)))
   \<and> ((\<exists>d. fst (DBExec_Revert c rc (marshal_dbexec t) w) = Returned True d) \<longleftrightarrow>
       xt_revert t = [] \<or>
       (\<exists>j. getJob c w (rc_namespace rc, xt_revert_name t) = Inr j
          \<and> go_get (job_labels j) ScenarioLabel = rc_scenario_name rc \<and> 0 < job_succeeded j))
   \<and> (\<forall>d w'. DBExec_Ensure c rc act (marshal_dbexec t) w = (Returned True d, w')
         \<or> DBExec_Revert c rc (marshal_dbexec t) w = (Returned True d, w') \<longrightarrow> w' = w)"
  by (auto simp: DBExec_Ensure_def DBExec_Revert_def runJob_done_iff dest: runJob_done_keeps
      split: option.splits if_splits)

definition sample_exec :: action where
  "sample_exec = sample_scale\<lparr>act_type := ActionTypeDBExec, act_scale := None,
     act_dbexec := Some \<lparr>de_name = ''index'', de_engine = ''postgres'', de_env = [],
       de_ensure = [''drop index i''], de_revert = [''create index i'']\<rparr>\<rparr>"

definition sample_xt :: dbexec_token where
  "sample_xt = \<lparr>xt_namespace = ''shop'', xt_engine = ''postgres'', xt_ensure_name = ''index-1'',
     xt_revert_name = ''index-1-cleanup'', xt_env = [], xt_revert = [''create index i'']\<rparr>"

text \<open>A cluster in which the Job of the given name has run.\<close>

definition executed_cluster :: "string \<Rightarrow> int \<Rightarrow> cluster" where
  "executed_cluster n ok = sample_cluster\<lparr>cl_jobs :=
     [(exec_buildJob sample_rc' n ''postgres'' [] [])\<lparr>job_succeeded := ok\<rparr>]\<rparr>"

lemma executed_job:
  "getJob mem_client (executed_cluster n ok) (''shop'', n)
     = Inr ((exec_buildJob sample_rc' n ''postgres'' [] [])\<lparr>job_succeeded := ok\<rparr>)"
  by (simp add: mem_client_def executed_cluster_def find_obj_def lookup_def job_key_def exec_buildJob_def Let_def
      sample_rc'_def)

theorem exec_done_when_succeeded_witness:
  "(\<exists>d. fst (DBExec_Ensure mem_client sample_rc' sample_exec (marshal_dbexec sample_xt) (executed_cluster ''index-1'' 1))
      = Returned True d)
   \<and> (\<forall>d. fst (DBExec_Ensure mem_client sample_rc' sample_exec (marshal_dbexec sample_xt) (executed_cluster ''index-1'' 0))
       \<noteq> Returned True d)"
proof -
  have label: "go_get (job_labels ((exec_buildJob sample_rc' n en env qs)\<lparr>job_succeeded := ok\<rparr>)) ScenarioLabel
      = rc_scenario_name sample_rc'" for n en env qs ok
    by (simp add: exec_buildJob_def Let_def ScenarioLabel_def)
  show ?thesis
    using exec_done_when_succeeded [of sample_exec mem_client sample_rc' sample_xt "executed_cluster ''index-1'' 1"]
      exec_done_when_succeeded [of sample_exec mem_client sample_rc' sample_xt "executed_cluster ''index-1'' 0"]
      executed_job [of "''index-1''"] label
    by (auto simp: sample_exec_def sample_xt_def sample_rc'_def)
qed

text \<open>
  C29. Exec Jobs are scoped to their run. The Jobs that Plan names for two runs with different
  digests have different names, whatever the actions are called, and an ensure Job never has the
  name of a revert Job; all names are DNS-1123 labels, so that the API takes them.
\<close>

theorem exec_names_scoped_to_run:
  assumes "DBExec_Plan c rc act w = Inr token" and "DBExec_Plan c' rc' act' w' = Inr token'"
  shows "\<exists>t t'. unmarshal_dbexec token = Inr t \<and> unmarshal_dbexec token' = Inr t'
     \<and> dns_label (xt_ensure_name t) \<and> dns_label (xt_revert_name t)
     \<and> xt_ensure_name t \<noteq> xt_revert_name t'
     \<and> (xt_ensure_name t = xt_ensure_name t' \<longrightarrow> runDigest (rc_run_id rc) = runDigest (rc_run_id rc'))
     \<and> (xt_revert_name t = xt_revert_name t' \<longrightarrow> runDigest (rc_run_id rc) = runDigest (rc_run_id rc'))"
proof -
  have token_of: "\<exists>b t. unmarshal_dbexec token = Inr t
      \<and> xt_ensure_name t = fst (execJobNames b (rc_run_id rc))
      \<and> xt_revert_name t = snd (execJobNames b (rc_run_id rc))"
    if "DBExec_Plan c rc act w = Inr token" for c :: "'x client" and rc act w token
    using that by (auto simp: DBExec_Plan_def Let_def split: option.splits prod.splits) (metis fst_conv snd_conv)
  obtain b t where t: "unmarshal_dbexec token = Inr t"
    "xt_ensure_name t = fst (execJobNames b (rc_run_id rc))"
    "xt_revert_name t = snd (execJobNames b (rc_run_id rc))"
    using token_of [OF assms(1)] by blast
  obtain b' t' where t': "unmarshal_dbexec token' = Inr t'"
    "xt_ensure_name t' = fst (execJobNames b' (rc_run_id rc'))"
    "xt_revert_name t' = snd (execJobNames b' (rc_run_id rc'))"
    using token_of [OF assms(2)] by blast
  show ?thesis
    unfolding t(1) t'(1)
    using execJobNames_labels [of b "rc_run_id rc"]
      execJobNames_inject [of b "rc_run_id rc" b' "rc_run_id rc'"]
      execJobNames_disjoint [of b "rc_run_id rc" b' "rc_run_id rc'"]
    by (simp add: t t') (simp add: execJobNames_snd)
qed

theorem exec_names_scoped_to_run_witness:
  "\<exists>token t. DBExec_Plan mem_client sample_rc' sample_exec sample_cluster = Inr token
     \<and> unmarshal_dbexec token = Inr t \<and> dns_label (xt_ensure_name t) \<and> dns_label (xt_revert_name t)"
proof -
  have free: "DBExec_Plan_check mem_client sample_rc' n sample_cluster = None" for n
    by (simp add: DBExec_Plan_check_def mem_client_def find_obj_def lookup_def sample_cluster_def empty_cluster_def
        absent_def isNotFound_def)
  then obtain token where plan: "DBExec_Plan mem_client sample_rc' sample_exec sample_cluster = Inr token"
    by (cases "execJobNames ''index'' (rc_run_id sample_rc')") (simp add: DBExec_Plan_def sample_exec_def)
  from exec_names_scoped_to_run [OF plan plan] plan show ?thesis by blast
qed

text \<open>
  The statements of a DBExec action may run more than once in a run. The Job of a finished
  ensure is removed by the cluster after its time to live; the next Ensure of the same token finds
  no Job and creates it anew, although it was done before.
\<close>

theorem exec_repeats_without_job:
  assumes "act_dbexec act = Some da"
    and "getJob c w (rc_namespace rc, xt_ensure_name t) = Inr j"
    and "go_get (job_labels j) ScenarioLabel = rc_scenario_name rc" and "0 < job_succeeded j"
    and "getJob c w' (rc_namespace rc, xt_ensure_name t) = Inl e" and "isNotFound e"
    and "createJob c w' (exec_buildJob rc (xt_ensure_name t) (de_engine da) (de_env da) (de_ensure da)) = (None, w'')"
  shows "DBExec_Ensure c rc act (marshal_dbexec t) w = (Returned True 0, w)
    \<and> DBExec_Ensure c rc act (marshal_dbexec t) w' = (Returned False (2 * second), w'')"
  using assms by (simp add: DBExec_Ensure_def runJob_def)

theorem exec_repeats_without_job_witness:
  "\<exists>w''. DBExec_Ensure mem_client sample_rc' sample_exec (marshal_dbexec sample_xt) (executed_cluster ''index-1'' 1)
      = (Returned True 0, executed_cluster ''index-1'' 1)
    \<and> DBExec_Ensure mem_client sample_rc' sample_exec (marshal_dbexec sample_xt) sample_cluster
      = (Returned False (2 * second), w'')"
proof -
  let ?j = "exec_buildJob sample_rc' ''index-1'' ''postgres'' [] [''drop index i'']"
  obtain da where da: "act_dbexec sample_exec = Some da" "de_engine da = ''postgres''" "de_env da = []"
    "de_ensure da = [''drop index i'']" by (simp add: sample_exec_def)
  have "getJob mem_client sample_cluster (''shop'', ''index-1'') = Inl absent"
    "createJob mem_client sample_cluster ?j = (None, sample_cluster\<lparr>cl_jobs := [?j]\<rparr>)"
    by (simp_all add: mem_client_def find_obj_def mem_createJob_def lookup_def sample_cluster_def empty_cluster_def)
  moreover have "go_get (job_labels ((exec_buildJob sample_rc' n en env qs)\<lparr>job_succeeded := ok\<rparr>)) ScenarioLabel
      = rc_scenario_name sample_rc'" for n en env qs ok
    by (simp add: exec_buildJob_def Let_def ScenarioLabel_def)
  ultimately show ?thesis
    using exec_repeats_without_job [OF da(1), of mem_client "executed_cluster ''index-1'' 1" sample_rc' sample_xt _
        sample_cluster absent] executed_job [of "''index-1''" 1] da
    by (simp add: sample_xt_def sample_rc'_def absent_def isNotFound_def)
qed

end
