(* ===== verification/ReconcileProps.thy ===== *)
theory ReconcileProps
  imports Draining
begin

text \<open>
  Properties of the reconciler and its helpers, apart from the crash safety (Safety) and the way
  back (Drained): validation, when runs start and end, when the queue calls again, the finalizer
  and the leaked state, the bookkeeping.
\<close>

section \<open>Validation\<close>

text \<open>The type of an action and the one configuration it must have.\<close>

definition well_typed :: "action \<Rightarrow> bool" where
  "well_typed a \<longleftrightarrow>
     (act_type a, act_workload a \<noteq> None, act_scale a \<noteq> None, act_deploy_image a \<noteq> None,
      act_chaos_mesh a \<noteq> None, act_dbexec a \<noteq> None)
     \<in> {(ActionTypeWorkload, True, False, False, False, False),
        (ActionTypeScale, False, True, False, False, False),
        (ActionTypeDeployImage, False, False, True, False, False),
        (ActionTypeChaosMesh, False, False, False, True, False),
        (ActionTypeDBExec, False, False, False, False, True)}"

lemma check_type_well_typed: "check_type a = None \<and> Get (act_type a) \<noteq> None \<longleftrightarrow> well_typed a"
  by (cases "act_type a") (auto simp: check_type_def exactly_field_def well_typed_def)

text \<open>
  C28. validateSpec accepts a spec exactly when it has actions, their names are pairwise distinct,
  and each action has one of the five types and exactly that type's configuration.
\<close>

theorem validateSpec_accepts:
  "validateSpec Get spec = None \<longleftrightarrow>
     sp_actions spec \<noteq> [] \<and> distinct (map act_name (sp_actions spec)) \<and> list_all well_typed (sp_actions spec)"
  using check_type_well_typed by (auto simp: validateSpec_None list_all_iff)

section \<open>Runs\<close>

lemma close_run_last [simp]: "st_last_completed_run_id (close_run c g entry i v s) = i"
  by (simp add: close_run_def setCondition_def)

text \<open>
  A one-shot run is not repeated. When a manual run has been closed in the status and the
  spec has not changed, is not enabled and still holds its trigger, no run is wanted and none is
  started; a trigger with a new id starts a manual run with that id.
\<close>

theorem manual_run_once:
  assumes "sp_enabled (mj_spec_of fs) = False" and "sp_trigger (mj_spec_of fs) = Some tr"
  shows "desiredRun c (fs\<lparr>mj_status_of := close_run c' g entry (ts_run_id tr) v s\<rparr>) w = (None, w)
    \<and> (ts_run_id tr \<noteq> [] \<longrightarrow> i \<noteq> ts_run_id tr \<longrightarrow>
        (\<exists>d. desiredRun c (fs\<lparr>mj_status_of := close_run c' g entry i v s\<rparr>) w
           = (Some (RunTriggerManual, ts_run_id tr, d), w)))"
  using assms by (simp add: desiredRun_def Let_def)

definition sample_manual :: "string \<Rightarrow> maintenance_job" where
  "sample_manual i = sample_mj\<lparr>mj_spec_of := sample_spec\<lparr>sp_enabled := False,
     sp_trigger := Some \<lparr>ts_run_id = i, ts_duration = None\<rparr>\<rparr>\<rparr>"

definition sample_entry :: run_history_entry where
  "sample_entry = \<lparr>he_id = ''r1'', he_trigger = RunTriggerManual, he_started_at = 0, he_ended_at = Some 1,
     he_result = RunResultCompleted, he_message = []\<rparr>"

theorem manual_run_once_witness:
  "desiredRun mem_client ((sample_manual ''t1'')\<lparr>mj_status_of :=
     close_run mem_client 1 sample_entry ''t1'' sample_cluster sample_status\<rparr>) sample_cluster = (None, sample_cluster)"
  using manual_run_once [of "sample_manual ''t1''" "\<lparr>ts_run_id = ''t1'', ts_duration = None\<rparr>" mem_client mem_client 1
      sample_entry sample_cluster sample_status sample_cluster]
  by (simp add: sample_manual_def)

text \<open>
  A one-shot trigger that has been served is served again after an enabled run. The status
  remembers only the last completed run: when a scenario whose trigger's run is completed is
  enabled for a while, and the enabled run is closed under its own id, the old trigger counts as
  new and a manual run of the old id is wanted.
\<close>

theorem served_trigger_fires_again:
  assumes "sp_trigger (mj_spec_of fs) = Some tr" and "ts_run_id tr \<noteq> []"
    and "st_last_completed_run_id (mj_status_of fs) = ts_run_id tr"
    and "sp_enabled (mj_spec_of fs) = False"
    and "uuid \<noteq> ts_run_id tr"
  shows "desiredRun c fs w = (None, w)
    \<and> (\<exists>d. desiredRun c (fs\<lparr>mj_status_of := close_run c' g entry uuid v s\<rparr>) w'
         = (Some (RunTriggerManual, ts_run_id tr, d), w'))"
  using assms by (simp add: desiredRun_def Let_def)

theorem served_trigger_fires_again_witness:
  "\<exists>d. desiredRun mem_client ((sample_manual ''t1'')\<lparr>mj_status_of :=
     close_run mem_client 1 sample_entry ''run-7'' sample_cluster sample_status\<rparr>) sample_cluster
     = (Some (RunTriggerManual, ''t1'', d), sample_cluster)"
  using served_trigger_fires_again [of "(sample_manual ''t1'')\<lparr>mj_status_of := sample_status\<lparr>st_last_completed_run_id := ''t1''\<rparr>\<rparr>"
      "\<lparr>ts_run_id = ''t1'', ts_duration = None\<rparr>" "''run-7''" mem_client sample_cluster mem_client 1 sample_entry
      sample_cluster sample_status sample_cluster]
  by (simp add: sample_manual_def)

text \<open>
  An expired run is not kept up. When a run has reached its end, Reconcile of its scenario
  (with a valid spec, the finalizer, and not being deleted) either fails to switch the spec off
  and does nothing else, or reverts; for an enabled run it has first written the spec with
  enabled off, so that the run does not start again.
\<close>

theorem expired_run_reverted:
  assumes "getMJ (r_client r) w k = Inr fs" and "mj_deletion_timestamp fs = None"
    and "containsFinalizer (r_client r) fs FinalizerName"
    and "validateSpec (r_registry r) (mj_spec_of fs) = None"
    and "st_current_run (mj_status_of fs) = Some run" and "cr_expires_at run = Some t"
    and "t \<le> clock (r_client r) w"
  shows "(cr_trigger run = RunTriggerEnabled \<and> sp_enabled (mj_spec_of fs) \<longrightarrow>
       (\<exists>res w1. updateMJ (r_client r) w (fs\<lparr>mj_spec_of := (mj_spec_of fs)\<lparr>sp_enabled := False\<rparr>\<rparr>) = (res, w1)
          \<and> Reconcile r k w = (case res of Inl e \<Rightarrow> (failing e, w1)
                                 | Inr fs' \<Rightarrow> reconcileRevert r fs' (Some run) False w1)))
    \<and> (\<not> (cr_trigger run = RunTriggerEnabled \<and> sp_enabled (mj_spec_of fs)) \<longrightarrow>
       Reconcile r k w = reconcileRevert r fs (Some run) False w)"
  using assms
  by (auto simp: Reconcile_def reconcile_live_def reconcile_run_def expired_def Let_def split: prod.splits sum.splits)

definition sample_expired :: maintenance_job where
  "sample_expired = sample_mj\<lparr>mj_status_of := sample_status\<lparr>st_current_run :=
     Some (sample_run\<lparr>cr_expires_at := Some (2 * second)\<rparr>)\<rparr>\<rparr>"

theorem expired_run_reverted_witness:
  "\<exists>res w1. updateMJ mem_client (sample_cluster\<lparr>cl_mjs := [sample_expired]\<rparr>)
       (sample_expired\<lparr>mj_spec_of := (mj_spec_of sample_expired)\<lparr>sp_enabled := False\<rparr>\<rparr>) = (res, w1)
     \<and> Reconcile (sample_reconciler mem_client) (''shop'', ''outage'') (sample_cluster\<lparr>cl_mjs := [sample_expired]\<rparr>)
       = (case res of Inl e \<Rightarrow> (failing e, w1)
          | Inr fs' \<Rightarrow> reconcileRevert (sample_reconciler mem_client) fs'
              (Some (sample_run\<lparr>cr_expires_at := Some (2 * second)\<rparr>)) False w1)"
proof -
  have "validateSpec Get (mj_spec_of sample_expired) = None"
    by (simp add: validateSpec_accepts sample_expired_def sample_defs well_typed_def)
  with expired_run_reverted [of "sample_reconciler mem_client" "sample_cluster\<lparr>cl_mjs := [sample_expired]\<rparr>"
      "(''shop'', ''outage'')" sample_expired "sample_run\<lparr>cr_expires_at := Some (2 * second)\<rparr>" "2 * second"]
  show ?thesis
    by (simp add: mem_client_def find_obj_def lookup_def sample_expired_def sample_mj_def sample_status_def mj_key_def
        sample_cluster_def empty_cluster_def sample_spec_def sample_run_def second_def)
qed

section \<open>When the queue calls again\<close>

text \<open>
  The backoff after a failure grows with the attempts and lies between one second and sixteen:
  the cap of thirty seconds of the comment is never reached.
\<close>

theorem backoff_bounds:
  "mono backoffFor \<and> second \<le> backoffFor n \<and> backoffFor n \<le> 16 * second \<and> backoffFor 5 = 16 * second"
  using backoffFor_range [of n] backoffFor_mono by (auto simp: mono_def backoffFor_cases)

fun turn_requeue_ok :: "'w turn \<Rightarrow> bool" where
  "turn_requeue_ok (Next fs rq allApplied w) = (0 \<le> rq)"
| "turn_requeue_ok (Stop out w) = (\<forall>res. out \<noteq> Done res None)"

lemma failing_not_done [simp]: "failing e \<noteq> Done res None"
  by (simp add: failing_def)

lemma ensure_turn_requeue: "0 \<le> rq \<Longrightarrow> turn_requeue_ok (ensure_turn r impl rc now act fs rq allApplied w)"
  by (auto simp: ensure_turn_def Let_def lowerRequeue_nonneg
      split: option.splits prod.splits outcome.splits sum.splits bool.splits)

lemma activate_turn_requeue: "0 \<le> rq \<Longrightarrow> turn_requeue_ok (activate_turn r rc run now i fs rq allApplied w)"
  by (auto simp: activate_turn_def Let_def lowerRequeue_nonneg ensure_turn_requeue
      split: option.splits prod.splits sum.splits)

lemma activate_loop_requeue: "0 \<le> rq \<Longrightarrow> turn_requeue_ok (activate_loop r rc run now is fs rq allApplied w)"
proof (induction "is" arbitrary: fs rq allApplied w)
  case (Cons i "is")
  then show ?case using activate_turn_requeue [OF Cons.prems, of r rc run now i fs allApplied w]
    by (cases "activate_turn r rc run now i fs rq allApplied w") auto
qed simp

lemma steady_requeue_bounds:
  assumes "0 \<le> rq"
  shows "0 < steady_requeue c run rq w" and "steady_requeue c run rq w \<le> steadyStateResync"
    and "cr_expires_at run = Some t \<Longrightarrow> steady_requeue c run rq w \<le> max second (t - clock c w)"
proof -
  have s: "0 < steadyStateResync" "0 < second" by (simp_all add: steadyStateResync_def second_def)
  have a: "0 < lowerRequeue rq steadyStateResync" "lowerRequeue rq steadyStateResync \<le> steadyStateResync"
    using lowerRequeue_pos [OF assms s(1)] by auto
  define u where "u = (\<lambda>t. if t - clock c w < second then second else t - clock c w)"
  have u: "0 < u t" "u t \<le> max second (t - clock c w)" for t using s(2) by (auto simp: u_def)
  have eq: "steady_requeue c run rq w = (case cr_expires_at run of None \<Rightarrow> lowerRequeue rq steadyStateResync
      | Some t \<Rightarrow> lowerRequeue (lowerRequeue rq steadyStateResync) (u t))"
    by (simp add: steady_requeue_def u_def Let_def split: option.splits)
  have b: "0 < lowerRequeue (lowerRequeue rq steadyStateResync) (u t)
     \<and> lowerRequeue (lowerRequeue rq steadyStateResync) (u t) \<le> u t
     \<and> lowerRequeue (lowerRequeue rq steadyStateResync) (u t) \<le> steadyStateResync" for t
    using lowerRequeue_pos [OF less_imp_le [OF a(1)] u(1) [of t]] lowerRequeue_le [OF a(1), of "u t"] a(2) by linarith
  show "0 < steady_requeue c run rq w" using a b by (simp add: eq split: option.splits)
  show "steady_requeue c run rq w \<le> steadyStateResync" using a b by (simp add: eq split: option.splits)
  show "steady_requeue c run rq w \<le> max second (t - clock c w)" if "cr_expires_at run = Some t"
    using that b [of t] u(2) [of t] by (simp add: eq)
qed

text \<open>
  An activation that succeeds always comes back: within thirty seconds, not at once, and for a
  run with an end no later than at that end, or a second later when it is nearer than that.
\<close>

theorem activation_comes_back:
  assumes "reconcileActivate r fs run w = (Done res None, w')"
  shows "requeue res = False \<and> 0 < requeue_after res \<and> requeue_after res \<le> 30 * second
    \<and> (\<forall>t. cr_expires_at run = Some t \<longrightarrow> requeue_after res \<le> max second (t - clock (r_client r) w'))"
proof -
  let ?loop = "activate_loop r (runContext r fs (Some run)) run (clock (r_client r) w)
    [0..<length (sp_actions (mj_spec_of fs))] fs 0 True w"
  have ok: "turn_requeue_ok ?loop" by (rule activate_loop_requeue) simp
  then obtain fs1 rq b w1 where loop: "?loop = Next fs1 rq b w1"
    using assms by (cases ?loop) (auto simp: reconcileActivate_def Let_def)
  with ok have rq: "0 \<le> rq" by simp
  have "activate_finish r run fs1 rq b w1 = (Done res None, w')"
    using assms loop by (simp add: reconcileActivate_def Let_def)
  then have "res = \<lparr>requeue = False, requeue_after = steady_requeue (r_client r) run rq w'\<rparr>"
    by (auto simp: activate_finish_def Let_def requeue_in_def split: if_splits prod.splits sum.splits)
  then show ?thesis
    using steady_requeue_bounds [where c = "r_client r" and run = run and w = w', OF rq] by (auto simp: steadyStateResync_def)
qed

theorem activation_comes_back_witness:
  "\<exists>res w'. reconcileActivate (sample_reconciler mem_client) sample_mj sample_run sample_cluster = (Done res None, w')
     \<and> 0 < requeue_after res \<and> requeue_after res \<le> 30 * second"
proof -
  let ?run = "reconcileActivate (sample_reconciler mem_client) sample_mj sample_run sample_cluster"
  have "(case fst ?run of Done res None \<Rightarrow> True | _ \<Rightarrow> False)" by code_simp
  then obtain res w' where run: "?run = (Done res None, w')"
    by (cases ?run) (auto split: rec_outcome.splits option.splits)
  from activation_comes_back [OF run] run show ?thesis by blast
qed

section \<open>The passes go on\<close>

text \<open>
  What the work queue does with the outcome of a pass: after a panic, which controller-runtime turns
  into an error, and after an error it calls again; else when the result says so.
\<close>

fun comes_back :: "rec_outcome \<Rightarrow> bool" where
  "comes_back Crash = True"
| "comes_back (Done res (Some e)) = True"
| "comes_back (Done res None) = (requeue res \<or> 0 < requeue_after res \<and> requeue_after res \<le> 30 * second)"

lemma comes_back_simps [simp]:
  "comes_back (failing e)" "comes_back requeue_now" "comes_back (requeue_in d) \<longleftrightarrow> 0 < d \<and> d \<le> 30 * second"
  by (simp_all add: failing_def requeue_now_def requeue_in_def)

lemma revert_delays:
  assumes "Get ty = Some impl" and "ai_revert impl c rc token w = (Returned False d, w1)"
  shows "d \<le> 30 * second"
proof (cases ty)
  case ActionTypeWorkload
  with assms show ?thesis
    by (auto simp: Workload_Revert_def second_def split: sum.splits prod.splits option.splits if_splits)
next
  case ActionTypeScale
  with assms show ?thesis
    by (auto simp: Scale_Revert_def Let_def second_def split: sum.splits prod.splits option.splits if_splits)
next
  case ActionTypeDeployImage
  with assms show ?thesis
    by (auto simp: DeployImage_Revert_def Let_def second_def split: sum.splits prod.splits option.splits if_splits)
next
  case ActionTypeChaosMesh
  with assms show ?thesis
    by (auto simp: ChaosMesh_Revert_def second_def split: sum.splits prod.splits option.splits if_splits)
next
  case ActionTypeDBExec
  with assms show ?thesis
    by (auto simp: DBExec_Revert_def runJob_def Let_def second_def split: sum.splits prod.splits option.splits if_splits)
qed (use assms in simp)

lemma revert_last_comes_back:
  assumes "r_registry r = Get"
  shows "comes_back (fst (revert_last r fs run w))"
proof -
  have "0 < backoffFor n \<and> backoffFor n \<le> 30 * second" for n
    using backoffFor_range [of n] by (simp add: second_def)
  then show ?thesis
    using assms revert_delays
    by (fastforce simp: revert_last_def Let_def split: option.split outcome.split bool.split prod.split sum.split)
qed

lemma reconcileRevert_comes_back:
  assumes "r_registry r = Get" and "run \<noteq> None \<or> st_active_actions (mj_status_of fs) \<noteq> []"
  shows "comes_back (fst (reconcileRevert r fs run False w))"
  using assms revert_last_comes_back [OF assms(1)]
  by (auto simp: reconcileRevert_def finishRun_def Let_def split: prod.split sum.split)

lemma reconcileActivate_comes_back: "comes_back (fst (reconcileActivate r fs run w))"
proof (cases "reconcileActivate r fs run w")
  case (Pair out w')
  show ?thesis
  proof (cases "\<exists>res. out = Done res None")
    case True
    with Pair activation_comes_back [of r fs run w _ w'] show ?thesis by auto
  next
    case False
    then show ?thesis using Pair by (cases out rule: comes_back.cases) auto
  qed
qed

text \<open>C8. The passes go on while there is something to take back. For a scenario with a valid spec that is
  not being deleted, with a run or an active action, every pass ends in an error or a panic, after which
  the queue calls again, or asks for the next pass at once or within thirty seconds. So no missed event
  leaves a fault in place.\<close>

theorem passes_go_on:
  assumes "getMJ (r_client r) w k = Inr fs" and "mj_deletion_timestamp fs = None"
    and "containsFinalizer (r_client r) fs FinalizerName" and "validateSpec (r_registry r) (mj_spec_of fs) = None"
    and "r_registry r = Get" and "st_current_run (mj_status_of fs) \<noteq> None \<or> st_active_actions (mj_status_of fs) \<noteq> []"
  shows "comes_back (fst (Reconcile r k w))"
proof (cases "st_current_run (mj_status_of fs)")
  case None
  with assms reconcileRevert_comes_back [OF assms(5), of None fs w] show ?thesis
    by (simp add: Reconcile_def reconcile_live_def)
next
  case (Some run)
  have "comes_back (fst (reconcileRevert r fs' (Some run) False w'))" for fs' w'
    by (rule reconcileRevert_comes_back [OF assms(5)]) simp
  then have "comes_back (fst (reconcile_run r fs run w))"
    using reconcileActivate_comes_back [of r _ run] by (simp add: reconcile_run_def Let_def split: prod.split sum.split)
  with Some assms show ?thesis by (simp add: Reconcile_def reconcile_live_def)
qed

theorem passes_go_on_witness:
  "comes_back (fst (Reconcile (sample_reconciler mem_client) (''shop'', ''outage'') sample_cluster))"
proof (rule passes_go_on)
  show "getMJ (r_client (sample_reconciler mem_client)) sample_cluster (''shop'', ''outage'') = Inr sample_mj"
    by (simp add: mem_client_def sample_defs find_obj_def lookup_def mj_key_def)
  show "validateSpec (r_registry (sample_reconciler mem_client)) (mj_spec_of sample_mj) = None"
    by code_simp
qed (simp_all add: sample_defs mem_client_def)

end
