(* ===== verification/Release.thy ===== *)
theory Release
  imports Safety Draining
begin

text \<open>
  What a Revert may write (the contract \<open>revert_contract\<close>, interpreted for the five actions), and
  the two ways in which the finalizer of a resource is released: drained, or with every revert
  token saved in the ConfigMap of leaked state.
\<close>

section \<open>What a Revert may write\<close>

definition revert_writes :: "string \<Rightarrow> action_type \<Rightarrow> raw_json \<Rightarrow> api_call \<Rightarrow> bool" where
  "revert_writes ns ty token call \<longleftrightarrow>
     (case ty of
        ActionTypeWorkload \<Rightarrow>
          (case unmarshal_workload token of Inr t \<Rightarrow> call = CallDeleteJob (wt_key t) | Inl e \<Rightarrow> False)
      | ActionTypeScale \<Rightarrow>
          (case unmarshal_scale token of Inr t \<Rightarrow> call = CallPatchDeployment (st_key t) | Inl e \<Rightarrow> False)
      | ActionTypeDeployImage \<Rightarrow>
          (case unmarshal_deploy_image token of Inr t \<Rightarrow> call = CallPatchDeployment (dt_key t) | Inl e \<Rightarrow> False)
      | ActionTypeChaosMesh \<Rightarrow>
          (case unmarshal_chaos token of Inr t \<Rightarrow> call = CallDeleteChaos (ct_kind t) (ct_key t) | Inl e \<Rightarrow> False)
      | ActionTypeDBExec \<Rightarrow>
          (case unmarshal_dbexec token of
             Inr t \<Rightarrow> call \<in> {CallCreateJob (ns, xt_revert_name t), CallDeleteJob (ns, xt_revert_name t)}
           | Inl e \<Rightarrow> False)
      | ActionTypeOther s \<Rightarrow> False)"

locale revert_contract =
  fixes impl :: "('w \<times> api_call list) action_impl"
    and ty :: action_type
    and c :: "'w client"
    and retry :: "('w \<times> api_call list) retrier"
  assumes writes_named:
    "keyed c \<Longrightarrow> ai_revert impl (logged retry c) rc token wl = (out, wl') \<Longrightarrow>
     appends (revert_writes (rc_namespace rc) ty token) wl wl'"
begin

text \<open>A Revert never updates a scenario's spec, nor the leaked state.\<close>

lemma no_update:
  assumes "keyed c" and "ai_revert impl (logged retry c) rc token wl = (out, wl')" and "snd wl = log"
  shows "\<exists>calls. snd wl' = log @ calls \<and> (\<forall>fs. CallUpdateMJ fs \<notin> set calls)"
proof -
  obtain calls where calls: "snd wl' = log @ calls" "list_all (revert_writes (rc_namespace rc) ty token) calls"
    using writes_named [OF assms(1,2)] assms(3) by (auto simp: appends_def)
  moreover have "\<not> revert_writes ns ty token (CallUpdateMJ fs)" for ns fs
    by (auto simp: revert_writes_def split: action_type.splits sum.splits)
  ultimately show ?thesis by (auto simp: list_all_iff)
qed

end

interpretation workload_revert: revert_contract Workload ActionTypeWorkload c retry
proof
  fix rc token wl out wl'
  assume "keyed c" and "ai_revert Workload (logged retry c) rc token wl = (out, wl')"
  then show "appends (revert_writes (rc_namespace rc) ActionTypeWorkload token) wl wl'"
    by (cases wl)
       (auto simp: Workload_Revert_def revert_writes_def add_call_def appends_def keyed_reads
         split: sum.splits if_splits option.splits prod.splits)
qed

interpretation scale_revert: revert_contract Scale ActionTypeScale c retry
proof
  fix rc token wl out wl'
  assume "keyed c" and "ai_revert Scale (logged retry c) rc token wl = (out, wl')"
  then show "appends (revert_writes (rc_namespace rc) ActionTypeScale token) wl wl'"
    by (cases wl)
       (auto simp: Scale_Revert_def revert_writes_def add_call_def appends_def keyed_reads Let_def
         split: sum.splits if_splits option.splits prod.splits)
qed

interpretation deploy_revert: revert_contract DeployImage ActionTypeDeployImage c retry
proof
  fix rc token wl out wl'
  assume k: "keyed c" and "ai_revert DeployImage (logged retry c) rc token wl = (out, wl')"
  then have run: "DeployImage_Revert (logged retry c) rc token wl = (out, wl')" by simp
  show "appends (revert_writes (rc_namespace rc) ActionTypeDeployImage token) wl wl'"
  proof (cases "unmarshal_deploy_image token")
    case (Inr t)
    with run show ?thesis
      by (cases wl; cases "getDeployment c (fst wl) (dt_key t)")
         (auto simp: DeployImage_Revert_def revert_writes_def add_call_def appends_def keyed_reads [OF k] Let_def
           split: if_splits option.splits prod.splits)
  qed (use run in \<open>auto simp: DeployImage_Revert_def\<close>)
qed

interpretation chaos_revert: revert_contract ChaosMesh ActionTypeChaosMesh c retry
proof
  fix rc token wl out wl'
  assume "keyed c" and "ai_revert ChaosMesh (logged retry c) rc token wl = (out, wl')"
  then show "appends (revert_writes (rc_namespace rc) ActionTypeChaosMesh token) wl wl'"
    by (cases wl)
       (auto simp: ChaosMesh_Revert_def revert_writes_def add_call_def appends_def keyed_reads
         split: sum.splits if_splits option.splits prod.splits)
qed

interpretation exec_revert: revert_contract DBExec ActionTypeDBExec c retry
proof
  fix rc token wl out wl'
  assume "keyed c" and "ai_revert DBExec (logged retry c) rc token wl = (out, wl')"
  then show "appends (revert_writes (rc_namespace rc) ActionTypeDBExec token) wl wl'"
    by (auto simp: DBExec_Revert_def revert_writes_def intro: appends_mono [OF runJob_appends]
         split: sum.splits if_splits)
qed

lemma revert_appends:
  assumes "keyed c" and "Get ty = Some impl"
    and "ai_revert impl (logged retry c) rc token wl = (out, wl')"
  shows "appends (revert_writes (rc_namespace rc) ty token) wl wl'"
proof (cases ty)
  case ActionTypeWorkload
  with assms(2) have "impl = Workload" by (simp del: impl_simps)
  from workload_revert.writes_named [OF assms(1) assms(3) [unfolded this]] ActionTypeWorkload show ?thesis by simp
next
  case ActionTypeScale
  with assms(2) have "impl = Scale" by (simp del: impl_simps)
  from scale_revert.writes_named [OF assms(1) assms(3) [unfolded this]] ActionTypeScale show ?thesis by simp
next
  case ActionTypeDeployImage
  with assms(2) have "impl = DeployImage" by (simp del: impl_simps)
  from deploy_revert.writes_named [OF assms(1) assms(3) [unfolded this]] ActionTypeDeployImage show ?thesis by simp
next
  case ActionTypeChaosMesh
  with assms(2) have "impl = ChaosMesh" by (simp del: impl_simps)
  from chaos_revert.writes_named [OF assms(1) assms(3) [unfolded this]] ActionTypeChaosMesh show ?thesis by simp
next
  case ActionTypeDBExec
  with assms(2) have "impl = DBExec" by (simp del: impl_simps)
  from exec_revert.writes_named [OF assms(1) assms(3) [unfolded this]] ActionTypeDBExec show ?thesis by simp
next
  case (ActionTypeOther s)
  with assms(2) show ?thesis by simp
qed

section \<open>The calls of a Revert pass\<close>

definition of_last :: "maintenance_job \<Rightarrow> api_call \<Rightarrow> bool" where
  "of_last fs = revert_writes (mj_namespace fs) (aa_type (last (st_active_actions (mj_status_of fs))))
     (aa_revert (last (st_active_actions (mj_status_of fs))))"

definition one_persist :: "api_call list \<Rightarrow> bool" where
  "one_persist calls \<longleftrightarrow> calls = [] \<or> (\<exists>fs. calls = [CallPersisted fs])"

lemma one_persistI [intro, simp]: "one_persist []" "one_persist [CallPersisted fs]"
  by (auto simp: one_persist_def)

lemma patchStatus_persists:
  assumes "retry_ok retry" and "r_client r = logged retry c" and "patchStatus r fs m wl = (res, wl')"
  shows "\<exists>post. snd wl' = snd wl @ post \<and> one_persist post"
proof -
  obtain w log w' log' where wl: "wl = (w, log)" "wl' = (w', log')" by fastforce
  from patchStatus_log [OF assms(1,2)] assms(3) wl
  have "log' = (case res of Inl e \<Rightarrow> log | Inr fs' \<Rightarrow> log @ [CallPersisted fs'])" by blast
  with wl show ?thesis by (cases res) auto
qed

lemma revert_last_log:
  assumes laws: "retry_ok retry" "keyed c" and r: "r_client r = logged retry c" "r_registry r = Get"
    and run: "revert_last r fs run wl = (out, wl')"
  shows "\<exists>calls post. snd wl' = snd wl @ calls @ post \<and> list_all (of_last fs) calls \<and> one_persist post"
proof (cases "st_active_actions (mj_status_of fs) = [] \<or>
    r_registry r (aa_type (last (st_active_actions (mj_status_of fs)))) = None")
  case True
  with run have "wl' = wl" by (auto simp: revert_last_def Let_def split: if_splits)
  then show ?thesis by (intro exI [of _ "[]"]) simp
next
  case False
  let ?aa = "last (st_active_actions (mj_status_of fs))"
  from False obtain impl where impl: "r_registry r (aa_type ?aa) = Some impl" by blast
  obtain o1 wl1 where rev: "ai_revert impl (logged retry c) (runContext r fs run) (aa_revert ?aa) wl = (o1, wl1)"
    by (meson surj_pair)
  have "Get (aa_type ?aa) = Some impl" using impl r by simp
  from revert_appends [OF laws(2) this rev] obtain calls where
    calls: "snd wl1 = snd wl @ calls" "list_all (of_last fs) calls"
    by (auto simp: appends_def of_last_def runContext_def)
  have "\<exists>post. snd wl' = snd wl1 @ post \<and> one_persist post"
  proof -
    have "updated r wl1 wl'"
      using revert_last_updated [of fs r impl run wl o1 wl1] False impl rev r run by simp
    moreover have "snd (recordEvent (r_client r) wl1 e) = snd wl1" for e using r by simp
    ultimately show ?thesis
      unfolding updated_def using patchStatus_persists [OF laws(1) r(1)] one_persistI(1) by (metis append_Nil2)
  qed
  with calls show ?thesis by auto
qed

lemma reconcileRevert_log:
  assumes laws: "retry_ok retry" "keyed c" and r: "r_client r = logged retry c" "r_registry r = Get"
    and run: "reconcileRevert r fs run del (w, []) = (out, (w', log))"
    and ne: "st_active_actions (mj_status_of fs) \<noteq> []"
  shows "\<exists>pre fs1 calls post. log = pre @ calls @ post
    \<and> ((pre = [] \<and> fs1 = fs) \<or> pre = [CallPersisted fs1])
    \<and> list_all (of_last fs1) calls \<and> one_persist post"
proof (cases "st_phase (mj_status_of fs) \<noteq> PhaseReverting \<and> st_phase (mj_status_of fs) \<noteq> PhaseDegraded")
  case False
  with run ne have "revert_last r fs run (w, []) = (out, (w', log))" by (auto simp: reconcileRevert_def)
  from revert_last_log [OF laws r this] show ?thesis by fastforce
next
  case True
  obtain res w1 log1 where p: "patchStatus r fs (\<lambda>v s. s\<lparr>st_phase := PhaseReverting\<rparr>) (w, []) = (res, (w1, log1))"
    using prod_cases3 by blast
  note log1 = patchStatus_log [OF laws(1) r(1) p]
  show ?thesis
  proof (cases res)
    case (Inl e)
    with run True ne p have "log = log1" by (auto simp: reconcileRevert_def)
    with log1 Inl show ?thesis by (intro exI [of _ "[]"] exI [of _ fs]) simp
  next
    case (Inr fs1)
    with run True ne p have "revert_last r fs1 run (w1, log1) = (out, (w', log))"
      by (auto simp: reconcileRevert_def)
    from revert_last_log [OF laws r this] obtain calls post where
      "log = log1 @ calls @ post" "list_all (of_last fs1) calls" "one_persist post" by auto
    with log1 Inr show ?thesis
      by (intro exI [of _ "[CallPersisted fs1]"] exI [of _ fs1] exI [of _ calls] exI [of _ post]) simp
  qed
qed

lemma of_last_no_update: "\<not> of_last fs (CallUpdateMJ fs')"
  by (auto simp: of_last_def revert_writes_def split: action_type.splits sum.splits)

lemma reconcileRevert_no_update:
  assumes "retry_ok retry" "keyed c" "r_client r = logged retry c" "r_registry r = Get"
    and "reconcileRevert r fs run del (w, []) = (out, (w', log))" and "st_active_actions (mj_status_of fs) \<noteq> []"
  shows "CallUpdateMJ fs' \<notin> set log"
proof -
  obtain pre fs1 calls post where
    log: "log = pre @ calls @ post" "(pre = [] \<and> fs1 = fs) \<or> pre = [CallPersisted fs1]"
    and of_l: "list_all (of_last fs1) calls" and post: "one_persist post"
    using reconcileRevert_log [OF assms] by blast
  have "CallUpdateMJ fs' \<notin> set calls" using of_l of_last_no_update [of fs1 fs'] by (auto simp: list_all_iff)
  with log post show ?thesis by (auto simp: one_persist_def)
qed

section \<open>The leaked state\<close>

lemma leak_key_inject: "leak_key fs aa ts = leak_key fs bb ts \<longleftrightarrow> aa_name aa = aa_name bb"
  by (simp add: leak_key_def)

lemma leak_foldl:
  assumes "distinct (map aa_name aas)"
  shows "foldl (\<lambda>m aa. m(leak_key fs aa ts \<mapsto> aa_revert aa)) data aas k =
    (case find (\<lambda>aa. leak_key fs aa ts = k) aas of Some aa \<Rightarrow> Some (aa_revert aa) | None \<Rightarrow> data k)"
  using assms
proof (induction aas arbitrary: data)
  case (Cons aa aas)
  have "find (\<lambda>bb. leak_key fs bb ts = leak_key fs aa ts) aas = None"
    using Cons.prems by (auto simp: find_None_iff leak_key_inject image_iff)
  with Cons show ?case by (auto split: option.splits)
qed simp

lemma leak_data_token:
  assumes "distinct (map aa_name (st_active_actions (mj_status_of fs)))" and "aa \<in> set (st_active_actions (mj_status_of fs))"
  shows "leak_data fs ts data (leak_key fs aa ts) = Some (aa_revert aa)"
proof -
  let ?p = "\<lambda>bb. leak_key fs bb ts = leak_key fs aa ts"
  obtain bb where bb: "find ?p (st_active_actions (mj_status_of fs)) = Some bb"
    using assms(2) by (cases "find ?p (st_active_actions (mj_status_of fs))") (auto simp: find_None_iff)
  then have "bb \<in> set (st_active_actions (mj_status_of fs))" "aa_name bb = aa_name aa"
    by (auto simp: find_Some_iff leak_key_inject)
  with assms have "bb = aa" by (metis distinct_map inj_onD)
  with bb show ?thesis by (simp add: leak_data_def leak_foldl [OF assms(1)])
qed

lemma leak_data_other:
  assumes "distinct (map aa_name (st_active_actions (mj_status_of fs)))"
    and "k \<notin> (\<lambda>aa. leak_key fs aa ts) ` set (st_active_actions (mj_status_of fs))"
  shows "leak_data fs ts data k = data k"
proof -
  have "find (\<lambda>aa. leak_key fs aa ts = k) (st_active_actions (mj_status_of fs)) = None"
    using assms(2) by (auto simp: find_None_iff)
  then show ?thesis by (simp add: leak_data_def leak_foldl [OF assms(1)])
qed

lemma leak_once_log:
  assumes "r_client r = logged retry c" and "leak_once r fs wl = (res, wl')"
  shows "(\<exists>data. snd wl' = snd wl @ [CallConfigMap \<lparr>cm_name = LeakedStateConfigMap, cm_namespace = r_namespace r,
             cm_data = leak_data fs (utc_stamp (clock c (fst wl))) data\<rparr>])
    \<or> (\<exists>e. res = Inl e \<and> wl' = wl)"
  using assms
  by (auto simp: leak_once_def Let_def add_call_def split: sum.splits if_splits option.splits prod.splits)

lemma leakState_log:
  assumes "retry_ok retry" and "r_client r = logged retry c" and "leakState r fs wl = (res, wl')"
    and no: "\<forall>fs. CallUpdateMJ fs \<notin> set (snd wl)"
  shows "(\<forall>fs. CallUpdateMJ fs \<notin> set (snd wl'))
    \<and> (\<forall>fs'. res = Inr fs' \<longrightarrow> (\<exists>ts data. CallConfigMap \<lparr>cm_name = LeakedStateConfigMap,
           cm_namespace = r_namespace r, cm_data = leak_data fs ts data\<rparr> \<in> set (snd wl')))"
proof -
  have documented: "conflict_retry retry" using assms(1) by (simp add: retry_ok_iff)
  have run: "retry (leak_once r fs) wl = (res, wl')" using assms(2,3) by (simp add: leakState_def)
  have keep: "\<forall>fs. CallUpdateMJ fs \<notin> set (snd wl1)"
    if "\<forall>fs. CallUpdateMJ fs \<notin> set (snd wl0)" "leak_once r fs wl0 = (r1, wl1)" for wl0 r1 wl1
    using leak_once_log [OF assms(2) that(2)] that(1) by auto
  obtain wl0 where wl0: "\<forall>fs. CallUpdateMJ fs \<notin> set (snd wl0)" "leak_once r fs wl0 = (res, wl')"
    using conflict_retry.last_run_from [OF documented run, where I = "\<lambda>wl. \<forall>fs. CallUpdateMJ fs \<notin> set (snd wl)"] no keep by blast
  from leak_once_log [OF assms(2) wl0(2)] keep [OF wl0] show ?thesis by fastforce
qed

section \<open>The properties\<close>

text \<open>
  C11. A Revert pass writes what the last active action's token names, and nothing else. Of any
  client: the calls of a pass of \<open>reconcileRevert\<close> with active actions are at most one status
  update that announces it, then the writes that belong to the token of the last active action of
  the status so acknowledged (or read, without one), then at most one status update with the
  outcome.
\<close>

theorem revert_writes_by_last_token:
  assumes "retry_ok retry" and "keyed c" and "r_client r = logged retry c" and "r_registry r = Get"
    and "st_active_actions (mj_status_of fs) \<noteq> []"
    and "reconcileRevert r fs run del (w, []) = (out, (w', log))"
  shows "\<exists>announce fs1 calls outcome. log = announce @ calls @ outcome
    \<and> ((announce = [] \<and> fs1 = fs) \<or> announce = [CallPersisted fs1])
    \<and> list_all (revert_writes (mj_namespace fs1) (aa_type (last (st_active_actions (mj_status_of fs1))))
         (aa_revert (last (st_active_actions (mj_status_of fs1))))) calls
    \<and> one_persist outcome"
  using reconcileRevert_log [OF assms(1-4,6,5)] unfolding of_last_def .

theorem revert_writes_by_last_token_witness:
  "\<exists>announce fs1 calls outcome. snd (snd (reconcileRevert (sample_reconciler (logged (retry_steps 4) mem_client))
       sample_leaving (Some sample_run) True (sample_leaving_cluster, []))) = announce @ calls @ outcome
    \<and> ((announce = [] \<and> fs1 = sample_leaving) \<or> announce = [CallPersisted fs1])
    \<and> list_all (revert_writes (mj_namespace fs1) (aa_type (last (st_active_actions (mj_status_of fs1))))
         (aa_revert (last (st_active_actions (mj_status_of fs1))))) calls
    \<and> one_persist outcome"
proof -
  let ?r = "sample_reconciler (logged (retry_steps 4) mem_client)"
  obtain out w' log where run:
    "reconcileRevert ?r sample_leaving (Some sample_run) True (sample_leaving_cluster, []) = (out, (w', log))"
    using prod_cases3 by blast
  have keyed: "keyed mem_client" by (simp add: mem_client_def)
  have "st_active_actions (mj_status_of sample_leaving) \<noteq> []" by (simp add: sample_leaving_def)
  from revert_writes_by_last_token [OF retry_steps_ok keyed sample_reconciler_simps(1,2) this run]
  show ?thesis unfolding run snd_conv .
qed


definition sample_forced :: maintenance_job where
  "sample_forced = sample_leaving\<lparr>mj_annotations := [ForceReleaseAnnotation \<mapsto> ''true'']\<rparr>"


end
