(* ===== verification/Invariant.thy ===== *)
theory Invariant
  imports ReconcileProps
begin

text \<open>
  The invariant of the stored status: active actions have distinct names and the history has at
  most ten entries. The reconciler never sends a status that breaks it, if those it reads do not.
  This is stated by replacing the client's status update, for statuses that break the invariant,
  by anything at all (\<open>guarded\<close>): Reconcile cannot tell the difference.
\<close>

definition status_ok :: "mj_status \<Rightarrow> bool" where
  "status_ok s \<longleftrightarrow> distinct (map aa_name (st_active_actions s)) \<and> length (st_history s) \<le> historyCap"

definition reads_ok :: "'w client \<Rightarrow> bool" where
  "reads_ok c \<longleftrightarrow> (\<forall>w k fs. getMJ c w k = Inr fs \<longrightarrow> status_ok (mj_status_of fs))"

definition guarded ::
  "('w \<Rightarrow> maintenance_job \<Rightarrow> (go_error + maintenance_job) \<times> 'w) \<Rightarrow> 'w client \<Rightarrow> 'w client" where
  "guarded g c = c\<lparr>updateMJStatus := (\<lambda>w fs. if status_ok (mj_status_of fs) then updateMJStatus c w fs else g w fs)\<rparr>"

lemma guarded_simps [simp]:
  "getJob (guarded g c) = getJob c" "createJob (guarded g c) = createJob c" "deleteJob (guarded g c) = deleteJob c"
  "getDeployment (guarded g c) = getDeployment c" "patchDeployment (guarded g c) = patchDeployment c"
  "getChaos (guarded g c) = getChaos c" "createChaos (guarded g c) = createChaos c"
  "deleteChaos (guarded g c) = deleteChaos c" "getMJ (guarded g c) = getMJ c" "updateMJ (guarded g c) = updateMJ c"
  "getConfigMap (guarded g c) = getConfigMap c" "createConfigMap (guarded g c) = createConfigMap c"
  "updateConfigMap (guarded g c) = updateConfigMap c" "retryOnConflict (guarded g c) = retryOnConflict c"
  "recordEvent (guarded g c) = recordEvent c" "clock (guarded g c) = clock c" "newUUID (guarded g c) = newUUID c"
  "containsFinalizer (guarded g c) = containsFinalizer c" "addFinalizer (guarded g c) = addFinalizer c"
  "removeFinalizer (guarded g c) = removeFinalizer c" "setStatusCondition (guarded g c) = setStatusCondition c"
  "isStatusConditionTrue (guarded g c) = isStatusConditionTrue c"
  "removeStatusCondition (guarded g c) = removeStatusCondition c"
  by (simp_all add: guarded_def)

section \<open>The mutations keep the invariant\<close>

definition keeps_ok :: "('w \<Rightarrow> mj_status \<Rightarrow> mj_status) \<Rightarrow> bool" where
  "keeps_ok m \<longleftrightarrow> (\<forall>v s. status_ok s \<longrightarrow> status_ok (m v s))"

lemma status_ok_frame [simp]:
  "status_ok (s\<lparr>st_phase := p\<rparr>) = status_ok s" "status_ok (s\<lparr>st_observed_generation := n\<rparr>) = status_ok s"
  "status_ok (s\<lparr>st_conditions := cs\<rparr>) = status_ok s" "status_ok (s\<lparr>st_current_run := run\<rparr>) = status_ok s"
  "status_ok (s\<lparr>st_last_completed_run_id := i\<rparr>) = status_ok s"
  by (simp_all add: status_ok_def)

lemma setCondition_ok [simp]: "status_ok (setCondition c g ty b re m v s) = status_ok s"
  by (simp add: setCondition_def)

lemma statusMutation_ok:
  "(\<And>a. aa_name (f a) = aa_name a) \<Longrightarrow> keeps_ok (statusMutation n f)"
  by (simp add: keeps_ok_def statusMutation_def status_ok_def update_active_names)

lemma record_token_ok: "keeps_ok (record_token aa)"
  by (auto simp: keeps_ok_def record_token_def status_ok_def findActiveAction_None)

lemma distinct_without:
  assumes "distinct (map f xs)"
  shows "distinct (map f (take i xs @ drop (Suc i) xs))"
proof -
  have "distinct (take i (map f xs) @ drop (Suc i) (map f xs))"
    using assms set_take_disj_set_drop_if_distinct [of "map f xs" i "Suc i"] by simp
  then show ?thesis by (simp only: take_map drop_map map_append)
qed

lemma drop_active_ok: "keeps_ok (drop_active n)"
  using distinct_without [of aa_name]
  by (auto simp: keeps_ok_def drop_active_def status_ok_def simp del: map_append split: option.splits)

lemma close_run_ok: "keeps_ok (close_run c g entry i)"
  by (simp add: keeps_ok_def close_run_def status_ok_def appendHistory_length setCondition_def)

lemma revert_failed_ok: "keeps_ok (revert_failed c g aa n e)"
  using statusMutation_ok [of "mark_revert_failed n e" "aa_name aa"]
  by (simp add: keeps_ok_def revert_failed_def Let_def mark_revert_failed_def)

lemma marks_ok:
  "keeps_ok (statusMutation n (mark_failed e))" "keeps_ok (statusMutation n (mark_applied now))"
  "keeps_ok (statusMutation n mark_reverting)"
  by (rule statusMutation_ok, simp add: mark_failed_def mark_applied_def mark_reverting_def Let_def)+

lemmas mutations_ok = marks_ok record_token_ok drop_active_ok close_run_ok revert_failed_ok

section \<open>No step can tell the guarded client from the client\<close>

lemma action_guarded:
  assumes "Get ty = Some impl"
  shows "ai_plan impl (guarded g c) = ai_plan impl c" and "ai_ensure impl (guarded g c) = ai_ensure impl c"
    and "ai_revert impl (guarded g c) = ai_revert impl c"
proof -
  have run: "runJob (guarded g c) = runJob c" for g and c :: "'a client"
    unfolding fun_eq_iff runJob_def guarded_simps by simp
  have check: "check_holder (guarded g c) = check_holder c" "DBExec_Plan_check (guarded g c) = DBExec_Plan_check c"
    for g and c :: "'a client"
    unfolding fun_eq_iff check_holder_def DBExec_Plan_check_def guarded_simps by simp_all
  note defs = Workload_Plan_def Workload_Ensure_def Workload_Revert_def Scale_Plan_def Scale_Ensure_def
    Scale_Revert_def DeployImage_Plan_def DeployImage_Ensure_def DeployImage_Revert_def ChaosMesh_Plan_def
    ChaosMesh_Ensure_def ChaosMesh_Revert_def DBExec_Plan_def DBExec_Ensure_def DBExec_Revert_def
  have plan: "Workload_Plan (guarded g c) = Workload_Plan c" "Scale_Plan (guarded g c) = Scale_Plan c"
    "DeployImage_Plan (guarded g c) = DeployImage_Plan c" "ChaosMesh_Plan (guarded g c) = ChaosMesh_Plan c"
    "DBExec_Plan (guarded g c) = DBExec_Plan c" for g and c :: "'a client"
    unfolding fun_eq_iff defs guarded_simps check by simp_all
  have ensure: "Workload_Ensure (guarded g c) = Workload_Ensure c" "Scale_Ensure (guarded g c) = Scale_Ensure c"
    "DeployImage_Ensure (guarded g c) = DeployImage_Ensure c" "ChaosMesh_Ensure (guarded g c) = ChaosMesh_Ensure c"
    "DBExec_Ensure (guarded g c) = DBExec_Ensure c" for g and c :: "'a client"
    unfolding fun_eq_iff defs guarded_simps check run by simp_all
  have revert: "Workload_Revert (guarded g c) = Workload_Revert c" "Scale_Revert (guarded g c) = Scale_Revert c"
    "DeployImage_Revert (guarded g c) = DeployImage_Revert c" "ChaosMesh_Revert (guarded g c) = ChaosMesh_Revert c"
    "DBExec_Revert (guarded g c) = DBExec_Revert c" for g and c :: "'a client"
    unfolding fun_eq_iff defs guarded_simps run by simp_all
  show "ai_plan impl (guarded g c) = ai_plan impl c" "ai_ensure impl (guarded g c) = ai_ensure impl c"
    "ai_revert impl (guarded g c) = ai_revert impl c"
    using assms by (cases ty; auto simp: plan ensure revert)+
qed

definition guarded_rec ::
  "('w \<Rightarrow> maintenance_job \<Rightarrow> (go_error + maintenance_job) \<times> 'w) \<Rightarrow> 'w reconciler \<Rightarrow> 'w reconciler" where
  "guarded_rec g r = r\<lparr>r_client := guarded g (r_client r)\<rparr>"

lemma guarded_rec_simps [simp]:
  "r_client (guarded_rec g r) = guarded g (r_client r)" "r_registry (guarded_rec g r) = r_registry r"
  "r_namespace (guarded_rec g r) = r_namespace r"
  by (simp_all add: guarded_rec_def)

lemma parts_guarded [simp]:
  "eventf (guarded_rec g r) = eventf r" "runContext (guarded_rec g r) = runContext r"
  "setCondition (guarded g c) = setCondition c" "close_run (guarded g c) = close_run c"
  "revert_failed (guarded g c) = revert_failed c" "desiredRun (guarded g c) = desiredRun c"
  "steady_requeue (guarded g c) = steady_requeue c" "leakState (guarded_rec g r) = leakState r"
proof -
  have set: "setCondition (guarded g c) = setCondition c" for c :: "'a client"
    unfolding fun_eq_iff setCondition_def guarded_simps by simp
  have leak: "leak_once (guarded_rec g r) = leak_once r"
    unfolding fun_eq_iff leak_once_def guarded_rec_simps guarded_simps Let_def by simp
  show "eventf (guarded_rec g r) = eventf r"
    unfolding fun_eq_iff eventf_def by simp
  show "runContext (guarded_rec g r) = runContext r"
    unfolding fun_eq_iff runContext_def by (simp add: guarded_rec_def)
  show "setCondition (guarded g c) = setCondition c" by (rule set)
  show "close_run (guarded g c) = close_run c"
    unfolding fun_eq_iff close_run_def set guarded_simps by simp
  show "revert_failed (guarded g c) = revert_failed c"
    unfolding fun_eq_iff revert_failed_def set by simp
  show "desiredRun (guarded g c) = desiredRun c"
    unfolding fun_eq_iff desiredRun_def guarded_simps by simp
  show "steady_requeue (guarded g c) = steady_requeue c"
    unfolding fun_eq_iff steady_requeue_def guarded_simps by simp
  show "leakState (guarded_rec g r) = leakState r"
    unfolding fun_eq_iff leakState_def leak by simp
qed

lemma patchStatus_guarded [simp]:
  assumes "reads_ok (r_client r)" "keeps_ok m"
  shows "patchStatus (guarded_rec g r) fs m = patchStatus r fs m"
proof -
  have "patch_once (guarded g (r_client r)) fs m w = patch_once (r_client r) fs m w" for w
  proof (cases "getMJ (r_client r) w (mj_key fs)")
    case (Inr latest)
    with assms(1) have "status_ok (mj_status_of latest)" unfolding reads_ok_def by blast
    with assms(2) have "status_ok (m w (mj_status_of latest))" by (simp add: keeps_ok_def)
    with Inr show ?thesis by (simp add: patch_once_def) (simp add: guarded_def)
  qed (simp add: patch_once_def)
  then have "patch_once (guarded g (r_client r)) fs m = patch_once (r_client r) fs m" by (rule ext)
  then show ?thesis by (intro ext) (simp add: patchStatus_def)
qed

lemma conditions_ok [simp]:
  "keeps_ok (\<lambda>v s. setCondition c n ty b re msg v s)" "keeps_ok (setCondition c n ty b re msg)"
  "keeps_ok (\<lambda>v s. setCondition c n ty b re msg v (s\<lparr>st_phase := p\<rparr>))"
  "keeps_ok (\<lambda>v s. s\<lparr>st_phase := p\<rparr>)" "keeps_ok (\<lambda>v s. s\<lparr>st_current_run := run, st_phase := p\<rparr>)"
  "keeps_ok (\<lambda>v s. s\<lparr>st_phase := p, st_conditions := f s\<rparr>)"
  "keeps_ok (\<lambda>v s. let s1 = s\<lparr>st_phase := p\<rparr> in if b' then setCondition c n ty b re msg v s1 else s1)"
  by (simp_all add: keeps_ok_def Let_def)

lemmas branch_congs = sum.case_cong option.case_cong prod.case_cong outcome.case_cong bool.case_cong turn.case_cong if_cong

definition sound :: "'w reconciler \<Rightarrow> bool" where
  "sound r \<longleftrightarrow> reads_ok (r_client r) \<and> r_registry r = Get"

lemma soundD: "sound r \<Longrightarrow> reads_ok (r_client r)" "sound r \<Longrightarrow> r_registry r = Get"
  by (simp_all add: sound_def)

lemma maybeStartRun_guarded: "sound r \<Longrightarrow> maybeStartRun (guarded_rec g r) = maybeStartRun r"
  unfolding fun_eq_iff maybeStartRun_def by (simp add: soundD Let_def cong: branch_congs)

lemma ensure_turn_guarded:
  "\<lbrakk>sound r; Get ty = Some impl\<rbrakk> \<Longrightarrow> ensure_turn (guarded_rec g r) impl = ensure_turn r impl"
  unfolding fun_eq_iff ensure_turn_def
  by (simp add: soundD action_guarded mutations_ok Let_def cong: branch_congs)

lemma activate_turn_guarded:
  assumes "sound r"
  shows "activate_turn (guarded_rec g r) = activate_turn r"
proof (intro ext)
  fix rc run now i fs rq all w
  show "activate_turn (guarded_rec g r) rc run now i fs rq all w = activate_turn r rc run now i fs rq all w"
  proof (cases "r_registry r (act_type (sp_actions (mj_spec_of fs) ! i))")
    case None
    with assms show ?thesis by (simp add: activate_turn_def soundD Let_def)
  next
    case (Some impl)
    with assms show ?thesis
      by (simp add: activate_turn_def soundD ensure_turn_guarded action_guarded record_token_ok Let_def
          cong: branch_congs)
  qed
qed

lemma activate_loop_guarded:
  "sound r \<Longrightarrow> activate_loop (guarded_rec g r) rc run now is fs rq all w = activate_loop r rc run now is fs rq all w"
  by (induction r rc run now "is" fs rq all w rule: activate_loop.induct)
    (simp_all add: activate_turn_guarded split: turn.split)

lemma activate_finish_guarded: "sound r \<Longrightarrow> activate_finish (guarded_rec g r) = activate_finish r"
  unfolding fun_eq_iff activate_finish_def
  by (simp add: soundD Let_def cong: branch_congs)

lemma reconcileActivate_guarded: "sound r \<Longrightarrow> reconcileActivate (guarded_rec g r) = reconcileActivate r"
  unfolding fun_eq_iff reconcileActivate_def
  by (simp add: activate_loop_guarded activate_finish_guarded Let_def cong: branch_congs)

lemma finishRun_guarded: "sound r \<Longrightarrow> finishRun (guarded_rec g r) = finishRun r"
  unfolding fun_eq_iff finishRun_def
  by (simp add: soundD close_run_ok Let_def cong: branch_congs)

lemma revert_last_guarded:
  assumes "sound r"
  shows "revert_last (guarded_rec g r) = revert_last r"
proof (intro ext)
  fix fs run w
  show "revert_last (guarded_rec g r) fs run w = revert_last r fs run w"
  proof (cases "r_registry r (aa_type (last (st_active_actions (mj_status_of fs))))")
    case None
    with assms show ?thesis by (simp add: revert_last_def soundD Let_def)
  next
    case (Some impl)
    with assms show ?thesis
      by (simp add: revert_last_def soundD action_guarded mutations_ok Let_def cong: branch_congs)
  qed
qed

lemma reconcileRevert_guarded: "sound r \<Longrightarrow> reconcileRevert (guarded_rec g r) = reconcileRevert r"
  unfolding fun_eq_iff reconcileRevert_def
  by (simp add: soundD finishRun_guarded revert_last_guarded Let_def cong: branch_congs)

lemma reconcileDelete_guarded: "sound r \<Longrightarrow> reconcileDelete (guarded_rec g r) = reconcileDelete r"
  unfolding fun_eq_iff reconcileDelete_def
  by (simp add: reconcileRevert_guarded Let_def cong: branch_congs)

lemma reconcile_run_guarded: "sound r \<Longrightarrow> reconcile_run (guarded_rec g r) = reconcile_run r"
  unfolding fun_eq_iff reconcile_run_def
  by (simp add: reconcileRevert_guarded reconcileActivate_guarded Let_def cong: branch_congs)

lemma reconcile_live_guarded: "sound r \<Longrightarrow> reconcile_live (guarded_rec g r) = reconcile_live r"
  unfolding fun_eq_iff reconcile_live_def
  by (simp add: soundD reconcileRevert_guarded maybeStartRun_guarded reconcile_run_guarded cong: branch_congs)

lemma Reconcile_guarded: "sound r \<Longrightarrow> Reconcile (guarded_rec g r) = Reconcile r"
  unfolding fun_eq_iff Reconcile_def
  by (simp add: reconcileDelete_guarded reconcile_live_guarded cong: branch_congs)

text \<open>
  C15. The reconciler never stores a status that breaks the invariant: distinct names of the active
  actions, and at most ten entries of history. If no object it reads breaks it, then replacing the
  status update, for the statuses that break it, by anything at all changes neither the outcome nor
  the world of any call of Reconcile.
\<close>
theorem status_invariant_kept:
  assumes "sound r"
  shows "Reconcile (guarded_rec g r) = Reconcile r"
  by (rule Reconcile_guarded [OF assms])

text \<open>The cluster in memory, without the objects that break the invariant.\<close>

definition checked_client :: "cluster client" where
  "checked_client = mem_client\<lparr>getMJ := (\<lambda>w k.
     case getMJ mem_client w k of
       Inl e \<Rightarrow> Inl e
     | Inr fs \<Rightarrow> if status_ok (mj_status_of fs) then Inr fs else Inl (errorf ''refused''))\<rparr>"

theorem status_invariant_kept_witness:
  "getMJ checked_client sample_cluster (''shop'', ''outage'') = Inr sample_mj
   \<and> Reconcile (guarded_rec (\<lambda>w fs. (Inl (errorf ''refused''), w)) (sample_reconciler checked_client))
        (''shop'', ''outage'') sample_cluster
     = Reconcile (sample_reconciler checked_client) (''shop'', ''outage'') sample_cluster"
proof -
  have "sound (sample_reconciler checked_client)"
    by (auto simp: sound_def reads_ok_def checked_client_def split: sum.splits if_splits)
  from status_invariant_kept [OF this]
  have "Reconcile (guarded_rec (\<lambda>w fs. (Inl (errorf ''refused''), w)) (sample_reconciler checked_client))
     = Reconcile (sample_reconciler checked_client)" .
  moreover have "getMJ checked_client sample_cluster (''shop'', ''outage'') = Inr sample_mj"
    by (simp add: checked_client_def mem_client_def sample_cluster_def sample_mj_def find_obj_def mj_key_def
        lookup_def status_ok_def sample_status_def historyCap_def)
  ultimately show ?thesis by simp
qed

end
