(* ===== verification/ParseDuration.thy ===== *)
theory ParseDuration
  imports Durations
begin

text \<open>
  \<^verbatim>\<open>time.ParseDuration\<close> of Go's standard library, with which dbtool reads the intervals that the
  operator prints with \<^verbatim>\<open>Duration.String\<close>, and the round trip of the two. The unsigned 64-bit
  overflows are written out. The fraction's product with its unit, which Go computes in floating
  point, is the exact product rounded down; the two agree for fractions of at most nine digits of
  a second or less.
\<close>

section \<open>The parser\<close>

definition max_uint63 :: nat where "max_uint63 = 2 ^ 63"

text \<open>\<^verbatim>\<open>leadingInt\<close>: the digits at the front; nothing when their value exceeds 2 to the 63.\<close>

definition leadingInt :: "string \<Rightarrow> (nat \<times> string) option" where
  "leadingInt s =
     (let n = digits_val (takeWhile is_digit s)
      in if n \<le> max_uint63 then Some (n, dropWhile is_digit s) else None)"

text \<open>\<^verbatim>\<open>leadingFraction\<close>: digits that would overflow are dropped.\<close>

fun fraction :: "nat \<Rightarrow> nat \<Rightarrow> bool \<Rightarrow> string \<Rightarrow> nat \<times> nat" where
  "fraction x scale overflow [] = (x, scale)"
| "fraction x scale overflow (c # cs) =
     (if overflow then fraction x scale True cs
      else if x > (2 ^ 63 - 1) div 10 then fraction x scale True cs
      else let y = 10 * x + digit_val c in
           if y > max_uint63 then fraction x scale True cs else fraction y (10 * scale) False cs)"

definition leadingFraction :: "string \<Rightarrow> nat \<times> nat \<times> string" where
  "leadingFraction s =
     (let (f, scale) = fraction 0 1 False (takeWhile is_digit s) in (f, scale, dropWhile is_digit s))"

definition unit_of :: "string \<Rightarrow> nat option" where
  "unit_of u =
     (if u = ''ns'' then Some 1
      else if u = ''us'' \<or> u = micro_sign @ ''s'' \<or> u = [CHR 0xCE, CHR 0xBC] @ ''s'' then Some 1000
      else if u = ''ms'' then Some 1000000
      else if u = ''s'' then Some 1000000000
      else if u = ''m'' then Some 60000000000
      else if u = ''h'' then Some 3600000000000
      else None)"

definition unit_char :: "char \<Rightarrow> bool" where
  "unit_char c \<longleftrightarrow> \<not> (c = CHR ''.'' \<or> is_digit c)"

text \<open>The number at the front: digits before a point, digits after it, at least one digit.\<close>

definition parse_fraction :: "string \<Rightarrow> nat \<times> nat \<times> bool \<times> string" where
  "parse_fraction s =
     (case s of
        [] \<Rightarrow> (0, 1, False, s)
      | c # s' \<Rightarrow>
          if c = CHR ''.''
          then (let (f, scale, s2) = leadingFraction s' in (f, scale, length s2 \<noteq> length s', s2))
          else (0, 1, False, s))"

definition parse_number :: "string \<Rightarrow> (nat \<times> nat \<times> nat \<times> string) option" where
  "parse_number s =
     (if s = [] \<or> unit_char (hd s) then None
      else
        (case leadingInt s of
           None \<Rightarrow> None
         | Some (v, s1) \<Rightarrow>
             let (f, scale, post, s2) = parse_fraction s1
             in if length s1 = length s \<and> \<not> post then None else Some (v, f, scale, s2)))"

text \<open>One number with its unit: its nanoseconds and what follows.\<close>

definition parse_unit :: "string \<Rightarrow> (nat \<times> string) option" where
  "parse_unit s =
     (case parse_number s of
        None \<Rightarrow> None
      | Some (v, f, scale, s2) \<Rightarrow>
          let u = takeWhile unit_char s2; s3 = dropWhile unit_char s2 in
          if u = [] then None
          else
            (case unit_of u of
               None \<Rightarrow> None
             | Some unit \<Rightarrow>
                 if v > max_uint63 div unit then None
                 else
                   let v1 = v * unit; v2 = (if f > 0 then v1 + f * unit div scale else v1) in
                   if v2 > max_uint63 then None else Some (v2, s3)))"

lemma length_dropWhile_lt: "takeWhile p s \<noteq> [] \<Longrightarrow> length (dropWhile p s) < length s"
  by (cases s) (auto simp: length_dropWhile_le le_imp_less_Suc split: if_splits)

lemma parse_fraction_le: "parse_fraction s = (f, scale, post, s') \<Longrightarrow> length s' \<le> length s"
  using length_dropWhile_le [of is_digit "tl s"]
  by (auto simp: parse_fraction_def leadingFraction_def split: list.splits if_splits prod.splits)

lemma parse_number_le: "parse_number s = Some (v, f, scale, s') \<Longrightarrow> length s' \<le> length s"
  using length_dropWhile_le [of is_digit s] parse_fraction_le
  by (fastforce simp: parse_number_def leadingInt_def Let_def split: if_splits option.splits prod.splits)

lemma parse_unit_shorter: "parse_unit s = Some (v, s') \<Longrightarrow> length s' < length s"
proof -
  assume "parse_unit s = Some (v, s')"
  then obtain w f scale s2 where "parse_number s = Some (w, f, scale, s2)" "takeWhile unit_char s2 \<noteq> []"
    "s' = dropWhile unit_char s2"
    by (auto simp: parse_unit_def Let_def split: option.splits prod.splits if_splits)
  then show ?thesis using parse_number_le length_dropWhile_lt [of unit_char s2] by fastforce
qed

text \<open>The sum of the numbers, modulo 2 to the 64, no step above 2 to the 63.\<close>

function parse_units :: "nat \<Rightarrow> string \<Rightarrow> nat option" where
  "parse_units d s =
     (if s = [] then Some d
      else
        (case parse_unit s of
           None \<Rightarrow> None
         | Some (v, s') \<Rightarrow>
             let d' = (d + v) mod 2 ^ 64 in
             if d' > max_uint63 then None else parse_units d' s'))"
  by pat_completeness auto
termination
  by (relation "measure (\<lambda>(d, s). length s)") (auto simp: parse_unit_shorter)

declare parse_units.simps [simp del]

definition parseDuration :: "string \<Rightarrow> int option" where
  "parseDuration orig =
     (let (neg, s) = (case orig of
                        [] \<Rightarrow> (False, [])
                      | c # cs \<Rightarrow> if c = CHR ''-'' \<or> c = CHR ''+'' then (c = CHR ''-'', cs) else (False, orig))
      in if s = ''0'' then Some 0
         else if s = [] then None
         else
           (case parse_units 0 s of
              None \<Rightarrow> None
            | Some d \<Rightarrow>
                if neg then Some (wrap64 (- int d))
                else if d > max_uint63 - 1 then None
                else Some (int d)))"

lemma parseDuration_range: "parseDuration s = Some d \<Longrightarrow> int64_ok d"
  by (auto simp: parseDuration_def int64_ok_def max_uint63_def split: list.splits if_splits option.splits)
     (use wrap64_ok in \<open>auto simp: int64_ok_def\<close>)

section \<open>Reading back what was printed\<close>

lemma digits_val_cons_acc: "foldl (\<lambda>n c. 10 * n + digit_val c) a s = a * 10 ^ length s + digits_val s"
  by (induction s rule: rev_induct) (simp_all add: digits_val_def algebra_simps)

lemma digits_val_append: "digits_val (s @ t) = digits_val s * 10 ^ length t + digits_val t"
  using digits_val_cons_acc [of "digits_val s" t] by (simp add: digits_val_def)

lemma digits_val_zeros [simp]: "digits_val (replicate k (CHR ''0'')) = 0"
  by (induction k) (simp_all add: digits_val_def digit_val_def)

lemma length_frac_digits [simp]: "length (frac_digits p u) = p"
  by (induction p arbitrary: u) simp_all

lemma frac_digits_digits: "c \<in> set (frac_digits p u) \<Longrightarrow> is_digit c"
  by (induction p arbitrary: u) auto

lemma digits_val_frac_digits: "digits_val (frac_digits p u) = u mod 10 ^ p"
proof (induction p arbitrary: u)
  case 0
  then show ?case by (simp add: digits_val_def)
next
  case (Suc p)
  then show ?case by (simp add: mod_mult2_eq)
qed

text \<open>The printed fraction: its digits without the trailing zeros.\<close>

definition frac_text :: "nat \<Rightarrow> nat \<Rightarrow> string" where
  "frac_text p u = rev (dropWhile (\<lambda>c. c = CHR ''0'') (rev (frac_digits p u)))"

lemma fmtFrac_frac_text: "fmtFrac p u = (if frac_text p u = [] then [] else CHR ''.'' # frac_text p u)"
  by (simp add: fmtFrac_def frac_text_def)

lemma frac_text_zeros:
  obtains k where "frac_digits p u = frac_text p u @ replicate k (CHR ''0'')" and "length (frac_text p u) + k = p"
proof -
  have "takeWhile (\<lambda>c. c = CHR ''0'') (rev (frac_digits p u))
      = replicate (length (takeWhile (\<lambda>c. c = CHR ''0'') (rev (frac_digits p u)))) (CHR ''0'')"
    by (rule replicate_length_same [symmetric]) (auto dest: set_takeWhileD)
  then have eq: "frac_digits p u
      = frac_text p u @ replicate (length (takeWhile (\<lambda>c. c = CHR ''0'') (rev (frac_digits p u)))) (CHR ''0'')"
    unfolding frac_text_def by (metis rev_append rev_replicate rev_rev_ident takeWhile_dropWhile_id)
  with that show thesis by (metis length_append length_frac_digits length_replicate)
qed

lemma frac_text_digits: "c \<in> set (frac_text p u) \<Longrightarrow> is_digit c"
  by (rule frac_digits_digits [of c p u]) (auto simp: frac_text_def dest: set_dropWhileD)

lemma frac_text_val: "digits_val (frac_text p u) * 10 ^ (p - length (frac_text p u)) = u mod 10 ^ p"
  using frac_text_zeros [of p u] digits_val_frac_digits [of p u] by (metis add_diff_cancel_left'
      add.right_neutral digits_val_append digits_val_zeros length_replicate)

lemma frac_text_length: "length (frac_text p u) \<le> p"
  using frac_text_zeros [of p u] by (metis le_add1)

lemma digits_val_less: "digits_val s < 10 ^ length s" if "list_all is_digit s"
  using that
proof (induction s rule: rev_induct)
  case Nil
  then show ?case by (simp add: digits_val_def)
next
  case (snoc c s)
  then have "is_digit c" by simp
  then have "digit_val c < 10" unfolding is_digit_def digit_val_def by linarith
  with snoc show ?case by simp
qed

lemma fraction_digits:
  assumes "list_all is_digit (s @ t)" and "length (s @ t) \<le> 9"
  shows "fraction (digits_val s) (10 ^ length s) False t = (digits_val (s @ t), 10 ^ length (s @ t))"
  using assms
proof (induction t arbitrary: s)
  case (Cons c t)
  have "digits_val (s @ [c]) < 10 ^ length (s @ [c])" using Cons.prems by (intro digits_val_less) simp
  also have "\<dots> \<le> (10::nat) ^ 9" using Cons.prems by (intro power_increasing) simp_all
  finally have small: "10 * digits_val s + digit_val c < 10 ^ 9" by simp
  then show ?case
    using Cons.IH [of "s @ [c]"] Cons.prems by (simp add: max_uint63_def)
qed simp

lemma digits_front:
  assumes "list_all is_digit ds" and "r = [] \<or> \<not> is_digit (hd r)"
  shows "takeWhile is_digit (ds @ r) = ds" and "dropWhile is_digit (ds @ r) = r"
  using assms by (induction ds) (auto simp: takeWhile_eq_Nil_iff dropWhile_eq_self_iff)

text \<open>A number without and with a fraction, before a unit.\<close>

definition plain_unit :: "string \<Rightarrow> bool" where
  "plain_unit u \<longleftrightarrow> u \<noteq> [] \<and> list_all unit_char u"

lemma unit_not_digit: "plain_unit u \<Longrightarrow> \<not> is_digit (hd (u @ r)) \<and> hd (u @ r) \<noteq> CHR ''.''"
  by (cases u) (auto simp: plain_unit_def unit_char_def)

lemma unit_front:
  assumes "plain_unit u" and "r = [] \<or> \<not> unit_char (hd r)"
  shows "takeWhile unit_char (u @ r) = u" and "dropWhile unit_char (u @ r) = r"
proof -
  have all: "\<And>x. x \<in> set u \<Longrightarrow> unit_char x" using assms(1) by (auto simp: plain_unit_def list_all_iff)
  show "takeWhile unit_char (u @ r) = u" "dropWhile unit_char (u @ r) = r"
    using assms(2) by (auto simp: takeWhile_append2 [OF all] dropWhile_append2 [OF all]
        takeWhile_eq_Nil_iff dropWhile_eq_self_iff)
qed

lemma parse_number_text:
  assumes "plain_unit u" and "n \<le> max_uint63" and "p \<le> 9"
  shows "parse_number (show_nat n @ fmtFrac p x @ u @ r) =
     (if frac_text p x = [] then Some (n, 0, 1, u @ r)
      else Some (n, digits_val (frac_text p x), 10 ^ length (frac_text p x), u @ r))"
proof -
  let ?s = "show_nat n @ fmtFrac p x @ u @ r" and ?t = "fmtFrac p x @ u @ r"
  have n: "list_all is_digit (show_nat n)" using show_nat_digits by (simp add: list_all_iff)
  have t: "?t \<noteq> [] \<and> \<not> is_digit (hd ?t)"
    using unit_not_digit [OF assms(1), of r] assms(1)
    by (auto simp: fmtFrac_frac_text plain_unit_def) (simp_all add: is_digit_def)
  have hd: "\<not> unit_char (hd ?s)"
    using n by (cases "show_nat n") (auto simp: unit_char_def)
  have "leadingInt ?s = Some (n, ?t)"
    using digits_front [OF n, of ?t] t assms(2) by (simp add: leadingInt_def)
  moreover have "parse_fraction ?t = (if frac_text p x = [] then (0, 1, False, u @ r)
      else (digits_val (frac_text p x), 10 ^ length (frac_text p x), True, u @ r))"
  proof (cases "frac_text p x = []")
    case True
    then show ?thesis
      using unit_not_digit [OF assms(1), of r]
      by (auto simp: parse_fraction_def fmtFrac_frac_text split: list.splits)
  next
    case False
    have ds: "list_all is_digit (frac_text p x)" using frac_text_digits by (auto simp: list_all_iff)
    have "fraction 0 1 False (frac_text p x) = (digits_val (frac_text p x), 10 ^ length (frac_text p x))"
      using fraction_digits [of "[]" "frac_text p x"] ds frac_text_length [of p x] assms(3)
      by (simp add: digits_val_def)
    moreover note digits_front [OF ds, of "u @ r"]
    ultimately have "leadingFraction (frac_text p x @ u @ r)
        = (digits_val (frac_text p x), 10 ^ length (frac_text p x), u @ r)"
      using unit_not_digit [OF assms(1), of r] by (simp add: leadingFraction_def)
    with False show ?thesis by (simp add: parse_fraction_def fmtFrac_frac_text)
  qed
  ultimately show ?thesis
    using hd by (simp add: parse_number_def Let_def)
qed

lemma parse_unit_text:
  assumes "plain_unit u" and "unit_of u = Some (10 ^ p)" and "p \<le> 9"
    and "n * 10 ^ p + x mod 10 ^ p \<le> max_uint63" and "r = [] \<or> \<not> unit_char (hd r)"
  shows "parse_unit (show_nat n @ fmtFrac p x @ u @ r) = Some (n * 10 ^ p + x mod 10 ^ p, r)"
proof -
  have le: "n * 10 ^ p \<le> max_uint63" using assms(4) by linarith
  then have div: "n \<le> max_uint63 div 10 ^ p" by (simp add: less_eq_div_iff_mult_less_eq)
  have "n \<le> n * 10 ^ p" by simp
  then have n: "n \<le> max_uint63" using le by (rule le_trans)
  let ?k = "length (frac_text p x)"
  have val: "digits_val (frac_text p x) * 10 ^ p div 10 ^ ?k = x mod 10 ^ p"
  proof -
    have "(10::nat) ^ p = 10 ^ (p - ?k) * 10 ^ ?k"
      using frac_text_length [of p x] by (simp add: power_add [symmetric])
    then have "digits_val (frac_text p x) * 10 ^ p = x mod 10 ^ p * 10 ^ ?k"
      using frac_text_val [of p x] by (metis mult.assoc)
    then show ?thesis by simp
  qed
  have zero: "frac_text p x = [] \<Longrightarrow> x mod 10 ^ p = 0"
    using frac_text_val [of p x] by (simp add: digits_val_def)
  show ?thesis
    using assms(1,2,4) div val zero unit_front [OF assms(1,5)]
    by (cases "digits_val (frac_text p x) = 0")
       (auto simp: parse_unit_def parse_number_text [OF assms(1) n assms(3)] plain_unit_def Let_def)
qed

lemma parse_unit_whole:
  assumes "plain_unit u" and "unit_of u = Some k" and "n * k \<le> max_uint63" and "0 < k"
    and "r = [] \<or> \<not> unit_char (hd r)"
  shows "parse_unit (show_nat n @ u @ r) = Some (n * k, r)"
proof -
  have "n \<le> n * k" using assms(4) by simp
  then have n: "n \<le> max_uint63" using assms(3) by (rule le_trans)
  have "n \<le> max_uint63 div k" using assms(3,4) by (simp add: less_eq_div_iff_mult_less_eq)
  moreover have "parse_number (show_nat n @ u @ r) = Some (n, 0, 1, u @ r)"
    using parse_number_text [OF assms(1) n, of 0 0 r] by (simp add: fmtFrac_frac_text frac_text_def)
  ultimately show ?thesis
    using assms unit_front [OF assms(1,5)] by (auto simp: parse_unit_def plain_unit_def Let_def)
qed

lemma parse_units_step:
  "s \<noteq> [] \<Longrightarrow> parse_unit s = Some (v, s') \<Longrightarrow> d + v \<le> max_uint63 \<Longrightarrow> parse_units d s = parse_units (d + v) s'"
  by (subst parse_units.simps) (simp add: max_uint63_def)

lemma parse_units_nil [simp]: "parse_units d [] = Some d"
  by (simp add: parse_units.simps)

lemma plain_units [simp]:
  "plain_unit ''h''" "plain_unit ''m''" "plain_unit ''s''" "plain_unit ''ns''" "plain_unit ''ms''"
  "plain_unit (micro_sign @ ''s'')"
  by (simp_all add: plain_unit_def unit_char_def is_digit_def micro_sign_def)

lemma units_of [simp]:
  "unit_of ''h'' = Some 3600000000000" "unit_of ''m'' = Some 60000000000" "unit_of ''s'' = Some 1000000000"
  "unit_of ''ns'' = Some 1" "unit_of ''ms'' = Some 1000000" "unit_of (micro_sign @ ''s'') = Some 1000"
  by (simp_all add: unit_of_def micro_sign_def)

lemma number_starts: "\<not> unit_char (hd (show_nat n @ r))"
proof -
  obtain c cs where "show_nat n = c # cs" by (cases "show_nat n") auto
  with show_nat_hd_digit [OF this] show ?thesis by (simp add: unit_char_def)
qed

text \<open>The text of a duration without its sign.\<close>

definition duration_body :: "nat \<Rightarrow> string" where
  "duration_body u =
     (if u = 0 then ''0s''
      else if u < 1000 then show_nat u @ ''ns''
      else if u < 1000000 then show_nat (u div 1000) @ fmtFrac 3 u @ micro_sign @ ''s''
      else if u < 1000000000 then show_nat (u div 1000000) @ fmtFrac 6 u @ ''ms''
      else
        (let secs = u div 1000000000; mins = secs div 60; hours = mins div 60
         in (if hours > 0 then show_nat hours @ ''h'' else [])
            @ (if mins > 0 then show_nat (mins mod 60) @ ''m'' else [])
            @ show_nat (secs mod 60) @ fmtFrac 9 u @ ''s''))"

lemma durationString_body: "durationString d = (if d < 0 then CHR ''-'' # duration_body (nat (- d)) else duration_body (nat d))"
  by (simp add: durationString_def duration_body_def Let_def)

lemma parse_seconds:
  assumes "d + (n * 1000000000 + x mod 1000000000) \<le> max_uint63"
  shows "parse_units d (show_nat n @ fmtFrac 9 x @ ''s'') = Some (d + (n * 1000000000 + x mod 1000000000))"
  using parse_unit_text [of "''s''" 9 n x "[]"] assms
  by (subst parse_units_step [where v = "n * 1000000000 + x mod 1000000000" and s' = "[]"]) simp_all

lemma parse_whole:
  assumes "u \<in> {''h'', ''m''}" and "unit_of u = Some k" and "d + n * k \<le> max_uint63" and "r = show_nat j @ r'"
  shows "parse_units d (show_nat n @ u @ r) = parse_units (d + n * k) r"
  by (rule parse_units_step)
     (use assms parse_unit_whole [of u k n r] number_starts [of j r'] in auto)

lemma parse_units_body: "u \<le> max_uint63 \<Longrightarrow> parse_units 0 (duration_body u) = Some u"
proof -
  assume u: "u \<le> max_uint63"
  have small: "parse_units 0 (show_nat n @ fmtFrac p u @ t) = Some u"
    if t: "plain_unit t" "unit_of t = Some (10 ^ p)" "p \<le> 9" and n: "n = u div 10 ^ p" for n p t
  proof -
    have sum: "n * 10 ^ p + u mod 10 ^ p = u" unfolding n by (rule div_mult_mod_eq)
    have "parse_unit (show_nat n @ fmtFrac p u @ t) = Some (u, [])"
      using parse_unit_text [OF t, of n u "[]"] u unfolding sum by simp
    then show ?thesis using u by (subst parse_units_step [where v = u and s' = "[]"]) simp_all
  qed
  show ?thesis
  proof (cases "u < 1000000000")
    case True
    have "parse_units 0 (show_nat 0 @ ''s'') = Some 0"
      by (subst parse_units_step [OF _ parse_unit_whole [of "''s''" 1000000000 0 "[]", simplified]]) simp_all
    moreover have "digit_char 0 = CHR ''0''" by code_simp
    ultimately have "parse_units 0 ''0s'' = Some 0" by (simp add: show_nat.simps)
    then show ?thesis
      using True small [of "''ns''" 0 u] small [of "micro_sign @ ''s''" 3 "u div 1000"]
        small [of "''ms''" 6 "u div 1000000"]
      by (simp add: duration_body_def fmtFrac_frac_text frac_text_def)
  next
    case False
    define secs mins hours where defs: "secs = u div 1000000000" "mins = secs div 60" "hours = mins div 60"
    let ?s = "show_nat (secs mod 60) @ fmtFrac 9 u @ ''s''"
    let ?m = "(if mins > 0 then show_nat (mins mod 60) @ ''m'' else []) @ ?s"
    have text_is: "duration_body u = (if hours > 0 then show_nat hours @ ''h'' else []) @ ?m"
      using False by (simp add: duration_body_def Let_def defs)
    have sum: "hours * 3600000000000 + mins mod 60 * 60000000000 + (secs mod 60 * 1000000000 + u mod 1000000000) = u"
      using div_mult_mod_eq [of u 1000000000] div_mult_mod_eq [of secs 60] div_mult_mod_eq [of mins 60]
      unfolding defs by linarith
    have s: "parse_units d ?s = Some u" if "d + (secs mod 60 * 1000000000 + u mod 1000000000) = u" for d
      using parse_seconds [of d "secs mod 60" u] that u by simp
    have m: "parse_units d ?m = Some u"
      if d: "d + mins mod 60 * 60000000000 + (secs mod 60 * 1000000000 + u mod 1000000000) = u" for d
    proof (cases "mins > 0")
      case True
      have "parse_units d ?m = parse_units (d + mins mod 60 * 60000000000) ?s"
        using True parse_whole [of "''m''" 60000000000 d "mins mod 60" ?s "secs mod 60" "fmtFrac 9 u @ ''s''"] d u
        by simp
      with s [OF d] show ?thesis by simp
    qed (use s d in simp)
    show ?thesis
    proof (cases "hours > 0")
      case True
      then have "mins > 0" by (simp add: defs(3) div_greater_zero_iff)
      have "parse_units 0 (duration_body u) = parse_units (hours * 3600000000000) ?m"
        using True \<open>mins > 0\<close> parse_whole [of "''h''" 3600000000000 0 hours ?m "mins mod 60" "''m'' @ ?s"] sum u
        by (simp add: text_is)
      also have "\<dots> = Some u" by (rule m [OF sum])
      finally show ?thesis .
    next
      case False
      with m [of 0] sum show ?thesis by (simp add: text_is)
    qed
  qed
qed

lemma duration_body_start: "duration_body u \<noteq> []" "hd (duration_body u) \<notin> {CHR ''-'', CHR ''+''}" "duration_body u \<noteq> ''0''"
proof -
  have digit: "hd (show_nat n @ r) \<notin> {CHR ''-'', CHR ''+''}" for n r
  proof -
    obtain c cs where "show_nat n = c # cs" by (cases "show_nat n") auto
    with show_nat_hd_digit [OF this] is_digit_not_sign [of c] show ?thesis by simp
  qed
  show "duration_body u \<noteq> []" "hd (duration_body u) \<notin> {CHR ''-'', CHR ''+''}"
    using digit by (auto simp: duration_body_def Let_def simp del: hd_append2)
  have "last (duration_body u) = CHR ''s''" by (simp add: duration_body_def Let_def)
  then show "duration_body u \<noteq> ''0''" by auto
qed

text \<open>Parsing what was printed gives the duration back, for every 64-bit duration.\<close>

lemma parseDuration_durationString:
  assumes "int64_ok d"
  shows "parseDuration (durationString d) = Some d"
proof (cases "d < 0")
  case True
  have "nat (- d) \<le> max_uint63" using assms by (simp add: max_uint63_def int64_ok_def nat_le_iff)
  from parse_units_body [OF this] show ?thesis
    using True assms duration_body_start [of "nat (- d)"]
    by (simp add: parseDuration_def durationString_body)
next
  case False
  have u: "nat d \<le> max_uint63 - 1" using assms False by (simp add: max_uint63_def int64_ok_def nat_le_iff)
  then have "parse_units 0 (duration_body (nat d)) = Some (nat d)" by (intro parse_units_body) simp
  then show ?thesis
    using False u duration_body_start [of "nat d"]
    by (cases "duration_body (nat d)") (auto simp: parseDuration_def durationString_body)
qed

end
