(* ===== verification/Flags.thy ===== *)
theory Flags
  imports Json ParseDuration
begin

text \<open>
  Go's package flag, as dbtool uses it: the loop of \<^verbatim>\<open>FlagSet.Parse\<close> over the arguments and the
  values of the flag types. A set of flags is given by what the program registers: which names are
  boolean, and how a value is stored. \<^verbatim>\<open>strconv.ParseInt\<close> with base 0 (prefixes and underscores)
  and \<^verbatim>\<open>strconv.ParseBool\<close> are written out.
\<close>

section \<open>Integers of any base\<close>

datatype num_error = SyntaxError | RangeError

definition lower_char :: "char \<Rightarrow> char" where
  "lower_char c = (let n = (of_char c :: nat) in if 65 \<le> n \<and> n \<le> 90 then char_of (n + 32) else c)"

text \<open>The value of a digit of any base; an underscore is skipped before.\<close>

definition base_digit :: "char \<Rightarrow> nat option" where
  "base_digit c =
     (let n = (of_char (lower_char c) :: nat) in
      if is_digit c then Some (digit_val c)
      else if 97 \<le> n \<and> n \<le> 122 then Some (n - 87) else None)"

fun base_digits :: "nat \<Rightarrow> nat \<Rightarrow> string \<Rightarrow> num_error + nat" where
  "base_digits b n [] = Inr n"
| "base_digits b n (c # cs) =
     (if c = CHR ''_'' then base_digits b n cs
      else
        (case base_digit c of
           None \<Rightarrow> Inl SyntaxError
         | Some d \<Rightarrow>
             if d \<ge> b then Inl SyntaxError
             else if n * b + d > 2 ^ 64 - 1 then Inl RangeError
             else base_digits b (n * b + d) cs))"

text \<open>The base of a number's prefix, and its digits.\<close>

definition base_prefix :: "string \<Rightarrow> nat \<times> string" where
  "base_prefix s =
     (if s \<noteq> [] \<and> hd s = CHR ''0'' then
        (if length s \<ge> 3 \<and> lower_char (s ! 1) = CHR ''b'' then (2, drop 2 s)
         else if length s \<ge> 3 \<and> lower_char (s ! 1) = CHR ''o'' then (8, drop 2 s)
         else if length s \<ge> 3 \<and> lower_char (s ! 1) = CHR ''x'' then (16, drop 2 s)
         else (8, tl s))
      else (10, s))"

text \<open>\<^verbatim>\<open>underscoreOK\<close>: underscores only between digits or after a base prefix. The state is the
  last byte's kind: a digit, an underscore, the start, or anything else.\<close>

datatype seen = SeenStart | SeenDigit | SeenUnderscore | SeenOther

fun underscores :: "bool \<Rightarrow> seen \<Rightarrow> string \<Rightarrow> bool" where
  "underscores hex i [] = (i \<noteq> SeenUnderscore)"
| "underscores hex i (c # cs) =
     (if is_digit c \<or> (hex \<and> lower_char c \<in> set ''abcdef'')
      then underscores hex SeenDigit cs
      else if c = CHR ''_'' then (if i \<noteq> SeenDigit then False else underscores hex SeenUnderscore cs)
      else if i = SeenUnderscore then False
      else underscores hex SeenOther cs)"

definition strip_sign :: "string \<Rightarrow> bool \<times> string" where
  "strip_sign s =
     (case s of
        [] \<Rightarrow> (False, [])
      | c # cs \<Rightarrow> if c = CHR ''-'' then (True, cs) else if c = CHR ''+'' then (False, cs) else (False, s))"

definition underscoreOK :: "string \<Rightarrow> bool" where
  "underscoreOK s0 =
     (let s = snd (strip_sign s0) in
      if length s \<ge> 2 \<and> hd s = CHR ''0'' \<and> lower_char (s ! 1) \<in> set ''box''
      then underscores (lower_char (s ! 1) = CHR ''x'') SeenDigit (drop 2 s)
      else underscores False SeenStart s)"

definition parse_uint0 :: "string \<Rightarrow> num_error + nat" where
  "parse_uint0 s =
     (if s = [] then Inl SyntaxError
      else
        let (b, ds) = base_prefix s in
        (case base_digits b 0 ds of
           Inl e \<Rightarrow> Inl e
         | Inr n \<Rightarrow> if CHR ''_'' \<in> set ds \<and> \<not> underscoreOK s then Inl SyntaxError else Inr n))"

text \<open>\<^verbatim>\<open>strconv.ParseInt(s, 0, 64)\<close>.\<close>

definition parse_int0 :: "string \<Rightarrow> num_error + int" where
  "parse_int0 s0 =
     (if s0 = [] then Inl SyntaxError
      else
        let (neg, s) = strip_sign s0 in
        (case parse_uint0 s of
           Inl e \<Rightarrow> Inl e
         | Inr n \<Rightarrow>
             if \<not> neg \<and> n \<ge> 2 ^ 63 then Inl RangeError
             else if neg \<and> n > 2 ^ 63 then Inl RangeError
             else Inr (if neg then - int n else int n)))"

lemma parse_int0_range: "parse_int0 s = Inr i \<Longrightarrow> int64_ok i"
  by (auto simp: parse_int0_def int64_ok_def split: if_splits sum.splits prod.splits)

definition parseBool :: "string \<Rightarrow> bool option" where
  "parseBool s =
     (if s \<in> set [''1'', ''t'', ''T'', ''true'', ''TRUE'', ''True''] then Some True
      else if s \<in> set [''0'', ''f'', ''F'', ''false'', ''FALSE'', ''False''] then Some False
      else None)"

section \<open>Parsing the arguments\<close>

text \<open>A set of flags: which names there are and whether they are boolean, and how to set one.\<close>

record 'f flag_set =
  fs_kind :: "string \<Rightarrow> bool option"
  fs_set :: "string \<Rightarrow> string \<Rightarrow> 'f \<Rightarrow> string + 'f"

definition set_value :: "'f flag_set \<Rightarrow> bool \<Rightarrow> string \<Rightarrow> string \<Rightarrow> 'f \<Rightarrow> go_error + 'f" where
  "set_value fset boolean name value f =
     (case fs_set fset name value f of
        Inr f' \<Rightarrow> Inr f'
      | Inl why \<Rightarrow>
          Inl (errorf (if boolean then ''invalid boolean value '' @ quote value @ '' for -'' @ name @ '': '' @ why
                 else ''invalid value '' @ quote value @ '' for flag -'' @ name @ '': '' @ why)))"

text \<open>The result is the flags and the arguments after them.\<close>

fun parse_flags :: "'f flag_set \<Rightarrow> 'f \<Rightarrow> string list \<Rightarrow> go_error + 'f \<times> string list" where
  "parse_flags fset f [] = Inr (f, [])"
| "parse_flags fset f (s # rest) =
     (if length s < 2 \<or> hd s \<noteq> CHR ''-'' then Inr (f, s # rest)
      else if s = ''--'' then Inr (f, rest)
      else
        let nv = (if s ! 1 = CHR ''-'' then drop 2 s else drop 1 s);
            (name, value, hasValue) = cut (CHR ''='') nv
        in if nv = [] \<or> hd nv = CHR ''-'' \<or> hd nv = CHR ''='' then Inl (errorf (''bad flag syntax: '' @ s))
           else
             (case fs_kind fset name of
                None \<Rightarrow>
                  if name = ''help'' \<or> name = ''h'' then Inl (errorf ''flag: help requested'')
                  else Inl (errorf (''flag provided but not defined: -'' @ name))
              | Some True \<Rightarrow>
                  (case set_value fset True name (if hasValue then value else ''true'') f of
                     Inl e \<Rightarrow> Inl e
                   | Inr f' \<Rightarrow> parse_flags fset f' rest)
              | Some False \<Rightarrow>
                  if hasValue
                  then
                    (case set_value fset False name value f of
                       Inl e \<Rightarrow> Inl e
                     | Inr f' \<Rightarrow> parse_flags fset f' rest)
                  else
                    (case rest of
                       [] \<Rightarrow> Inl (errorf (''flag needs an argument: -'' @ name))
                     | v # rest' \<Rightarrow>
                         (case set_value fset False name v f of
                            Inl e \<Rightarrow> Inl e
                          | Inr f' \<Rightarrow> parse_flags fset f' rest'))))"

declare parse_flags.simps [simp del]

lemma parse_flags_nil [simp]: "parse_flags fset f [] = Inr (f, [])"
  by (simp add: parse_flags.simps)

lemma cut_none: "c \<notin> set s \<Longrightarrow> cut c s = (s, [], False)"
  by (induction s) (auto simp: cut_def)

text \<open>A flag with its value as the next argument, and a boolean flag alone.\<close>

lemma parse_flag_value:
  assumes "fs_kind fset name = Some False" and "fs_set fset name v f = Inr f'"
    and "name \<noteq> []" and "hd name \<noteq> CHR ''-''" and "CHR ''='' \<notin> set name"
  shows "parse_flags fset f ((''--'' @ name) # v # rest) = parse_flags fset f' rest"
proof -
  have "hd name \<noteq> CHR ''=''" using assms(3,5) by (cases name) auto
  then show ?thesis using assms by (simp add: parse_flags.simps cut_none set_value_def)
qed

lemma parse_flag_switch:
  assumes "fs_kind fset name = Some True" and "fs_set fset name ''true'' f = Inr f'"
    and "name \<noteq> []" and "hd name \<noteq> CHR ''-''" and "CHR ''='' \<notin> set name"
  shows "parse_flags fset f ((''--'' @ name) # rest) = parse_flags fset f' rest"
proof -
  have "hd name \<noteq> CHR ''=''" using assms(3,5) by (cases name) auto
  then show ?thesis using assms by (simp add: parse_flags.simps cut_none set_value_def)
qed

end
