(* ===== verification/Dbtool.thy ===== *)
theory Dbtool
  imports Flags Sample
begin

text \<open>
  The query runner of the operator's binary (operator/internal/dbtool/dbtool.go), which the Jobs of
  Workload and DBExec run, and the choice of the subcommand (operator/cmd/main.go). The database of
  \<^verbatim>\<open>database/sql\<close> and the signal context are a record of functions over an arbitrary world. The
  workers of the loop mode are goroutines: a pool of positions, moved one worker at a time by a
  schedule. Logging and the closing of connections are not modelled.
\<close>

record 'w sql =
  sqlOpen :: "string \<Rightarrow> string \<Rightarrow> go_error option"
  setMaxOpenConns :: "int \<Rightarrow> 'w \<Rightarrow> 'w"
  setMaxIdleConns :: "int \<Rightarrow> 'w \<Rightarrow> 'w"
  setConnMaxLifetime :: "int \<Rightarrow> 'w \<Rightarrow> 'w"
  dbConn :: "'w \<Rightarrow> go_error option \<times> 'w"
  execContext :: "string \<Rightarrow> 'w \<Rightarrow> go_error option \<times> 'w"
  queryContext :: "string \<Rightarrow> 'w \<Rightarrow> (go_error + nat \<times> go_error option) \<times> 'w"
  withTimeout :: "int \<Rightarrow> 'w \<Rightarrow> 'w"
  ctxErr :: "'w \<Rightarrow> bool"

section \<open>The flags\<close>

record dbtool_flags =
  fl_engine :: string
  fl_interval :: int
  fl_concurrency :: int
  fl_deadline :: int
  fl_once :: bool
  fl_queries :: "string list"

definition default_flags :: dbtool_flags where
  "default_flags = \<lparr>fl_engine = [], fl_interval = second, fl_concurrency = 1, fl_deadline = 0,
     fl_once = False, fl_queries = []\<rparr>"

text \<open>The flags by name; the texts are those of the package's parse errors.\<close>

definition dbtool_set :: "string \<Rightarrow> string \<Rightarrow> dbtool_flags \<Rightarrow> string + dbtool_flags" where
  "dbtool_set name v f =
     (if name = ''engine'' then Inr (f\<lparr>fl_engine := v\<rparr>)
      else if name = ''interval'' then
        (case parseDuration v of None \<Rightarrow> Inl ''parse error'' | Some d \<Rightarrow> Inr (f\<lparr>fl_interval := d\<rparr>))
      else if name = ''concurrency'' then
        (case parse_int0 v of
           Inl SyntaxError \<Rightarrow> Inl ''parse error''
         | Inl RangeError \<Rightarrow> Inl ''value out of range''
         | Inr i \<Rightarrow> Inr (f\<lparr>fl_concurrency := i\<rparr>))
      else if name = ''deadline'' then
        (case parseDuration v of None \<Rightarrow> Inl ''parse error'' | Some d \<Rightarrow> Inr (f\<lparr>fl_deadline := d\<rparr>))
      else if name = ''once'' then
        (case parseBool v of None \<Rightarrow> Inl ''parse error'' | Some b \<Rightarrow> Inr (f\<lparr>fl_once := b\<rparr>))
      else Inr (f\<lparr>fl_queries := fl_queries f @ [v]\<rparr>))"

definition dbtool_flag_set :: "dbtool_flags flag_set" where
  "dbtool_flag_set = \<lparr>
     fs_kind = (\<lambda>name. if name = ''once'' then Some True
                  else if name \<in> set [''engine'', ''interval'', ''concurrency'', ''deadline'', ''query'']
                  then Some False else None),
     fs_set = dbtool_set\<rparr>"

section \<open>One-off mode\<close>

definition statement_failed :: "nat \<Rightarrow> go_error \<Rightarrow> go_error" where
  "statement_failed n e = wrapf (''statement '' @ show_nat n @ '' failed: '') e"

fun exec_all :: "'w sql \<Rightarrow> nat \<Rightarrow> string list \<Rightarrow> 'w \<Rightarrow> go_error option \<times> 'w" where
  "exec_all sql i [] w = (None, w)"
| "exec_all sql i (q # qs) w =
     (case execContext sql q w of
        (Some e, w1) \<Rightarrow> (Some (statement_failed (i + 1) e), w1)
      | (None, w1) \<Rightarrow> exec_all sql (Suc i) qs w1)"

definition runOnce :: "'w sql \<Rightarrow> string list \<Rightarrow> 'w \<Rightarrow> go_error option \<times> 'w" where
  "runOnce sql queries w =
     (case dbConn sql w of
        (Some e, w1) \<Rightarrow> (Some (wrapf ''acquire connection: '' e), w1)
      | (None, w1) \<Rightarrow> exec_all sql 0 queries w1)"

section \<open>Loop mode\<close>

definition runQuery :: "'w sql \<Rightarrow> string \<Rightarrow> 'w \<Rightarrow> (nat \<times> go_error option) \<times> 'w" where
  "runQuery sql q w =
     (case queryContext sql q w of
        (Inl e, w1) \<Rightarrow> ((0, Some e), w1)
      | (Inr (n, e), w1) \<Rightarrow> ((n, e), w1))"

text \<open>
  A worker is before its \<open>i\<close>-th query, in the select after a batch, or has returned. A step is
  the test of the context and the query, or one look at the select, where the timer may have fired:
  of two cases that are ready, any may be taken. The result says which query was sent.
\<close>

datatype position = AtQuery nat | InSelect | HasReturned

definition worker_step ::
  "'w sql \<Rightarrow> string list \<Rightarrow> bool \<Rightarrow> position \<Rightarrow> 'w \<Rightarrow> position \<times> string list \<times> 'w" where
  "worker_step sql queries timer p w =
     (case p of
        AtQuery i \<Rightarrow>
          if i < length queries
          then
            (if ctxErr sql w then (HasReturned, [], w)
             else (AtQuery (Suc i), [queries ! i], snd (runQuery sql (queries ! i) w)))
          else (InSelect, [], w)
      | InSelect \<Rightarrow>
          (if timer then AtQuery 0 else if ctxErr sql w then HasReturned else InSelect, [], w)
      | HasReturned \<Rightarrow> (HasReturned, [], w))"

text \<open>The pool: the positions of the workers, what each has sent, and the world.\<close>

record 'w pool =
  pl_workers :: "position list"
  pl_sent :: "(nat \<times> string) list"
  pl_world :: 'w

definition pool_step :: "'w sql \<Rightarrow> string list \<Rightarrow> nat \<times> bool \<Rightarrow> 'w pool \<Rightarrow> 'w pool" where
  "pool_step sql queries ev pl =
     (let i = fst ev in
      if length (pl_workers pl) \<le> i then pl
      else
        let (p, sent, w) = worker_step sql queries (snd ev) (pl_workers pl ! i) (pl_world pl) in
        \<lparr>pl_workers = (pl_workers pl)[i := p], pl_sent = pl_sent pl @ map (Pair i) sent, pl_world = w\<rparr>)"

definition run_pool :: "'w sql \<Rightarrow> string list \<Rightarrow> (nat \<times> bool) list \<Rightarrow> 'w pool \<Rightarrow> 'w pool" where
  "run_pool sql queries = fold (pool_step sql queries)"

definition start_pool :: "int \<Rightarrow> 'w \<Rightarrow> 'w pool" where
  "start_pool concurrency w = \<lparr>pl_workers = replicate (nat concurrency) (AtQuery 0), pl_sent = [], pl_world = w\<rparr>"

text \<open>The wait group is released.\<close>

definition all_returned :: "'w pool \<Rightarrow> bool" where
  "all_returned pl \<longleftrightarrow> list_all (\<lambda>p. p = HasReturned) (pl_workers pl)"

section \<open>The subcommand\<close>

text \<open>\<^verbatim>\<open>Run\<close> ends by itself, or goes on with the workers of its flags.\<close>

datatype 'w run_result = Ended "go_error option" 'w | Looping dbtool_flags "'w pool"

definition Run :: "'w sql \<Rightarrow> string \<Rightarrow> string list \<Rightarrow> 'w \<Rightarrow> 'w run_result" where
  "Run sql dsn args w =
     (case parse_flags dbtool_flag_set default_flags args of
        Inl e \<Rightarrow> Ended (Some e) w
      | Inr (f, _) \<Rightarrow>
          if fl_engine f \<noteq> ''postgres'' \<and> fl_engine f \<noteq> ''mysql''
          then Ended (Some (errorf (''--engine must be postgres or mysql, got '' @ quote (fl_engine f)))) w
          else if fl_queries f = [] then Ended (Some (errorf ''at least one --query is required'')) w
          else if dsn = [] then Ended (Some (errorf ''DATABASE_URL environment variable is required'')) w
          else
            (case sqlOpen sql (fl_engine f) dsn of
               Some e \<Rightarrow> Ended (Some (wrapf ''open database: '' e)) w
             | None \<Rightarrow>
                 let conns = wrap64 (fl_concurrency f + 1);
                     w1 = setConnMaxLifetime sql (5 * minute) (setMaxIdleConns sql conns
                            (setMaxOpenConns sql conns w));
                     w2 = (if fl_deadline f > 0 then withTimeout sql (fl_deadline f) w1 else w1)
                 in if fl_once f
                    then (case runOnce sql (fl_queries f) (setMaxOpenConns sql 1 w2) of (e, w3) \<Rightarrow> Ended e w3)
                    else Looping f (start_pool (fl_concurrency f) w2)))"

text \<open>The first argument is the subcommand unless it is missing or a flag.\<close>

definition subcommand :: "string list \<Rightarrow> string \<times> string list" where
  "subcommand args =
     (case args of
        [] \<Rightarrow> (''manager'', [])
      | a # rest \<Rightarrow> if hasPrefix a ''-'' then (''manager'', args) else (a, rest))"

text \<open>What the process does: the controller, dbtool, or an exit with status 2.\<close>

datatype 'w process = Manager | Dbtool "'w run_result" | UnknownCommand nat

definition main :: "'w sql \<Rightarrow> string \<Rightarrow> string list \<Rightarrow> 'w \<Rightarrow> 'w process" where
  "main sql dsn args w =
     (case subcommand args of (cmd, rest) \<Rightarrow>
        if cmd = ''manager'' then Manager
        else if cmd = ''dbtool'' then Dbtool (Run sql dsn rest w)
        else UnknownCommand 2)"

section \<open>The arguments of the operator's Jobs\<close>

lemmas dbtool_flag_defs = dbtool_flag_set_def dbtool_set_def

lemma parse_flag_engine:
  "parse_flags dbtool_flag_set f (''--engine'' # v # rest) = parse_flags dbtool_flag_set (f\<lparr>fl_engine := v\<rparr>) rest"
proof -
  have "parse_flags dbtool_flag_set f ((''--'' @ ''engine'') # v # rest)
      = parse_flags dbtool_flag_set (f\<lparr>fl_engine := v\<rparr>) rest"
    by (rule parse_flag_value) (simp_all add: dbtool_flag_defs)
  then show ?thesis by simp
qed

lemma parse_flag_interval:
  assumes "int64_ok d"
  shows "parse_flags dbtool_flag_set f (''--interval'' # durationString d # rest)
     = parse_flags dbtool_flag_set (f\<lparr>fl_interval := d\<rparr>) rest"
proof -
  have "parse_flags dbtool_flag_set f ((''--'' @ ''interval'') # durationString d # rest)
      = parse_flags dbtool_flag_set (f\<lparr>fl_interval := d\<rparr>) rest"
    by (rule parse_flag_value) (simp_all add: dbtool_flag_defs parseDuration_durationString [OF assms])
  then show ?thesis by simp
qed

lemma parse_flag_concurrency:
  "parse_flags dbtool_flag_set f (''--concurrency'' # ''1'' # rest)
     = parse_flags dbtool_flag_set (f\<lparr>fl_concurrency := 1\<rparr>) rest"
proof -
  have one: "parse_int0 ''1'' = Inr 1"
    by (simp add: parse_int0_def parse_uint0_def strip_sign_def base_prefix_def base_digit_def is_digit_def digit_val_def)
  have "parse_flags dbtool_flag_set f ((''--'' @ ''concurrency'') # ''1'' # rest)
      = parse_flags dbtool_flag_set (f\<lparr>fl_concurrency := 1\<rparr>) rest"
    by (rule parse_flag_value) (simp_all add: dbtool_flag_defs one)
  then show ?thesis by simp
qed

lemma parse_flag_once:
  "parse_flags dbtool_flag_set f (''--once'' # rest) = parse_flags dbtool_flag_set (f\<lparr>fl_once := True\<rparr>) rest"
proof -
  have "parse_flags dbtool_flag_set f ((''--'' @ ''once'') # rest)
      = parse_flags dbtool_flag_set (f\<lparr>fl_once := True\<rparr>) rest"
    by (rule parse_flag_switch) (simp_all add: dbtool_flag_defs parseBool_def)
  then show ?thesis by simp
qed

lemma parse_flag_query:
  "parse_flags dbtool_flag_set f (''--query'' # q # rest)
     = parse_flags dbtool_flag_set (f\<lparr>fl_queries := fl_queries f @ [q]\<rparr>) rest"
proof -
  have "parse_flags dbtool_flag_set f ((''--'' @ ''query'') # q # rest)
      = parse_flags dbtool_flag_set (f\<lparr>fl_queries := fl_queries f @ [q]\<rparr>) rest"
    by (rule parse_flag_value) (simp_all add: dbtool_flag_defs)
  then show ?thesis by simp
qed

lemma parse_flag_queries:
  "parse_flags dbtool_flag_set f (queryArgs qs) = Inr (f\<lparr>fl_queries := fl_queries f @ qs\<rparr>, [])"
proof (induction qs arbitrary: f)
  case (Cons q qs)
  have "queryArgs (q # qs) = ''--query'' # q # queryArgs qs" by (simp add: queryArgs_def)
  then show ?case using Cons.IH by (simp add: parse_flag_query)
qed (simp add: queryArgs_def)

lemmas parse_job_flags = parse_flag_engine parse_flag_interval parse_flag_concurrency parse_flag_once
  parse_flag_queries

lemma job_args_parse:
  "(\<forall>d. wa_interval wa = Some d \<longrightarrow> int64_ok d \<longrightarrow> wa_command wa = [] \<longrightarrow> wa_cpu_burn wa \<le> 0 \<longrightarrow>
      (\<exists>args. subcommand (js_args (job_spec_of (buildJob rc wa))) = (''dbtool'', args)
         \<and> parse_flags dbtool_flag_set default_flags args =
             Inr (\<lparr>fl_engine = wa_engine wa, fl_interval = d, fl_concurrency = 1, fl_deadline = 0,
                   fl_once = False, fl_queries = wa_queries wa\<rparr>, [])))
   \<and> (\<exists>args. subcommand (js_args (job_spec_of (exec_buildJob rc name engine env queries))) = (''dbtool'', args)
         \<and> parse_flags dbtool_flag_set default_flags args =
             Inr (\<lparr>fl_engine = engine, fl_interval = second, fl_concurrency = 1, fl_deadline = 0,
                   fl_once = True, fl_queries = queries\<rparr>, []))"
  by (auto simp: buildJob_def exec_buildJob_def workload_args_def subcommand_def hasPrefix_def Let_def
      parse_job_flags default_flags_def)


section \<open>One-off mode runs the statements in order\<close>

text \<open>A database that keeps a list of the statements sent to it.\<close>

definition recording :: "'w sql \<Rightarrow> ('w \<times> string list) sql" where
  "recording sql = \<lparr>
     sqlOpen = sqlOpen sql,
     setMaxOpenConns = (\<lambda>n wl. (setMaxOpenConns sql n (fst wl), snd wl)),
     setMaxIdleConns = (\<lambda>n wl. (setMaxIdleConns sql n (fst wl), snd wl)),
     setConnMaxLifetime = (\<lambda>n wl. (setConnMaxLifetime sql n (fst wl), snd wl)),
     dbConn = (\<lambda>wl. case dbConn sql (fst wl) of (e, w1) \<Rightarrow> (e, (w1, snd wl))),
     execContext = (\<lambda>q wl. case execContext sql q (fst wl) of (e, w1) \<Rightarrow> (e, (w1, snd wl @ [q]))),
     queryContext = (\<lambda>q wl. case queryContext sql q (fst wl) of (r, w1) \<Rightarrow> (r, (w1, snd wl @ [q]))),
     withTimeout = (\<lambda>n wl. (withTimeout sql n (fst wl), snd wl)),
     ctxErr = (\<lambda>wl. ctxErr sql (fst wl))\<rparr>"

lemma exec_all_recorded:
  assumes "exec_all (recording sql) i qs wl = (e, wl')"
  shows "\<exists>n \<le> length qs. snd wl' = snd wl @ take n qs
    \<and> (case e of None \<Rightarrow> n = length qs
       | Some err \<Rightarrow> 0 < n \<and> (\<exists>e' v. fst (execContext sql (qs ! (n - 1)) v) = Some e'
           \<and> err = statement_failed (i + n) e'))"
  using assms
proof (induction qs arbitrary: i wl)
  case (Cons q qs)
  obtain r w1 where x: "execContext sql q (fst wl) = (r, w1)" by fastforce
  show ?case
  proof (cases r)
    case None
    with Cons.prems x have "exec_all (recording sql) (Suc i) qs (w1, snd wl @ [q]) = (e, wl')"
      by (simp add: recording_def)
    from Cons.IH [OF this] obtain n where n: "n \<le> length qs" "snd wl' = snd wl @ take (Suc n) (q # qs)"
      "case e of None \<Rightarrow> n = length qs
       | Some err \<Rightarrow> 0 < n \<and> (\<exists>e' v. fst (execContext sql (qs ! (n - 1)) v) = Some e'
           \<and> err = statement_failed (Suc i + n) e')" by auto
    then show ?thesis
      by (intro exI [of _ "Suc n"]) (auto simp: nth_Cons' split: option.splits)
  next
    case (Some e')
    have "fst (execContext sql q (fst wl)) = Some e'" using x Some by simp
    then have "\<exists>e2 v. fst (execContext sql q v) = Some e2 \<and> statement_failed (i + 1) e' = statement_failed (i + 1) e2"
      by blast
    moreover have "e = Some (statement_failed (i + 1) e')" "wl' = (w1, snd wl @ [q])"
      using Cons.prems x Some by (auto simp: recording_def)
    ultimately show ?thesis by (intro exI [of _ 1]) simp
  qed
qed simp


text \<open>A database in memory: it takes any statement but one, whose name is \<open>bad\<close>.\<close>

definition toy_sql :: "string \<Rightarrow> bool sql" where
  "toy_sql bad = \<lparr>sqlOpen = (\<lambda>d dsn. None), setMaxOpenConns = (\<lambda>n w. w), setMaxIdleConns = (\<lambda>n w. w),
     setConnMaxLifetime = (\<lambda>n w. w), dbConn = (\<lambda>w. (None, w)),
     execContext = (\<lambda>q w. (if q = bad then Some (errorf ''syntax error'') else None, w)),
     queryContext = (\<lambda>q w. (Inr (1, None), w)), withTimeout = (\<lambda>n w. w), ctxErr = (\<lambda>w. w)\<rparr>"

definition dbtool_rc :: run_context where
  "dbtool_rc = runContext (sample_reconciler mem_client) sample_mj (Some sample_run)"


definition dbtool_wa :: workload_action where
  "dbtool_wa = \<lparr>wa_name = ''load'', wa_image = [], wa_command = [], wa_engine = ''postgres'',
     wa_queries = [''select 1'', ''select 2''], wa_concurrency = 0, wa_interval = Some 1500000000, wa_env = [],
     wa_deadline_margin = None, wa_colocate_with_app = [], wa_cpu_burn = 0\<rparr>"


section \<open>The workers\<close>

text \<open>What one worker has sent so far, at its position: whole rounds, and the start of one.\<close>

definition rounds :: "string list \<Rightarrow> position \<Rightarrow> string list \<Rightarrow> bool" where
  "rounds queries p sent \<longleftrightarrow>
     (\<exists>m j. sent = concat (replicate m queries) @ take j queries \<and> j \<le> length queries
        \<and> (case p of AtQuery i \<Rightarrow> i = j | InSelect \<Rightarrow> j = 0 | HasReturned \<Rightarrow> True))"

lemma roundsI:
  "sent = concat (replicate m queries) @ take j queries \<Longrightarrow> j \<le> length queries \<Longrightarrow>
   (case p of AtQuery i \<Rightarrow> i = j | InSelect \<Rightarrow> j = 0 | HasReturned \<Rightarrow> True) \<Longrightarrow> rounds queries p sent"
  unfolding rounds_def by blast

lemma worker_step_rounds:
  assumes "rounds queries p sent" and "worker_step sql queries timer p w = (p', new, w')"
  shows "rounds queries p' (sent @ new)"
proof -
  obtain m j where mj: "sent = concat (replicate m queries) @ take j queries" "j \<le> length queries"
    "case p of AtQuery i \<Rightarrow> i = j | InSelect \<Rightarrow> j = 0 | HasReturned \<Rightarrow> True"
    using assms(1) by (auto simp: rounds_def)
  have whole: "concat (replicate m queries) @ queries = concat (replicate (Suc m) queries)"
    by (induction m) simp_all
  show ?thesis
  proof (cases p)
    case (AtQuery i)
    with mj(3) have i: "p = AtQuery j" by simp
    consider "j < length queries" "ctxErr sql w" | "j < length queries" "\<not> ctxErr sql w" | "j = length queries"
      using mj(2) by linarith
    then show ?thesis
    proof cases
      case 1
      with i assms(2) have "p' = HasReturned" "new = []" by (auto simp: worker_step_def)
      with mj show ?thesis by (intro roundsI [of _ m queries j]) simp_all
    next
      case 2
      with i assms(2) have "p' = AtQuery (Suc j)" "new = [queries ! j]" by (auto simp: worker_step_def)
      with 2 mj(1) show ?thesis
        by (intro roundsI [of _ m queries "Suc j"]) (simp_all add: take_Suc_conv_app_nth)
    next
      case 3
      with i assms(2) have "p' = InSelect" "new = []" by (auto simp: worker_step_def)
      with 3 mj(1) whole show ?thesis by (intro roundsI [of _ "Suc m" queries 0]) simp_all
    qed
  next
    case InSelect
    with mj assms(2) show ?thesis
      by (intro roundsI [of _ m queries 0]) (auto simp: worker_step_def split: if_splits)
  next
    case HasReturned
    with mj assms(2) show ?thesis by (intro roundsI [of _ m queries j]) (auto simp: worker_step_def)
  qed
qed

definition sent_by :: "nat \<Rightarrow> (nat \<times> string) list \<Rightarrow> string list" where
  "sent_by i sent = map snd (filter (\<lambda>x. fst x = i) sent)"

lemma sent_by_append: "sent_by i (xs @ map (Pair k) ys) = sent_by i xs @ (if i = k then ys else [])"
  by (induction ys) (auto simp: sent_by_def)

definition pool_rounds :: "string list \<Rightarrow> 'w pool \<Rightarrow> bool" where
  "pool_rounds queries pl \<longleftrightarrow>
     (\<forall>i < length (pl_workers pl). rounds queries (pl_workers pl ! i) (sent_by i (pl_sent pl)))
   \<and> (\<forall>x \<in> set (pl_sent pl). fst x < length (pl_workers pl))"

lemma pool_step_rounds: "pool_rounds queries pl \<Longrightarrow> pool_rounds queries (pool_step sql queries ev pl)"
proof -
  assume inv: "pool_rounds queries pl"
  show ?thesis
  proof (cases "fst ev < length (pl_workers pl)")
    case True
    obtain p new w where s: "worker_step sql queries (snd ev) (pl_workers pl ! fst ev) (pl_world pl) = (p, new, w)"
      using prod_cases3 by blast
    with True inv have "rounds queries p (sent_by (fst ev) (pl_sent pl) @ new)"
      by (auto simp: pool_rounds_def intro: worker_step_rounds)
    with True inv s show ?thesis
      by (auto simp: pool_step_def pool_rounds_def sent_by_append nth_list_update Let_def)
  qed (use inv in \<open>simp add: pool_step_def\<close>)
qed

lemma run_pool_keeps:
  "I pl \<Longrightarrow> (\<And>ev pl. I pl \<Longrightarrow> I (pool_step sql queries ev pl)) \<Longrightarrow> I (run_pool sql queries sched pl)"
  by (induction sched arbitrary: pl) (simp_all add: run_pool_def)

text \<open>
  Each worker sends the queries round after round, in order. However the workers are scheduled,
  and whatever the database answers, what worker i has sent at any time is a number of whole rounds
  of the queries and the start of another; an error of a query does not change the order. Nobody
  else sends anything, and there are as many workers as the flag says, none for zero or less.
\<close>

theorem workers_send_rounds:
  "(\<exists>m j. sent_by i (pl_sent (run_pool sql queries sched (start_pool concurrency w)))
       = concat (replicate m queries) @ take j queries)
   \<and> (\<forall>x \<in> set (pl_sent (run_pool sql queries sched (start_pool concurrency w))). fst x < nat concurrency)
   \<and> length (pl_workers (run_pool sql queries sched (start_pool concurrency w))) = nat concurrency"
proof -
  let ?pl = "run_pool sql queries sched (start_pool concurrency w)"
  have len: "length (pl_workers ?pl) = nat concurrency"
    by (rule run_pool_keeps) (auto simp: start_pool_def pool_step_def Let_def split: prod.splits)
  have start: "pool_rounds queries (start_pool concurrency w)"
    by (auto simp: pool_rounds_def start_pool_def sent_by_def rounds_def intro: exI [of _ 0])
  then have inv: "pool_rounds queries ?pl"
    by (rule run_pool_keeps) (rule pool_step_rounds)
  have "\<exists>m j. sent_by i (pl_sent ?pl) = concat (replicate m queries) @ take j queries"
  proof (cases "i < nat concurrency")
    case True
    with inv len have "rounds queries (pl_workers ?pl ! i) (sent_by i (pl_sent ?pl))" by (simp add: pool_rounds_def)
    then show ?thesis unfolding rounds_def by blast
  next
    case False
    then have "sent_by i (pl_sent ?pl) = []"
      using inv len by (auto simp: pool_rounds_def sent_by_def filter_empty_conv)
    then show ?thesis by (intro exI [of _ 0]) simp
  qed
  with inv len show ?thesis by (auto simp: pool_rounds_def)
qed

text \<open>How many of its own steps a worker is from its return once the context is done.\<close>

fun steps_left :: "string list \<Rightarrow> position \<Rightarrow> nat" where
  "steps_left queries (AtQuery i) = (if i < length queries then 1 else 3)"
| "steps_left queries InSelect = 2"
| "steps_left queries HasReturned = 0"

lemma worker_step_left:
  assumes "ctxErr sql w" and "queries \<noteq> []" and "worker_step sql queries timer p w = (p', new, w')"
  shows "steps_left queries p' \<le> steps_left queries p - 1 \<and> new = [] \<and> w' = w"
  using assms by (cases p) (auto simp: worker_step_def split: if_splits)

lemma run_pool_left:
  assumes "queries \<noteq> []" and "ctxErr sql (pl_world pl)" and "i < length (pl_workers pl)"
  shows "steps_left queries (pl_workers (run_pool sql queries sched pl) ! i)
       \<le> steps_left queries (pl_workers pl ! i) - count_list (map fst sched) i
    \<and> pl_sent (run_pool sql queries sched pl) = pl_sent pl
    \<and> pl_world (run_pool sql queries sched pl) = pl_world pl
    \<and> length (pl_workers (run_pool sql queries sched pl)) = length (pl_workers pl)"
  using assms(2,3)
proof (induction sched arbitrary: pl)
  case Nil
  then show ?case by (simp add: run_pool_def)
next
  case (Cons ev sched)
  let ?pl = "pool_step sql queries ev pl"
  have same: "pl_sent ?pl = pl_sent pl" "pl_world ?pl = pl_world pl"
    "length (pl_workers ?pl) = length (pl_workers pl)"
    and less: "steps_left queries (pl_workers ?pl ! i)
        \<le> steps_left queries (pl_workers pl ! i) - (if fst ev = i then 1 else 0)"
    using worker_step_left [OF Cons.prems(1) assms(1)] Cons.prems(2)
    by (auto simp: pool_step_def Let_def nth_list_update split: prod.splits)
  have "run_pool sql queries (ev # sched) pl = run_pool sql queries sched ?pl" by (simp add: run_pool_def)
  with Cons.IH [of ?pl] Cons.prems same less show ?case by (auto simp: le_diff_conv)
qed

text \<open>
  C33. dbtool stops. Once the context is done (the signal or the deadline), no worker sends another
  query, and each returns within three of its own steps, whatever the timers do: after any
  schedule that gives every worker three steps the wait group is released.
\<close>

theorem workers_stop:
  assumes "queries \<noteq> []" and "ctxErr sql (pl_world pl)"
    and "\<And>i. i < length (pl_workers pl) \<Longrightarrow> 3 \<le> count_list (map fst sched) i"
  shows "all_returned (run_pool sql queries sched pl)
    \<and> pl_sent (run_pool sql queries sched pl) = pl_sent pl"
proof (cases "pl_workers pl")
  case Nil
  then have "run_pool sql queries sched pl = pl"
    unfolding run_pool_def by (induction sched) (simp_all add: pool_step_def)
  with Nil show ?thesis by (simp add: all_returned_def)
next
  case (Cons p ps)
  note left = run_pool_left [OF assms(1,2), of _ sched]
  have "pl_workers (run_pool sql queries sched pl) ! i = HasReturned" if i: "i < length (pl_workers pl)" for i
  proof -
    have "steps_left queries (pl_workers pl ! i) \<le> 3" by (cases "pl_workers pl ! i") auto
    with left [OF i] assms(3) [OF i] have "steps_left queries (pl_workers (run_pool sql queries sched pl) ! i) = 0"
      by linarith
    then show ?thesis by (cases "pl_workers (run_pool sql queries sched pl) ! i") (auto split: if_splits)
  qed
  with left [of 0] Cons show ?thesis
    by (auto simp: all_returned_def list_all_length)
qed

theorem workers_stop_witness:
  "all_returned (run_pool (toy_sql ''b'') [''q''] [(0, True), (1, False), (0, True), (1, True), (1, False), (0, False)]
     \<lparr>pl_workers = [InSelect, AtQuery 1], pl_sent = [], pl_world = True\<rparr>)"
proof -
  have "3 \<le> count_list (map fst [(0, True), (1, False), (0, True), (1, True), (1, False), (0, False)]) i"
    if "i < length [InSelect, AtQuery 1]" for i :: nat
  proof -
    from that have "i = 0 \<or> i = 1" by auto
    then show ?thesis by auto
  qed
  then show ?thesis
    using workers_stop [of "[''q'']" "toy_sql ''b''" "\<lparr>pl_workers = [InSelect, AtQuery 1], pl_sent = [], pl_world = True\<rparr>"
        "[(0, True), (1, False), (0, True), (1, True), (1, False), (0, False)]"]
    by (simp add: toy_sql_def)
qed

end
