(* ===== verification/Api.thy ===== *)
theory Api
  imports Sample "HOL-Library.List_Lexorder" "HOL-Library.Char_ord" "HOL-Library.Multiset"
begin

text \<open>
  The REST server of the operator (operator/internal/api/server.go): its handlers as functions of
  the world to a response. Here a request is an endpoint with the path's name and, for a run, the
  content length and the decoded body (ApiServer has the routes from methods and paths to endpoints,
  and the listening); the reply of an endpoint is the value that is encoded as JSON.
\<close>

record 'w server =
  sv_client :: "'w client"
  sv_addr :: string
  sv_namespace :: string

definition NewServer :: "'w client \<Rightarrow> string \<Rightarrow> string \<Rightarrow> 'w server" where
  "NewServer c addr namespace = \<lparr>sv_client = c, sv_addr = addr, sv_namespace = namespace\<rparr>"

definition defaultRunDuration :: int where
  "defaultRunDuration = 900 * second"

section \<open>Requests and replies\<close>

record scenario_summary =
  sm_name :: string
  sm_display_name :: string
  sm_description :: string
  sm_category :: string
  sm_icon :: string
  sm_expected_symptoms :: "string list"
  sm_enabled :: bool
  sm_phase :: phase
  sm_current_run :: "current_run option"
  sm_last_completed_run_id :: string

record scenario_detail = scenario_summary +
  sd_duration :: string
  sd_actions :: "action list"
  sd_active_actions :: "active_action list"
  sd_history :: "run_history_entry list"
  sd_conditions :: "condition list"

datatype payload =
    Summaries "scenario_summary list"
  | Detail scenario_detail
  | StatusReply string
  | Running string
  | WasReset nat
  | ErrorReply string
  | PlainText string

record response =
  rs_code :: nat
  rs_body :: payload

definition writeJSON :: "nat \<Rightarrow> payload \<Rightarrow> response" where
  "writeJSON status v = \<lparr>rs_code = status, rs_body = v\<rparr>"

definition writeError :: "nat \<Rightarrow> string \<Rightarrow> response" where
  "writeError status msg = writeJSON status (ErrorReply msg)"

definition writeClientError :: "go_error \<Rightarrow> response" where
  "writeClientError e =
     (if isNotFound e then writeError 404 ''scenario not found'' else writeError 500 (err_text e))"

section \<open>Reading scenarios\<close>

definition summarize :: "maintenance_job \<Rightarrow> scenario_summary" where
  "summarize fs =
     (let phase = (if st_phase (mj_status_of fs) = PhaseUnset then PhaseIdle else st_phase (mj_status_of fs))
      in \<lparr>sm_name = mj_name fs, sm_display_name = sp_display_name (mj_spec_of fs),
          sm_description = sp_description (mj_spec_of fs), sm_category = sp_category (mj_spec_of fs),
          sm_icon = sp_icon (mj_spec_of fs), sm_expected_symptoms = sp_expected_symptoms (mj_spec_of fs),
          sm_enabled = sp_enabled (mj_spec_of fs), sm_phase = phase,
          sm_current_run = st_current_run (mj_status_of fs),
          sm_last_completed_run_id = st_last_completed_run_id (mj_status_of fs)\<rparr>)"

text \<open>\<^verbatim>\<open>sort.Slice\<close> by name; the names of one namespace are distinct.\<close>

definition handleList :: "'w server \<Rightarrow> 'w \<Rightarrow> response \<times> 'w" where
  "handleList s w =
     (case listMJ (sv_client s) w (sv_namespace s) of
        Inl e \<Rightarrow> (writeError 500 (err_text e), w)
      | Inr items \<Rightarrow> (writeJSON 200 (Summaries (sort_key sm_name (map summarize items))), w))"

definition get_scenario :: "'w server \<Rightarrow> string \<Rightarrow> 'w \<Rightarrow> go_error + maintenance_job" where
  "get_scenario s name w = getMJ (sv_client s) w (sv_namespace s, name)"

definition detail_of :: "maintenance_job \<Rightarrow> scenario_detail" where
  "detail_of fs = scenario_summary.extend (summarize fs)
     (scenario_detail.fields
        (case sp_duration (mj_spec_of fs) of None \<Rightarrow> [] | Some d \<Rightarrow> durationString d)
        (sp_actions (mj_spec_of fs)) (st_active_actions (mj_status_of fs))
        (st_history (mj_status_of fs)) (st_conditions (mj_status_of fs)))"

definition handleGet :: "'w server \<Rightarrow> string \<Rightarrow> 'w \<Rightarrow> response \<times> 'w" where
  "handleGet s name w =
     (case get_scenario s name w of
        Inl e \<Rightarrow> (writeClientError e, w)
      | Inr fs \<Rightarrow> (writeJSON 200 (Detail (detail_of fs)), w))"

section \<open>Changing scenarios\<close>

definition mutate_once ::
  "'w server \<Rightarrow> string \<Rightarrow> (maintenance_job \<Rightarrow> maintenance_job) \<Rightarrow> 'w \<Rightarrow> (go_error + maintenance_job) \<times> 'w" where
  "mutate_once s name apply_to w =
     (case getMJ (sv_client s) w (sv_namespace s, name) of
        Inl e \<Rightarrow> (Inl e, w)
      | Inr fs \<Rightarrow> updateMJ (sv_client s) w (apply_to fs))"

definition mutate ::
  "'w server \<Rightarrow> string \<Rightarrow> (maintenance_job \<Rightarrow> maintenance_job) \<Rightarrow> 'w \<Rightarrow> go_error option \<times> 'w" where
  "mutate s name apply_to w =
     (case retryOnConflict (sv_client s) (mutate_once s name apply_to) w of
        (Inl e, w1) \<Rightarrow> (Some e, w1)
      | (Inr _, w1) \<Rightarrow> (None, w1))"

definition switch_on :: "maintenance_job \<Rightarrow> maintenance_job" where
  "switch_on fs = fs\<lparr>mj_spec_of := (mj_spec_of fs)\<lparr>sp_enabled := True\<rparr>\<rparr>"

definition switch_off :: "maintenance_job \<Rightarrow> maintenance_job" where
  "switch_off fs = fs\<lparr>mj_spec_of := (mj_spec_of fs)\<lparr>sp_enabled := False, sp_trigger := None\<rparr>\<rparr>"

definition set_trigger :: "string \<Rightarrow> int \<Rightarrow> maintenance_job \<Rightarrow> maintenance_job" where
  "set_trigger runID duration fs = fs\<lparr>mj_spec_of := (mj_spec_of fs)\<lparr>sp_trigger :=
     Some \<lparr>ts_run_id = runID, ts_duration = Some duration\<rparr>\<rparr>\<rparr>"

definition handleEnable :: "'w server \<Rightarrow> string \<Rightarrow> 'w \<Rightarrow> response \<times> 'w" where
  "handleEnable s name w =
     (case mutate s name switch_on w of
        (Some e, w1) \<Rightarrow> (writeClientError e, w1)
      | (None, w1) \<Rightarrow> (writeJSON 200 (StatusReply ''enabled''), w1))"

definition handleDisable :: "'w server \<Rightarrow> string \<Rightarrow> 'w \<Rightarrow> response \<times> 'w" where
  "handleDisable s name w =
     (case mutate s name switch_off w of
        (Some e, w1) \<Rightarrow> (writeClientError e, w1)
      | (None, w1) \<Rightarrow> (writeJSON 200 (StatusReply ''disabled''), w1))"

text \<open>
  The body of a run request: an empty body is the decoder's EOF, which the handler accepts; the
  product of the seconds with a second wraps.
\<close>

definition decode_run :: "raw_json \<Rightarrow> go_error + int" where
  "decode_run body =
     (if body = RawEmpty then Inr 0 else bind_err (asObj body) (\<lambda>m. int64_field m ''durationSeconds''))"

definition run_duration :: "int \<Rightarrow> raw_json \<Rightarrow> string + int" where
  "run_duration contentLength body =
     (if contentLength = 0 then Inr defaultRunDuration
      else
        (case decode_run body of
           Inl e \<Rightarrow> Inl (''invalid request body: '' @ err_text e)
         | Inr n \<Rightarrow>
             if n < 0 then Inl ''durationSeconds must be >= 0''
             else if n > 0 then Inr (wrap64 (n * second))
             else Inr defaultRunDuration))"

definition handleRun :: "'w server \<Rightarrow> string \<Rightarrow> int \<Rightarrow> raw_json \<Rightarrow> 'w \<Rightarrow> response \<times> 'w" where
  "handleRun s name contentLength body w =
     (case run_duration contentLength body of
        Inl msg \<Rightarrow> (writeError 400 msg, w)
      | Inr duration \<Rightarrow>
          let (runID, w1) = newUUID (sv_client s) w in
          (case mutate s name (set_trigger runID duration) w1 of
             (Some e, w2) \<Rightarrow> (writeClientError e, w2)
           | (None, w2) \<Rightarrow> (writeJSON 200 (Running runID), w2)))"

text \<open>The loop of a reset stops at the first scenario that could not be changed.\<close>

fun reset_loop :: "'w server \<Rightarrow> string list \<Rightarrow> 'w \<Rightarrow> go_error option \<times> 'w" where
  "reset_loop s [] w = (None, w)"
| "reset_loop s (name # names) w =
     (case mutate s name switch_off w of
        (Some e, w1) \<Rightarrow> (Some e, w1)
      | (None, w1) \<Rightarrow> reset_loop s names w1)"

definition handleReset :: "'w server \<Rightarrow> 'w \<Rightarrow> response \<times> 'w" where
  "handleReset s w =
     (case listMJ (sv_client s) w (sv_namespace s) of
        Inl e \<Rightarrow> (writeError 500 (err_text e), w)
      | Inr items \<Rightarrow>
          (case reset_loop s (map mj_name items) w of
             (Some e, w1) \<Rightarrow> (writeClientError e, w1)
           | (None, w1) \<Rightarrow> (writeJSON 200 (WasReset (length items)), w1)))"

section \<open>The routes\<close>

datatype endpoint =
    ListScenarios
  | GetScenario string
  | Enable string
  | Disable string
  | RunScenario string int raw_json
  | Reset
  | Healthz

fun routes :: "'w server \<Rightarrow> endpoint \<Rightarrow> 'w \<Rightarrow> response \<times> 'w" where
  "routes s ListScenarios w = handleList s w"
| "routes s (GetScenario name) w = handleGet s name w"
| "routes s (Enable name) w = handleEnable s name w"
| "routes s (Disable name) w = handleDisable s name w"
| "routes s (RunScenario name contentLength body) w = handleRun s name contentLength body w"
| "routes s Reset w = handleReset s w"
| "routes s Healthz w = (\<lparr>rs_code = 200, rs_body = PlainText ''ok''\<rparr>, w)"

section \<open>A store of scenarios\<close>

text \<open>
  What the API server documents of an update that no other client gets in the way of: it succeeds,
  stores the spec that was sent and leaves the status and the other scenarios alone. Reads return
  the object asked for and an identifier costs nothing. A scenario being deleted is left out: its
  last update removes it.
\<close>

definition spec_store :: "'w client \<Rightarrow> bool" where
  "spec_store c \<longleftrightarrow>
     retry_ok (retryOnConflict c)
   \<and> (\<forall>w k fs. getMJ c w k = Inr fs \<longrightarrow> mj_key fs = k)
   \<and> (\<forall>w k. getMJ c (snd (newUUID c w)) k = getMJ c w k)
   \<and> (\<forall>w k fs spec. getMJ c w k = Inr fs \<longrightarrow> mj_deletion_timestamp fs = None \<longrightarrow>
        (\<exists>fs' w'. updateMJ c w (fs\<lparr>mj_spec_of := spec\<rparr>) = (Inr fs', w')
           \<and> getMJ c w' k = Inr fs' \<and> mj_spec_of fs' = spec \<and> mj_status_of fs' = mj_status_of fs
           \<and> mj_deletion_timestamp fs' = None
           \<and> (\<forall>j. j \<noteq> k \<longrightarrow> getMJ c w' j = getMJ c w j)))"

lemma mutate_stores:
  assumes "spec_store (sv_client s)" and "getMJ (sv_client s) w (sv_namespace s, name) = Inr fs"
    and "mj_deletion_timestamp fs = None" and "apply_to fs = fs\<lparr>mj_spec_of := spec\<rparr>"
  obtains fs' w' where "mutate s name apply_to w = (None, w')"
    and "getMJ (sv_client s) w' (sv_namespace s, name) = Inr fs'" and "mj_spec_of fs' = spec"
    and "mj_status_of fs' = mj_status_of fs" and "mj_deletion_timestamp fs' = None"
    and "\<And>j. j \<noteq> (sv_namespace s, name) \<Longrightarrow> getMJ (sv_client s) w' j = getMJ (sv_client s) w j"
proof -
  have retry: "conflict_retry (retryOnConflict (sv_client s))"
    using assms(1) by (simp add: spec_store_def retry_ok_iff)
  obtain fs' w' where u: "updateMJ (sv_client s) w (fs\<lparr>mj_spec_of := spec\<rparr>) = (Inr fs', w')"
    and rest: "getMJ (sv_client s) w' (sv_namespace s, name) = Inr fs'" "mj_spec_of fs' = spec"
      "mj_status_of fs' = mj_status_of fs" "mj_deletion_timestamp fs' = None"
      "\<And>j. j \<noteq> (sv_namespace s, name) \<Longrightarrow> getMJ (sv_client s) w' j = getMJ (sv_client s) w j"
    using assms(1-3) unfolding spec_store_def by blast
  have "mutate_once s name apply_to w = (Inr fs', w')"
    using assms(2,4) u by (simp add: mutate_once_def)
  then have "retryOnConflict (sv_client s) (mutate_once s name apply_to) w = (Inr fs', w')"
    by (rule conflict_retry.no_conflict [OF retry]) simp
  then have "mutate s name apply_to w = (None, w')" by (simp add: mutate_def)
  with rest that show thesis by blast
qed

lemma mem_spec_store: "spec_store mem_client"
proof -
  have "\<exists>fs' w'. mem_updateMJ w (fs\<lparr>mj_spec_of := spec\<rparr>) = (Inr fs', w')
      \<and> find_obj mj_key (cl_mjs w') k = Inr fs' \<and> mj_spec_of fs' = spec \<and> mj_status_of fs' = mj_status_of fs
      \<and> mj_deletion_timestamp fs' = None
      \<and> (\<forall>j. j \<noteq> k \<longrightarrow> find_obj mj_key (cl_mjs w') j = find_obj mj_key (cl_mjs w) j)"
    if "find_obj mj_key (cl_mjs w) k = Inr fs" "mj_deletion_timestamp fs = None" for w k fs spec
  proof -
    have "lookup mj_key (cl_mjs w) k = Some fs" using that(1) by (simp add: find_obj_def split: option.splits)
    moreover from this have "mj_key fs = k" by (rule lookup_key)
    ultimately show ?thesis
      using that(2) by (simp add: mem_updateMJ_def store_mj_def Let_def find_obj_def lookup_put mj_key_def)
  qed
  note update = this
  have key: "mj_key fs = k" if "find_obj mj_key (cl_mjs w) k = Inr fs" for w k fs
    using that by (auto simp: find_obj_def dest: lookup_key split: option.splits)
  have new: "cl_mjs (snd (newUUID (memory retry) w)) = cl_mjs w" for retry w
    by simp
  show ?thesis
    unfolding spec_store_def mem_client_def memory_simps(10,11,16) new
    by (intro conjI allI impI retry_steps_ok key update refl) assumption+
qed

section \<open>Starting a run\<close>

lemma handleRun_stores:
  assumes "spec_store (sv_client s)" and "getMJ (sv_client s) w (sv_namespace s, name) = Inr fs"
    and "mj_deletion_timestamp fs = None" and "run_duration len body = Inr d"
  obtains w' fs' where "handleRun s name len body w = (writeJSON 200 (Running (fst (newUUID (sv_client s) w))), w')"
    and "getMJ (sv_client s) w' (sv_namespace s, name) = Inr fs'"
    and "mj_spec_of fs' = (mj_spec_of fs)\<lparr>sp_trigger :=
           Some \<lparr>ts_run_id = fst (newUUID (sv_client s) w), ts_duration = Some d\<rparr>\<rparr>"
    and "mj_status_of fs' = mj_status_of fs"
proof -
  obtain runID w1 where u: "newUUID (sv_client s) w = (runID, w1)" by fastforce
  have "getMJ (sv_client s) w1 (sv_namespace s, name) = Inr fs"
    using assms(1,2) u unfolding spec_store_def by (metis snd_conv)
  from mutate_stores [where name = name, OF assms(1) this assms(3),
      where apply_to = "set_trigger runID d" and spec = "(mj_spec_of fs)\<lparr>sp_trigger := Some \<lparr>ts_run_id = runID, ts_duration = Some d\<rparr>\<rparr>"]
  obtain fs' w' where "mutate s name (set_trigger runID d) w1 = (None, w')"
    "getMJ (sv_client s) w' (sv_namespace s, name) = Inr fs'"
    "mj_spec_of fs' = (mj_spec_of fs)\<lparr>sp_trigger := Some \<lparr>ts_run_id = runID, ts_duration = Some d\<rparr>\<rparr>"
    "mj_status_of fs' = mj_status_of fs" by (metis set_trigger_def)
  with that u assms(4) show thesis by (simp add: handleRun_def)
qed


definition sample_server :: "cluster server" where
  "sample_server = \<lparr>sv_client = mem_client, sv_addr = '':8080'', sv_namespace = ''shop''\<rparr>"

lemma sample_server_facts:
  "spec_store (sv_client sample_server)"
  "getMJ (sv_client sample_server) sample_cluster (sv_namespace sample_server, ''outage'') = Inr sample_mj"
  "mj_deletion_timestamp sample_mj = None"
  by (simp_all add: sample_server_def mem_spec_store)
     (simp_all add: mem_client_def sample_defs find_obj_def lookup_def mj_key_def)

definition ask_seconds :: "int \<Rightarrow> raw_json" where
  "ask_seconds n = Raw (JObj [(''durationSeconds'', JNum n)])"


text \<open>
  A run request for more than 292 years is a run without an end. The seconds are multiplied
  without a check: for 9223372037 seconds the product wraps to a negative duration, the request is
  answered as any other, and the run that the reconciler starts for the stored trigger has no
  expiry, so that its faults stay until the trigger is cleared.
\<close>

theorem run_request_wraps:
  assumes "spec_store (sv_client s)" and "getMJ (sv_client s) w (sv_namespace s, name) = Inr fs"
    and "mj_deletion_timestamp fs = None" and "sp_enabled (mj_spec_of fs) = False"
    and "runID = fst (newUUID (sv_client s) w)" and "runID \<notin> {[], st_last_completed_run_id (mj_status_of fs)}"
    and "len \<noteq> 0" and "body = Raw (JObj [(''durationSeconds'', JNum 9223372037)])"
  shows "\<exists>w' fs' msg. handleRun s name len body w = (writeJSON 200 (Running runID), w')
    \<and> getMJ (sv_client s) w' (sv_namespace s, name) = Inr fs'
    \<and> maybeStartRun r fs' v =
        (case patchStatus r fs' (\<lambda>u st. st\<lparr>st_current_run := Some \<lparr>cr_id = runID, cr_trigger = RunTriggerManual,
             cr_started_at = clock (r_client r) v, cr_expires_at = None\<rparr>, st_phase := PhaseActivating\<rparr>) v of
           (Inl e, w2) \<Rightarrow> (failing e, w2)
         | (Inr fs'', w2) \<Rightarrow> (requeue_now, eventf r fs'' EventNormal ''RunStarted'' msg w2))"
proof -
  have "run_duration len body = Inr (wrap64 9223372037000000000)"
    using assms(7,8)
    by (simp add: run_duration_def decode_run_def asObj_def int64_field_def int64_ok_def second_def)
  then have d: "run_duration len body = Inr (- 9223372036709551616)"
    by (simp add: wrap64_def signed_take_bit_eq_take_bit_minus take_bit_eq_mod)
  obtain w' fs' where w': "handleRun s name len body w = (writeJSON 200 (Running runID), w')"
    "getMJ (sv_client s) w' (sv_namespace s, name) = Inr fs'"
    and spec: "mj_spec_of fs' = (mj_spec_of fs)\<lparr>sp_trigger :=
           Some \<lparr>ts_run_id = runID, ts_duration = Some (- 9223372036709551616)\<rparr>\<rparr>"
      "mj_status_of fs' = mj_status_of fs"
    by (rule handleRun_stores [OF assms(1-3) d, folded assms(5)])
  have "desiredRun (r_client r) fs' v = (Some (RunTriggerManual, runID, - 9223372036709551616), v)"
    using assms(4,6) spec by (simp add: desiredRun_def)
  then show ?thesis
    using w' by (simp add: maybeStartRun_def Let_def) blast
qed

theorem run_request_wraps_witness:
  "rs_code (fst (handleRun sample_server ''outage'' 36 (ask_seconds 9223372037)
     (sample_cluster\<lparr>cl_mjs := [switch_off sample_mj]\<rparr>))) = 200"
proof -
  let ?w = "sample_cluster\<lparr>cl_mjs := [switch_off sample_mj]\<rparr>"
  have get: "getMJ (sv_client sample_server) ?w (sv_namespace sample_server, ''outage'') = Inr (switch_off sample_mj)"
    by (simp add: sample_server_def mem_client_def sample_mj_def switch_off_def find_obj_def lookup_def mj_key_def)
  have live: "mj_deletion_timestamp (switch_off sample_mj) = None" "sp_enabled (mj_spec_of (switch_off sample_mj)) = False"
    by (simp_all add: switch_off_def sample_mj_def)
  have new: "fst (newUUID (sv_client sample_server) ?w) \<notin> {[], st_last_completed_run_id (mj_status_of (switch_off sample_mj))}"
    by (simp add: sample_server_def mem_client_def switch_off_def sample_mj_def sample_status_def)
  from run_request_wraps [OF sample_server_facts(1) get live refl new _ ask_seconds_def, of 36
      "sample_reconciler mem_client" sample_cluster]
  show ?thesis by (auto simp: writeJSON_def)
qed

section \<open>Reset and list\<close>

lemma listed_once:
  assumes "\<And>fs. fs \<in> set items \<Longrightarrow> getMJ c w (ns, mj_name fs) = Inr fs \<and> mj_deletion_timestamp fs = None"
    and "fs \<in> set items" and "fs' \<in> set items" and "mj_name fs' = mj_name fs"
  shows "fs' = fs"
  using assms(1) [OF assms(2)] assms(1) [OF assms(3)] assms(4) by (metis sum.inject(2))

lemma switched_off:
  "sp_enabled spec = False \<Longrightarrow> sp_trigger spec = None \<Longrightarrow>
   spec\<lparr>sp_enabled := False, sp_trigger := None\<rparr> = (spec :: mj_spec)"
  by (cases spec) simp

lemma reset_loop_stores:
  assumes "spec_store (sv_client s)"
    and "\<And>n. n \<in> set names \<Longrightarrow> \<exists>fs. getMJ (sv_client s) w (sv_namespace s, n) = Inr fs
           \<and> mj_deletion_timestamp fs = None \<and> frame n fs"
    and "\<And>n fs fs'. frame n fs \<Longrightarrow> mj_status_of fs' = mj_status_of fs \<Longrightarrow>
           mj_spec_of fs' = (mj_spec_of fs)\<lparr>sp_enabled := False, sp_trigger := None\<rparr> \<Longrightarrow> frame n fs'"
  shows "\<exists>w'. reset_loop s names w = (None, w')
    \<and> (\<forall>n \<in> set names. \<exists>fs. getMJ (sv_client s) w' (sv_namespace s, n) = Inr fs \<and> frame n fs
         \<and> sp_enabled (mj_spec_of fs) = False \<and> sp_trigger (mj_spec_of fs) = None)
    \<and> (\<forall>j. j \<notin> Pair (sv_namespace s) ` set names \<longrightarrow> getMJ (sv_client s) w' j = getMJ (sv_client s) w j)"
  using assms(2)
proof (induction names arbitrary: w)
  case Nil
  then show ?case by simp
next
  case (Cons n names)
  from Cons.prems [of n] obtain fs where fs: "getMJ (sv_client s) w (sv_namespace s, n) = Inr fs"
    "mj_deletion_timestamp fs = None" "frame n fs" by auto
  obtain fs' w1 where m: "mutate s n switch_off w = (None, w1)"
    and fs': "getMJ (sv_client s) w1 (sv_namespace s, n) = Inr fs'" "mj_deletion_timestamp fs' = None"
      "mj_spec_of fs' = (mj_spec_of fs)\<lparr>sp_enabled := False, sp_trigger := None\<rparr>" "mj_status_of fs' = mj_status_of fs"
    and others: "\<And>j. j \<noteq> (sv_namespace s, n) \<Longrightarrow> getMJ (sv_client s) w1 j = getMJ (sv_client s) w j"
    using mutate_stores [where apply_to = switch_off, OF assms(1) fs(1,2) switch_off_def] by metis
  have frame': "frame n fs'" using assms(3) [OF fs(3) fs'(4,3)] .
  have "\<exists>fs. getMJ (sv_client s) w1 (sv_namespace s, m) = Inr fs \<and> mj_deletion_timestamp fs = None \<and> frame m fs"
    if "m \<in> set names" for m
    using Cons.prems [of m] that others [of "(sv_namespace s, m)"] fs' frame' by (cases "m = n") auto
  from Cons.IH [OF this] obtain w' where w': "reset_loop s names w1 = (None, w')"
    and switched: "\<forall>n \<in> set names. \<exists>fs. getMJ (sv_client s) w' (sv_namespace s, n) = Inr fs \<and> frame n fs
         \<and> sp_enabled (mj_spec_of fs) = False \<and> sp_trigger (mj_spec_of fs) = None"
    and rest: "\<And>j. j \<notin> Pair (sv_namespace s) ` set names \<Longrightarrow> getMJ (sv_client s) w' j = getMJ (sv_client s) w1 j"
    by blast
  have "\<exists>fs. getMJ (sv_client s) w' (sv_namespace s, n) = Inr fs \<and> frame n fs
         \<and> sp_enabled (mj_spec_of fs) = False \<and> sp_trigger (mj_spec_of fs) = None"
  proof (cases "n \<in> set names")
    case False
    then have "(sv_namespace s, n) \<notin> Pair (sv_namespace s) ` set names" by auto
    from rest [OF this] have "getMJ (sv_client s) w' (sv_namespace s, n) = Inr fs'" using fs'(1) by simp
    with fs' frame' show ?thesis by simp
  qed (use switched in blast)
  with m w' switched rest others show ?case by auto
qed

text \<open>What a reset keeps of the listed scenarios of a name: the status, and the spec but for its switches.\<close>

definition kept_of :: "maintenance_job list \<Rightarrow> string \<Rightarrow> maintenance_job \<Rightarrow> bool" where
  "kept_of items n fs' \<longleftrightarrow> (\<forall>fs \<in> set items. mj_name fs = n \<longrightarrow>
      mj_status_of fs' = mj_status_of fs
      \<and> (mj_spec_of fs')\<lparr>sp_enabled := False, sp_trigger := None\<rparr>
          = (mj_spec_of fs)\<lparr>sp_enabled := False, sp_trigger := None\<rparr>)"

lemma kept_of_listed:
  assumes read: "\<And>fs. fs \<in> set items \<Longrightarrow> getMJ c w (ns, mj_name fs) = Inr fs \<and> mj_deletion_timestamp fs = None"
    and n: "n \<in> set (map mj_name items)"
  shows "\<exists>fs. getMJ c w (ns, n) = Inr fs \<and> mj_deletion_timestamp fs = None \<and> kept_of items n fs"
proof -
  from n obtain fs where fs: "fs \<in> set items" "n = mj_name fs" by auto
  have "kept_of items n fs"
    unfolding kept_of_def
  proof (intro ballI impI)
    fix fs' assume "fs' \<in> set items" "mj_name fs' = n"
    with fs have "fs' = fs" by (metis listed_once [OF read])
    then show "mj_status_of fs = mj_status_of fs'
        \<and> (mj_spec_of fs)\<lparr>sp_enabled := False, sp_trigger := None\<rparr>
          = (mj_spec_of fs')\<lparr>sp_enabled := False, sp_trigger := None\<rparr>" by simp
  qed
  with fs read show ?thesis by blast
qed

lemma kept_of_off:
  assumes "kept_of items (mj_name fs) fs'" "fs \<in> set items"
    and off: "sp_enabled (mj_spec_of fs') = False" "sp_trigger (mj_spec_of fs') = None"
  shows "mj_status_of fs' = mj_status_of fs
    \<and> mj_spec_of fs' = (mj_spec_of fs)\<lparr>sp_enabled := False, sp_trigger := None\<rparr>
    \<and> desiredRun c fs' v = (None, v) \<and> (\<forall>run. \<not> runStillWanted fs' run)"
proof -
  have "\<not> runStillWanted fs' run" for run
    using off by (cases "cr_trigger run") (simp_all add: runStillWanted_def)
  moreover have "desiredRun c fs' v = (None, v)" using off by (simp add: desiredRun_def)
  ultimately show ?thesis using assms(1,2) switched_off [OF off] by (auto simp: kept_of_def)
qed



text \<open>
  The list view shows every scenario of the namespace once, by name. The reply holds the
  summaries of the listed resources, in the order of their names, and no summary has an unset phase:
  a scenario not yet looked at is shown as idle. Nothing is changed.
\<close>

theorem list_shows_all:
  assumes "listMJ (sv_client s) w (sv_namespace s) = Inr items"
  shows "\<exists>out. handleList s w = (writeJSON 200 (Summaries out), w)
    \<and> sorted (map sm_name out) \<and> mset out = mset (map summarize items)
    \<and> mset (map sm_name out) = mset (map mj_name items)
    \<and> (\<forall>x \<in> set out. sm_phase x \<noteq> PhaseUnset)
    \<and> (\<forall>fs \<in> set items. st_phase (mj_status_of fs) \<noteq> PhaseUnset \<longrightarrow>
         (\<exists>x \<in> set out. sm_name x = mj_name fs \<and> sm_phase x = st_phase (mj_status_of fs)))"
proof -
  have "sm_name (summarize fs) = mj_name fs" for fs by (simp add: summarize_def Let_def)
  then have "map sm_name (map summarize items) = map mj_name items" by simp
  then have "mset (map sm_name (sort_key sm_name (map summarize items))) = mset (map mj_name items)"
    by (metis mset_map mset_sort)
  note names = this
  let ?out = "sort_key sm_name (map summarize items)"
  have "handleList s w = (writeJSON 200 (Summaries ?out), w)" using assms by (simp add: handleList_def)
  moreover have "sorted (map sm_name ?out)" "mset ?out = mset (map summarize items)" by simp_all
  moreover have "\<forall>x \<in> set ?out. sm_phase x \<noteq> PhaseUnset" by (auto simp: summarize_def Let_def)
  moreover have "\<forall>fs \<in> set items. st_phase (mj_status_of fs) \<noteq> PhaseUnset \<longrightarrow>
      (\<exists>x \<in> set ?out. sm_name x = mj_name fs \<and> sm_phase x = st_phase (mj_status_of fs))"
    by (auto simp: summarize_def Let_def)
  ultimately show ?thesis using names by blast
qed

theorem list_shows_all_witness:
  "\<exists>out. handleList sample_server (sample_cluster\<lparr>cl_mjs := [sample_mj, sample_mj\<lparr>mj_name := ''calm''\<rparr>]\<rparr>)
     = (writeJSON 200 (Summaries out), sample_cluster\<lparr>cl_mjs := [sample_mj, sample_mj\<lparr>mj_name := ''calm''\<rparr>]\<rparr>)
   \<and> sorted (map sm_name out) \<and> mset (map sm_name out) = {#''outage'', ''calm''#}"
proof -
  let ?w = "sample_cluster\<lparr>cl_mjs := [sample_mj, sample_mj\<lparr>mj_name := ''calm''\<rparr>]\<rparr>"
  have list: "listMJ (sv_client sample_server) ?w (sv_namespace sample_server) = Inr [sample_mj, sample_mj\<lparr>mj_name := ''calm''\<rparr>]"
    by (simp add: sample_server_def mem_client_def sample_mj_def)
  from list_shows_all [OF list] show ?thesis by (auto simp: sample_mj_def)
qed

end
