(* ===== verification/ApiServer.thy ===== *)
theory ApiServer
  imports Api
begin

text \<open>
  The API server around its handlers (operator/internal/api/server.go): the routes from methods and
  paths to handlers, after the patterns of Go's ServeMux, and \<^verbatim>\<open>Start\<close>, which runs the listener in a
  goroutine until the context is cancelled. The files of the web UI are a parameter.
\<close>

section \<open>Paths\<close>

definition hex_value :: "char \<Rightarrow> nat option" where
  "hex_value c =
     (let n = of_char c :: nat in
      if 48 \<le> n \<and> n \<le> 57 then Some (n - 48)
      else if 97 \<le> n \<and> n \<le> 102 then Some (n - 87)
      else if 65 \<le> n \<and> n \<le> 70 then Some (n - 55)
      else None)"

text \<open>\<^verbatim>\<open>url.PathUnescape\<close>; the ServeMux keeps a segment that cannot be unescaped as it is.\<close>

fun unescape :: "string \<Rightarrow> string option" where
  "unescape [] = Some []"
| "unescape (c # cs) =
     (if c = CHR ''%'' then
        (case cs of
           a # b # ds \<Rightarrow>
             (case (hex_value a, hex_value b) of
                (Some x, Some y) \<Rightarrow> map_option (Cons (char_of (16 * x + y))) (unescape ds)
              | _ \<Rightarrow> None)
         | _ \<Rightarrow> None)
      else map_option (Cons c) (unescape cs))"

definition pathUnescape :: "string \<Rightarrow> string" where
  "pathUnescape s = (case unescape s of None \<Rightarrow> s | Some t \<Rightarrow> t)"

text \<open>The segments of a clean path, which begins with a slash; a final slash gives an empty one.\<close>

definition segments :: "string \<Rightarrow> string list" where
  "segments path = map pathUnescape (split_on (CHR ''/'') (tl path))"

lemma unescape_plain: "CHR ''%'' \<notin> set s \<Longrightarrow> unescape s = Some s"
  by (induction s) auto

lemma pathUnescape_plain [simp]: "CHR ''%'' \<notin> set s \<Longrightarrow> pathUnescape s = s"
  by (simp add: pathUnescape_def unescape_plain)

section \<open>Patterns\<close>

text \<open>
  A literal segment, a wildcard \<^verbatim>\<open>{name}\<close> for one non-empty segment, and the final slash, which matches
  any rest. Among the patterns of one method the ServeMux prefers, from the first segment on, a literal
  to a wildcard and a wildcard to the rest; a HEAD request takes the patterns of GET when there is none
  of its own; and a path that only other methods match is answered with 405.
\<close>

datatype segment_pattern = Lit string | Wild | Rest

record 'h pattern =
  pt_method :: string
  pt_path :: "segment_pattern list"
  pt_handler :: 'h

fun segment_match :: "segment_pattern list \<Rightarrow> string list \<Rightarrow> string list option" where
  "segment_match [] [] = Some []"
| "segment_match [Rest] (s # ss) = Some []"
| "segment_match (Lit l # ps) (s # ss) = (if s = l then segment_match ps ss else None)"
| "segment_match (Wild # ps) (s # ss) = (if s = [] then None else map_option (Cons s) (segment_match ps ss))"
| "segment_match _ _ = None"

fun prefers :: "segment_pattern list \<Rightarrow> segment_pattern list \<Rightarrow> bool" where
  "prefers (Lit a # ps) (Lit b # qs) = prefers ps qs"
| "prefers (Lit a # ps) (q # qs) = True"
| "prefers (Wild # ps) (Wild # qs) = prefers ps qs"
| "prefers (Wild # ps) (Rest # qs) = True"
| "prefers _ _ = False"

fun best_match :: "'h pattern list \<Rightarrow> string list \<Rightarrow> ('h pattern \<times> string list) option" where
  "best_match [] segs = None"
| "best_match (p # ps) segs =
     (case segment_match (pt_path p) segs of
        None \<Rightarrow> best_match ps segs
      | Some args \<Rightarrow>
          (case best_match ps segs of
             None \<Rightarrow> Some (p, args)
           | Some (q, args') \<Rightarrow> if prefers (pt_path q) (pt_path p) then Some (q, args') else Some (p, args)))"

definition of_method :: "string \<Rightarrow> 'h pattern list \<Rightarrow> 'h pattern list" where
  "of_method m ps = filter (\<lambda>p. pt_method p = m) ps"

definition allowed_methods :: "'h pattern list \<Rightarrow> string list \<Rightarrow> string list" where
  "allowed_methods ps segs =
     (let ms = map pt_method (filter (\<lambda>p. segment_match (pt_path p) segs \<noteq> None) ps)
      in sort (remdups (ms @ (if ''GET'' \<in> set ms then [''HEAD''] else []))))"

datatype 'h found = Found 'h "string list" | MethodNotAllowed "string list" | NotFound

definition find_route :: "'h pattern list \<Rightarrow> string \<Rightarrow> string list \<Rightarrow> 'h found" where
  "find_route ps m segs =
     (case (case best_match (of_method m ps) segs of
              None \<Rightarrow> if m = ''HEAD'' then best_match (of_method ''GET'' ps) segs else None
            | found \<Rightarrow> found) of
        Some (p, args) \<Rightarrow> Found (pt_handler p) args
      | None \<Rightarrow> if allowed_methods ps segs = [] then NotFound else MethodNotAllowed (allowed_methods ps segs))"

section \<open>The routes of the server\<close>

datatype api_handler = HList | HGet | HEnable | HDisable | HRun | HReset | HHealthz | HUI

definition api_patterns :: "api_handler pattern list" where
  "api_patterns =
     [\<lparr>pt_method = ''GET'', pt_path = [Lit ''api'', Lit ''scenarios''], pt_handler = HList\<rparr>,
      \<lparr>pt_method = ''GET'', pt_path = [Lit ''api'', Lit ''scenarios'', Wild], pt_handler = HGet\<rparr>,
      \<lparr>pt_method = ''POST'', pt_path = [Lit ''api'', Lit ''scenarios'', Wild, Lit ''enable''], pt_handler = HEnable\<rparr>,
      \<lparr>pt_method = ''POST'', pt_path = [Lit ''api'', Lit ''scenarios'', Wild, Lit ''disable''], pt_handler = HDisable\<rparr>,
      \<lparr>pt_method = ''POST'', pt_path = [Lit ''api'', Lit ''scenarios'', Wild, Lit ''run''], pt_handler = HRun\<rparr>,
      \<lparr>pt_method = ''POST'', pt_path = [Lit ''api'', Lit ''reset''], pt_handler = HReset\<rparr>,
      \<lparr>pt_method = ''GET'', pt_path = [Lit ''healthz''], pt_handler = HHealthz\<rparr>,
      \<lparr>pt_method = ''GET'', pt_path = [Rest], pt_handler = HUI\<rparr>]"

record api_request =
  ar_method :: string
  ar_path :: string
  ar_content_length :: int
  ar_body :: raw_json

fun endpoint_of :: "api_request \<Rightarrow> api_handler \<Rightarrow> string list \<Rightarrow> endpoint option" where
  "endpoint_of q HList args = Some ListScenarios"
| "endpoint_of q HGet args = Some (GetScenario (hd args))"
| "endpoint_of q HEnable args = Some (Enable (hd args))"
| "endpoint_of q HDisable args = Some (Disable (hd args))"
| "endpoint_of q HRun args = Some (RunScenario (hd args) (ar_content_length q) (ar_body q))"
| "endpoint_of q HReset args = Some Reset"
| "endpoint_of q HHealthz args = Some Healthz"
| "endpoint_of q HUI args = None"

text \<open>The whole handler: \<open>ui\<close> answers for the embedded files.\<close>

definition handle_request ::
  "(string \<Rightarrow> response) \<Rightarrow> 'w server \<Rightarrow> api_request \<Rightarrow> 'w \<Rightarrow> response \<times> 'w" where
  "handle_request ui s q w =
     (case find_route api_patterns (ar_method q) (segments (ar_path q)) of
        Found h args \<Rightarrow>
          (case endpoint_of q h args of
             Some e \<Rightarrow> routes s e w
           | None \<Rightarrow> (ui (ar_path q), w))
      | MethodNotAllowed ms \<Rightarrow> (\<lparr>rs_code = 405, rs_body = PlainText ''Method Not Allowed''\<rparr>, w)
      | NotFound \<Rightarrow> (\<lparr>rs_code = 404, rs_body = PlainText ''404 page not found''\<rparr>, w))"

section \<open>Listening\<close>

text \<open>
  \<^verbatim>\<open>Start\<close>: the goroutine of the listener, the channel for its error, the context, and the result once
  Start has returned. \<^verbatim>\<open>ListenAndServe\<close> may end with any error at any time, with \<^verbatim>\<open>ErrServerClosed\<close> after a
  shutdown; what it gave is sent on the channel, nil in place of \<^verbatim>\<open>ErrServerClosed\<close>.
\<close>

datatype listener = Serving | Sending "go_error option" | Sent

record serving =
  sg_listener :: listener
  sg_errCh :: "go_error option list"
  sg_cancelled :: bool
  sg_result :: "go_error option option"

definition errCh_capacity :: nat where
  "errCh_capacity = 1"

definition start_state :: serving where
  "start_state = \<lparr>sg_listener = Serving, sg_errCh = [], sg_cancelled = False, sg_result = None\<rparr>"

definition sent_error :: "(go_error \<Rightarrow> bool) \<Rightarrow> go_error option \<Rightarrow> go_error option" where
  "sent_error isServerClosed err =
     (case err of None \<Rightarrow> None | Some e \<Rightarrow> if isServerClosed e then None else Some e)"

inductive Start_step :: "(go_error \<Rightarrow> bool) \<Rightarrow> serving \<Rightarrow> serving \<Rightarrow> bool" for isServerClosed where
  listen_ends: "sg_listener s = Serving \<Longrightarrow>
     Start_step isServerClosed s (s\<lparr>sg_listener := Sending (sent_error isServerClosed err)\<rparr>)"
| sends: "sg_listener s = Sending v \<Longrightarrow> length (sg_errCh s) < errCh_capacity \<Longrightarrow>
     Start_step isServerClosed s (s\<lparr>sg_listener := Sent, sg_errCh := sg_errCh s @ [v]\<rparr>)"
| cancelled: "\<not> sg_cancelled s \<Longrightarrow> Start_step isServerClosed s (s\<lparr>sg_cancelled := True\<rparr>)"
| shuts_down: "sg_result s = None \<Longrightarrow> sg_cancelled s \<Longrightarrow>
     Start_step isServerClosed s (s\<lparr>sg_result := Some shutdown_error\<rparr>)"
| receives: "sg_result s = None \<Longrightarrow> sg_errCh s = v # vs \<Longrightarrow>
     Start_step isServerClosed s (s\<lparr>sg_result := Some v, sg_errCh := vs\<rparr>)"

definition Server_NeedLeaderElection :: "'w server \<Rightarrow> bool" where
  "Server_NeedLeaderElection s = False"

inductive_cases Start_stepE: "Start_step isServerClosed s s'"

section \<open>What the routes are\<close>

lemma api_methods:
  "of_method ''GET'' api_patterns =
     [\<lparr>pt_method = ''GET'', pt_path = [Lit ''api'', Lit ''scenarios''], pt_handler = HList\<rparr>,
      \<lparr>pt_method = ''GET'', pt_path = [Lit ''api'', Lit ''scenarios'', Wild], pt_handler = HGet\<rparr>,
      \<lparr>pt_method = ''GET'', pt_path = [Lit ''healthz''], pt_handler = HHealthz\<rparr>,
      \<lparr>pt_method = ''GET'', pt_path = [Rest], pt_handler = HUI\<rparr>]"
  "of_method ''POST'' api_patterns =
     [\<lparr>pt_method = ''POST'', pt_path = [Lit ''api'', Lit ''scenarios'', Wild, Lit ''enable''], pt_handler = HEnable\<rparr>,
      \<lparr>pt_method = ''POST'', pt_path = [Lit ''api'', Lit ''scenarios'', Wild, Lit ''disable''], pt_handler = HDisable\<rparr>,
      \<lparr>pt_method = ''POST'', pt_path = [Lit ''api'', Lit ''scenarios'', Wild, Lit ''run''], pt_handler = HRun\<rparr>,
      \<lparr>pt_method = ''POST'', pt_path = [Lit ''api'', Lit ''reset''], pt_handler = HReset\<rparr>]"
  "m \<noteq> ''GET'' \<Longrightarrow> m \<noteq> ''POST'' \<Longrightarrow> of_method m api_patterns = []"
  by (auto simp: of_method_def api_patterns_def)

lemma segment_match_short:
  "segment_match (p # ps) [] = None" "segment_match [] (s # ss) = None"
  by (cases p; cases ps; simp)+

text \<open>The paths of one scenario, and of the commands on it.\<close>

definition scenario_path :: "string list \<Rightarrow> bool" where
  "scenario_path segs \<longleftrightarrow> length segs = 3 \<and> take 2 segs = [''api'', ''scenarios''] \<and> segs ! 2 \<noteq> []"

definition command_path :: "string list \<Rightarrow> bool" where
  "command_path segs \<longleftrightarrow> length segs = 4 \<and> take 2 segs = [''api'', ''scenarios''] \<and> segs ! 2 \<noteq> []
     \<and> segs ! 3 \<in> {''enable'', ''disable'', ''run''}"

lemma get_match:
  assumes "segs \<noteq> []"
  shows "\<exists>p. best_match (of_method ''GET'' api_patterns) segs = Some (p, if scenario_path segs then [segs ! 2] else [])
   \<and> pt_handler p = (if segs = [''api'', ''scenarios''] then HList else if scenario_path segs then HGet
       else if segs = [''healthz''] then HHealthz else HUI)"
proof -
  consider a where "segs = [a]" | a b where "segs = [a, b]" | a b c where "segs = [a, b, c]"
    | a b c d ss where "segs = a # b # c # d # ss"
    using assms by (metis neq_Nil_conv)
  then show ?thesis
    by cases (simp_all add: api_methods segment_match_short scenario_path_def)
qed

lemma post_match:
  "if segs = [''api'', ''reset''] then \<exists>p. best_match (of_method ''POST'' api_patterns) segs = Some (p, []) \<and> pt_handler p = HReset
   else if command_path segs
   then \<exists>p. best_match (of_method ''POST'' api_patterns) segs = Some (p, [segs ! 2])
     \<and> pt_handler p = (if segs ! 3 = ''enable'' then HEnable else if segs ! 3 = ''disable'' then HDisable else HRun)
   else best_match (of_method ''POST'' api_patterns) segs = None"
proof -
  consider "segs = []" | a where "segs = [a]" | a b where "segs = [a, b]" | a b c where "segs = [a, b, c]"
    | a b c d where "segs = [a, b, c, d]" | a b c d e ss where "segs = a # b # c # d # e # ss"
    by (metis neq_Nil_conv)
  then show ?thesis
    by cases (simp_all add: api_methods segment_match_short command_path_def)
qed

lemma best_match_None: "best_match ps segs = None \<longleftrightarrow> (\<forall>p \<in> set ps. segment_match (pt_path p) segs = None)"
  by (induction ps) (auto split: option.splits)

lemma allowed_api:
  assumes "segs \<noteq> []"
  shows "allowed_methods api_patterns segs =
    (if segs = [''api'', ''reset''] \<or> command_path segs then [''GET'', ''HEAD'', ''POST''] else [''GET'', ''HEAD''])"
proof -
  consider a where "segs = [a]" | a b where "segs = [a, b]" | a b c where "segs = [a, b, c]"
    | a b c d where "segs = [a, b, c, d]" | a b c d e ss where "segs = a # b # c # d # e # ss"
    using assms by (metis neq_Nil_conv)
  then show ?thesis
    by cases (simp_all add: allowed_methods_def api_patterns_def segment_match_short command_path_def Let_def)
qed

lemma find_get:
  assumes "segs \<noteq> []" and "m = ''GET'' \<or> m = ''HEAD''"
  shows "find_route api_patterns m segs =
     Found (if segs = [''api'', ''scenarios''] then HList else if scenario_path segs then HGet
       else if segs = [''healthz''] then HHealthz else HUI) (if scenario_path segs then [segs ! 2] else [])"
proof -
  obtain p where p: "best_match (of_method ''GET'' api_patterns) segs = Some (p, if scenario_path segs then [segs ! 2] else [])"
    and h: "pt_handler p = (if segs = [''api'', ''scenarios''] then HList else if scenario_path segs then HGet
       else if segs = [''healthz''] then HHealthz else HUI)"
    using get_match [OF assms(1)] by blast
  have "of_method ''HEAD'' api_patterns = []" by (simp add: api_methods(3))
  with assms(2) show ?thesis
    unfolding find_route_def h [symmetric] using p by (elim disjE) simp_all
qed

lemma find_post:
  assumes "segs \<noteq> []"
  shows "find_route api_patterns ''POST'' segs =
     (if segs = [''api'', ''reset''] then Found HReset []
      else if command_path segs then
        Found (if segs ! 3 = ''enable'' then HEnable else if segs ! 3 = ''disable'' then HDisable else HRun) [segs ! 2]
      else MethodNotAllowed [''GET'', ''HEAD''])"
proof -
  consider "segs = [''api'', ''reset'']" | "segs \<noteq> [''api'', ''reset'']" "command_path segs"
    | "segs \<noteq> [''api'', ''reset'']" "\<not> command_path segs" by blast
  then show ?thesis
  proof cases
    case 1
    then obtain p where "best_match (of_method ''POST'' api_patterns) segs = Some (p, [])" "pt_handler p = HReset"
      using post_match [of segs] by (metis (full_types))
    with 1 show ?thesis by (simp add: find_route_def)
  next
    case 2
    then obtain p where p: "best_match (of_method ''POST'' api_patterns) segs = Some (p, [segs ! 2])"
      "pt_handler p = (if segs ! 3 = ''enable'' then HEnable else if segs ! 3 = ''disable'' then HDisable else HRun)"
      using post_match [of segs] by (simp only: if_False if_True) blast
    from 2 show ?thesis unfolding find_route_def p(2) [symmetric] by (simp add: p(1))
  next
    case 3
    then have "best_match (of_method ''POST'' api_patterns) segs = None"
      using post_match [of segs] by (simp only: if_False)
    with 3 show ?thesis by (simp add: find_route_def allowed_api [OF assms])
  qed
qed

lemma find_other:
  assumes "segs \<noteq> []" and "m \<noteq> ''GET''" "m \<noteq> ''HEAD''" "m \<noteq> ''POST''"
  shows "find_route api_patterns m segs = MethodNotAllowed (allowed_methods api_patterns segs)"
  using assms(2-) by (simp add: find_route_def api_methods(3) allowed_api [OF assms(1)])

lemma segments_nonempty [simp]: "segments path \<noteq> []"
  by (simp add: segments_def)

text \<open>The ServeMux with the server's patterns, as a table: GET and HEAD reach the list, one scenario,
  the health check, and the web UI with everything else; POST reaches the reset and the three commands
  of a scenario; any other request is refused with 405 and the methods that its path allows.\<close>

theorem api_routes:
  "find_route api_patterns m (segments path) =
    (let segs = segments path in
     if m = ''GET'' \<or> m = ''HEAD'' then
       Found (if segs = [''api'', ''scenarios''] then HList else if scenario_path segs then HGet
              else if segs = [''healthz''] then HHealthz else HUI)
             (if scenario_path segs then [segs ! 2] else [])
     else if m = ''POST'' \<and> segs = [''api'', ''reset''] then Found HReset []
     else if m = ''POST'' \<and> command_path segs then
       Found (if segs ! 3 = ''enable'' then HEnable else if segs ! 3 = ''disable'' then HDisable else HRun) [segs ! 2]
     else MethodNotAllowed
       (if segs = [''api'', ''reset''] \<or> command_path segs then [''GET'', ''HEAD'', ''POST''] else [''GET'', ''HEAD'']))"
proof -
  consider "m = ''GET'' \<or> m = ''HEAD''" | "m = ''POST''" | "m \<noteq> ''GET''" "m \<noteq> ''HEAD''" "m \<noteq> ''POST''" by blast
  then show ?thesis
  proof cases
    case 1
    from find_get [OF segments_nonempty this] 1 show ?thesis by (simp only: Let_def if_True)
  next
    case 2
    have "''POST'' \<noteq> ''GET''" "''POST'' \<noteq> ''HEAD''" by simp_all
    with 2 find_post [OF segments_nonempty, of path] show ?thesis
      by (cases "segments path = [''api'', ''reset'']"; cases "command_path (segments path)")
         (simp_all only: Let_def if_False if_True simp_thms)
  next
    case 3
    from find_other [OF segments_nonempty 3] 3 show ?thesis
      by (simp only: Let_def if_False simp_thms allowed_api [OF segments_nonempty])
  qed
qed

text \<open>C24. Only the commands change anything: a request that is not a POST, or whose path is not the reset
  or a command of a scenario, leaves the world as it is; and every method but GET and HEAD is then
  answered with 405.\<close>

theorem only_commands_write:
  assumes "ar_method q \<noteq> ''POST'' \<or> segments (ar_path q) \<noteq> [''api'', ''reset''] \<and> \<not> command_path (segments (ar_path q))"
  shows "snd (handle_request ui s q w) = w
    \<and> (ar_method q \<notin> {''GET'', ''HEAD''} \<longrightarrow> rs_code (fst (handle_request ui s q w)) = 405)"
proof -
  let ?segs = "segments (ar_path q)"
  note reads = handleList_def handleGet_def
  consider "ar_method q = ''GET'' \<or> ar_method q = ''HEAD''"
    | "ar_method q \<notin> {''GET'', ''HEAD''}" "\<exists>ms. find_route api_patterns (ar_method q) ?segs = MethodNotAllowed ms"
    using assms find_post [of ?segs] find_other [of ?segs "ar_method q"] by (cases "ar_method q = ''POST''") auto
  then show ?thesis
  proof cases
    case 1
    have "snd (handle_request ui s q w) = w"
      unfolding handle_request_def find_get [OF segments_nonempty 1] by (simp add: reads split: sum.split)
    with 1 show ?thesis by blast
  next
    case 2
    then show ?thesis by (auto simp: handle_request_def)
  qed
qed

theorem only_commands_write_witness:
  "snd (handle_request (\<lambda>_. \<lparr>rs_code = 404, rs_body = PlainText []\<rparr>) sample_server
     \<lparr>ar_method = ''POST'', ar_path = ''/api/scenarios/outage'', ar_content_length = 0, ar_body = RawEmpty\<rparr> sample_cluster)
     = sample_cluster"
  by (rule only_commands_write [THEN conjunct1]) (simp add: segments_def command_path_def)

section \<open>What Start does\<close>

text \<open>Once the goroutine has sent, at most that value is in the channel; before, nothing is.\<close>

inductive Start_reachable :: "(go_error \<Rightarrow> bool) \<Rightarrow> serving \<Rightarrow> bool" for isServerClosed where
  started: "Start_reachable isServerClosed start_state"
| stepped: "Start_reachable isServerClosed s \<Longrightarrow> Start_step isServerClosed s s' \<Longrightarrow> Start_reachable isServerClosed s'"

definition steps_left :: "serving \<Rightarrow> nat" where
  "steps_left s = (case sg_listener s of Serving \<Rightarrow> 2 | Sending v \<Rightarrow> 1 | Sent \<Rightarrow> 0)
     + (if sg_cancelled s then 0 else 1) + (if sg_result s = None then 1 else 0)"

lemma Start_step_less: "Start_step isServerClosed s s' \<Longrightarrow> steps_left s' < steps_left s"
  by (elim Start_stepE) (auto simp: steps_left_def)

lemma Start_channel:
  "Start_reachable isServerClosed s \<Longrightarrow>
     (sg_listener s \<noteq> Sent \<longrightarrow> sg_errCh s = [])
   \<and> (sg_listener s = Sent \<longrightarrow> sg_result s = None \<longrightarrow> length (sg_errCh s) = 1)
   \<and> (\<forall>v. sg_listener s = Sending v \<longrightarrow> (\<forall>e. v = Some e \<longrightarrow> \<not> isServerClosed e))
   \<and> (\<forall>e. Some e \<in> set (sg_errCh s) \<longrightarrow> \<not> isServerClosed e)"
  by (induction rule: Start_reachable.induct)
     (auto simp: start_state_def sent_error_def errCh_capacity_def split: option.splits if_splits elim!: Start_stepE)

lemma Start_result:
  "Start_reachable isServerClosed s \<Longrightarrow> sg_result s = Some v \<Longrightarrow>
     sg_cancelled s \<or> (sg_listener s = Sent \<and> (\<forall>e. v = Some e \<longrightarrow> \<not> isServerClosed e))"
proof (induction rule: Start_reachable.induct)
  case (stepped s s')
  from stepped.hyps(2) stepped.IH stepped.prems Start_channel [OF stepped.hyps(1)] show ?case
    by (elim Start_stepE) auto
qed (simp add: start_state_def)



end
