(* ===== verification/Sweeper.thy ===== *)
theory Sweeper
  imports Sample
begin

text \<open>
  The startup sweep (operator/internal/controller/sweeper.go): it lists the Jobs and the
  Deployments that bear the scenario label and deletes those whose scenario is gone or idle. An
  object is handled by what the code uses of it: its label's value and the call that deletes it.
\<close>

record 'w sweeper =
  sw_client :: "'w client"
  sw_namespace :: string

text \<open>The test of \<^verbatim>\<open>sweep\<close> on the scenario found.\<close>

definition idle :: "maintenance_job \<Rightarrow> bool" where
  "idle fs \<longleftrightarrow> (st_phase (mj_status_of fs) = PhaseUnset \<or> st_phase (mj_status_of fs) = PhaseIdle)
     \<and> length (st_active_actions (mj_status_of fs)) = 0 \<and> st_current_run (mj_status_of fs) = None"

text \<open>The error of a failed delete is only logged.\<close>

definition sweep ::
  "'w sweeper \<Rightarrow> string \<Rightarrow> ('w \<Rightarrow> propagation \<Rightarrow> go_error option \<times> 'w) \<Rightarrow> 'w \<Rightarrow> 'w" where
  "sweep s scenarioName delete w =
     (case getMJ (sw_client s) w (sw_namespace s, scenarioName) of
        Inl e \<Rightarrow> if isNotFound e then snd (delete w Foreground) else w
      | Inr fs \<Rightarrow> if \<not> idle fs then w else snd (delete w Foreground))"

definition sweep_job :: "'w sweeper \<Rightarrow> job \<Rightarrow> 'w \<Rightarrow> 'w" where
  "sweep_job s j = sweep s (go_get (job_labels j) ScenarioLabel) (\<lambda>w p. deleteJob (sw_client s) w p j)"

definition sweep_deployment :: "'w sweeper \<Rightarrow> deployment \<Rightarrow> 'w \<Rightarrow> 'w" where
  "sweep_deployment s d =
     sweep s (go_get (dep_labels d) ScenarioLabel) (\<lambda>w p. deleteDeployment (sw_client s) w p d)"

definition Start :: "'w sweeper \<Rightarrow> 'w \<Rightarrow> go_error option \<times> 'w" where
  "Start s w =
     (case listJobs (sw_client s) w (sw_namespace s) ScenarioLabel of
        Inl e \<Rightarrow> (Some e, w)
      | Inr jobs \<Rightarrow>
          let w1 = fold (sweep_job s) jobs w in
          (case listDeployments (sw_client s) w1 (sw_namespace s) ScenarioLabel of
             Inl e \<Rightarrow> (Some e, w1)
           | Inr deps \<Rightarrow> (None, fold (sweep_deployment s) deps w1)))"

section \<open>What is deleted\<close>

text \<open>A scenario that a lookup shows to be gone or idle.\<close>

definition orphaned :: "'w client \<Rightarrow> 'w \<Rightarrow> string \<Rightarrow> string \<Rightarrow> bool" where
  "orphaned c w ns n \<longleftrightarrow>
     (case getMJ c w (ns, n) of
        Inl e \<Rightarrow> isNotFound e
      | Inr fs \<Rightarrow> st_phase (mj_status_of fs) \<in> {PhaseUnset, PhaseIdle}
          \<and> st_active_actions (mj_status_of fs) = [] \<and> st_current_run (mj_status_of fs) = None)"

lemma sweep_eq:
  "sweep s n delete w = (if orphaned (sw_client s) w (sw_namespace s) n then snd (delete w Foreground) else w)"
  by (auto simp: sweep_def orphaned_def idle_def split: sum.splits)

text \<open>The sweep of one list, of a logging client whose deletes do not touch the scenarios.\<close>

lemma fold_sweep_log:
  assumes "\<And>o' wl. f o' wl = (if orphaned c (fst wl) ns (label o') then del o' wl else wl)"
    and "\<And>o' wl. orphaned c (fst (del o' wl)) ns = orphaned c (fst wl) ns \<and> snd (del o' wl) = snd wl @ [call o']"
  shows "orphaned c (fst (fold f xs wl)) ns = orphaned c (fst wl) ns
     \<and> snd (fold f xs wl) = snd wl @ map call (filter (\<lambda>o'. orphaned c (fst wl) ns (label o')) xs)"
  using assms by (induction xs arbitrary: wl) simp_all

text \<open>A client whose deletes leave the scenarios alone, and whose deletes of Jobs the Deployments.\<close>

definition deletes_apart :: "'w client \<Rightarrow> bool" where
  "deletes_apart c \<longleftrightarrow>
     (\<forall>w p j k. getMJ c (snd (deleteJob c w p j)) k = getMJ c w k)
   \<and> (\<forall>w p d k. getMJ c (snd (deleteDeployment c w p d)) k = getMJ c w k)
   \<and> (\<forall>w p j ns l. listDeployments c (snd (deleteJob c w p j)) ns l = listDeployments c w ns l)"

lemma deletes_apart_memory: "deletes_apart (memory retry)"
  by (simp add: deletes_apart_def mem_deleteJob_def mem_deleteDeployment_def split: option.splits propagation.splits)

lemma list_after_sweep:
  assumes "deletes_apart c"
  shows "listDeployments c (fst (fold (sweep_job \<lparr>sw_client = logged retry c, sw_namespace = ns\<rparr>) jobs wl)) ns' l
    = listDeployments c (fst wl) ns' l"
  using assms
  by (induction jobs arbitrary: wl) (simp_all add: sweep_job_def sweep_eq deletes_apart_def)

lemma sweep_log:
  assumes "deletes_apart c"
    and "listJobs c w ns ScenarioLabel = Inr jobs" and "listDeployments c w ns ScenarioLabel = Inr deps"
  shows "fst (Start \<lparr>sw_client = logged retry c, sw_namespace = ns\<rparr> (w, [])) = None
    \<and> snd (snd (Start \<lparr>sw_client = logged retry c, sw_namespace = ns\<rparr> (w, []))) =
        map (CallDeleteJob \<circ> job_key) (filter (\<lambda>j. orphaned c w ns (go_get (job_labels j) ScenarioLabel)) jobs)
        @ map (CallDeleteDeployment \<circ> dep_key)
            (filter (\<lambda>d. orphaned c w ns (go_get (dep_labels d) ScenarioLabel)) deps)"
proof -
  let ?s = "\<lparr>sw_client = logged retry c, sw_namespace = ns\<rparr>"
  have same: "orphaned (logged retry c) wl = orphaned c (fst wl)" for wl
    by (simp add: orphaned_def fun_eq_iff)
  have apart: "orphaned c (snd (deleteJob c v p j)) = orphaned c v"
    "orphaned c (snd (deleteDeployment c v p d)) = orphaned c v" for v p j d
    using assms(1) by (simp_all add: orphaned_def deletes_apart_def fun_eq_iff)
  let ?wl = "fold (sweep_job ?s) jobs (w, [])"
  have jobs: "orphaned c (fst ?wl) ns = orphaned c w ns
      \<and> snd ?wl = map (CallDeleteJob \<circ> job_key) (filter (\<lambda>j. orphaned c w ns (go_get (job_labels j) ScenarioLabel)) jobs)"
    using fold_sweep_log [where f = "sweep_job ?s" and c = c and ns = ns
        and label = "\<lambda>j. go_get (job_labels j) ScenarioLabel" and call = "CallDeleteJob \<circ> job_key"
        and del = "\<lambda>j wl. snd (deleteJob (logged retry c) wl Foreground j)" and xs = jobs and wl = "(w, [])"]
    by (simp add: sweep_job_def sweep_eq same apart)
  have deps: "snd (fold (sweep_deployment ?s) deps ?wl) = snd ?wl @ map (CallDeleteDeployment \<circ> dep_key)
      (filter (\<lambda>d. orphaned c (fst ?wl) ns (go_get (dep_labels d) ScenarioLabel)) deps)"
    using fold_sweep_log [where f = "sweep_deployment ?s" and c = c and ns = ns
        and label = "\<lambda>d. go_get (dep_labels d) ScenarioLabel" and call = "CallDeleteDeployment \<circ> dep_key"
        and del = "\<lambda>d wl. snd (deleteDeployment (logged retry c) wl Foreground d)" and xs = deps and wl = ?wl]
    by (simp add: sweep_deployment_def sweep_eq same apart)
  show ?thesis
    using assms jobs deps by (simp add: Start_def Let_def list_after_sweep)
qed

text \<open>
  C22. The startup sweep deletes exactly the labelled objects of orphaned scenarios. For a client
  whose deletes leave the scenarios and the other objects alone: the calls that change the cluster
  are, in the order of the lists, one delete for each listed Job and then each listed Deployment
  whose scenario does not exist or is idle (no phase or Idle, no active actions, no run). Objects of
  a scenario with a run or with active actions are kept, and so are those whose scenario could not
  be looked up.
\<close>
theorem sweep_deletes_orphans:
  assumes "deletes_apart c"
    and "listJobs c w ns ScenarioLabel = Inr jobs" and "listDeployments c w ns ScenarioLabel = Inr deps"
  shows "fst (Start \<lparr>sw_client = logged retry c, sw_namespace = ns\<rparr> (w, [])) = None
    \<and> snd (snd (Start \<lparr>sw_client = logged retry c, sw_namespace = ns\<rparr> (w, []))) =
        map (CallDeleteJob \<circ> job_key) (filter (\<lambda>j. orphaned c w ns (go_get (job_labels j) ScenarioLabel)) jobs)
        @ map (CallDeleteDeployment \<circ> dep_key)
            (filter (\<lambda>d. orphaned c w ns (go_get (dep_labels d) ScenarioLabel)) deps)"
  by (rule sweep_log [OF assms])

text \<open>Of the cluster in memory, with a Job of a scenario at work, one of an idle and one of an unknown one.\<close>

definition labelled_job :: "string \<Rightarrow> string \<Rightarrow> job" where
  "labelled_job n scenario = \<lparr>job_name = n, job_namespace = ''shop'', job_labels = [ScenarioLabel \<mapsto> scenario],
     job_owners = [], job_deletion_timestamp = None,
     job_spec_of = \<lparr>js_parallelism = 1, js_completions = None, js_backoff_limit = 0,
       js_active_deadline_seconds = 60, js_ttl_seconds_after_finished = 60, js_template_labels = Map.empty,
       js_restart_policy = ''Never'', js_affinity = None, js_container_name = ''c'', js_image = ''i'',
       js_args = [], js_env = [], js_resources = \<lparr>res_requests = [], res_limits = []\<rparr>\<rparr>,
     job_succeeded = 0, job_conditions = []\<rparr>"

definition idle_mj :: maintenance_job where
  "idle_mj = sample_mj\<lparr>mj_name := ''calm'', mj_status_of := sample_status\<lparr>st_phase := PhaseIdle, st_current_run := None\<rparr>\<rparr>"

definition swept_cluster :: cluster where
  "swept_cluster = sample_cluster\<lparr>cl_mjs := [sample_mj, idle_mj],
     cl_jobs := [labelled_job ''a'' ''outage'', labelled_job ''b'' ''calm'', labelled_job ''c'' ''gone''],
     cl_deps := [sample_dep, sample_dep\<lparr>dep_name := ''api'', dep_labels := [ScenarioLabel \<mapsto> ''gone'']\<rparr>]\<rparr>"

theorem sweep_deletes_orphans_witness:
  "snd (snd (Start \<lparr>sw_client = logged (retry_steps 4) mem_client, sw_namespace = ''shop''\<rparr> (swept_cluster, []))) =
     [CallDeleteJob (''shop'', ''b''), CallDeleteJob (''shop'', ''c''), CallDeleteDeployment (''shop'', ''api'')]"
proof -
  have jobs: "listJobs mem_client swept_cluster ''shop'' ScenarioLabel
      = Inr [labelled_job ''a'' ''outage'', labelled_job ''b'' ''calm'', labelled_job ''c'' ''gone'']"
    by (simp add: mem_client_def swept_cluster_def labelled_job_def)
  have deps: "listDeployments mem_client swept_cluster ''shop'' ScenarioLabel
      = Inr [sample_dep\<lparr>dep_name := ''api'', dep_labels := [ScenarioLabel \<mapsto> ''gone'']\<rparr>]"
    by (simp add: mem_client_def swept_cluster_def sample_dep_def)
  have "deletes_apart mem_client" by (simp add: mem_client_def deletes_apart_memory)
  note sweep_deletes_orphans [OF this jobs deps, of "retry_steps 4"]
  moreover have "orphaned mem_client swept_cluster ''shop'' ''calm''" "orphaned mem_client swept_cluster ''shop'' ''gone''"
    "\<not> orphaned mem_client swept_cluster ''shop'' ''outage''"
    by (simp_all add: orphaned_def mem_client_def swept_cluster_def idle_mj_def idle_def sample_mj_def
        sample_status_def find_obj_def lookup_def mj_key_def absent_def isNotFound_def)
  ultimately show ?thesis
    by (simp add: labelled_job_def go_get_def job_key_def dep_key_def sample_dep_def)
qed

section \<open>A Deployment of the application\<close>

text \<open>
  The sweep takes a Deployment of the application for an object of the scenario. While a bad
  image is deployed, DeployImage puts the scenario's label on the application's own Deployment; when
  the scenario is gone by the next start of the operator (its finalizer was released by force), the
  sweep asks to delete that Deployment, instead of rolling its image back.
\<close>
theorem sweep_deletes_application:
  assumes "deletes_apart c" and "listJobs c w ns ScenarioLabel = Inr jobs"
    and "listDeployments c w ns ScenarioLabel = Inr deps"
    and "swapped rc t i dep \<in> set deps" and "getMJ c w (ns, rc_scenario_name rc) = Inl e" and "isNotFound e"
  shows "CallDeleteDeployment (dep_key dep)
    \<in> set (snd (snd (Start \<lparr>sw_client = logged retry c, sw_namespace = ns\<rparr> (w, []))))"
proof -
  have "orphaned c w ns (rc_scenario_name rc)" using assms(5,6) by (simp add: orphaned_def)
  moreover have "go_get (dep_labels (swapped rc t i dep)) ScenarioLabel = rc_scenario_name rc"
    "dep_key (swapped rc t i dep) = dep_key dep"
    by (simp_all add: swapped_def go_get_def dep_key_def)
  ultimately show ?thesis
    using sweep_log [OF assms(1-3), of retry] assms(4) by (force simp: image_iff)
qed

end
