(* ===== verification/Watch.thy ===== *)
theory Watch
  imports Workload DBExec Controller
begin

text \<open>
  What wakes the reconciler: the API group and its registration in a scheme
  (operator/api/v1alpha1/groupversion_info.go), and the watches that \<^verbatim>\<open>SetupWithManager\<close> declares
  (operator/internal/controller/maintenancejob_controller.go), as controller-runtime documents them.
  An event of a MaintenanceJob asks for its own reconcile (\<^verbatim>\<open>For\<close>); an event of a Job for that of the
  MaintenanceJob that controls it (\<^verbatim>\<open>Owns\<close>): the first owner reference marked as controller, if its kind
  and the group of its API version are those under which the scheme knows the type.
\<close>

section \<open>The scheme\<close>

record group_version =
  gv_group :: string
  gv_version :: string

type_synonym scheme = "(group_version \<times> string) set"

definition GroupVersion :: group_version where
  "GroupVersion = \<lparr>gv_group = ''maintenance.platform.dev'', gv_version = ''v1alpha1''\<rparr>"

definition gv_string :: "group_version \<Rightarrow> string" where
  "gv_string gv = gv_group gv @ ''/'' @ gv_version gv"

text \<open>The types that the package registers when it is initialized.\<close>

definition registered :: "string list" where
  "registered = [''MaintenanceJob'', ''MaintenanceJobList'']"

definition AddToScheme :: "scheme \<Rightarrow> scheme" where
  "AddToScheme s = s \<union> Pair GroupVersion ` set registered"

section \<open>The watches\<close>

datatype watched = ScenarioEvent maintenance_job | JobEvent job

definition controllerOf :: "owner_reference list \<Rightarrow> owner_reference option" where
  "controllerOf owners = find or_controller owners"

definition api_group :: "string \<Rightarrow> string" where
  "api_group version = (case split_on (CHR ''/'') version of [g, v] \<Rightarrow> g | _ \<Rightarrow> [])"

text \<open>The requests that an event gives the queue; a type the scheme does not know cannot be set up.\<close>

fun SetupWithManager_requests :: "scheme \<Rightarrow> watched \<Rightarrow> nsname list option" where
  "SetupWithManager_requests s event =
     (if (GroupVersion, ''MaintenanceJob'') \<notin> s then None
      else Some
        (case event of
           ScenarioEvent fs \<Rightarrow> [mj_key fs]
         | JobEvent j \<Rightarrow>
             (case controllerOf (job_owners j) of
                None \<Rightarrow> []
              | Some ref \<Rightarrow>
                  if or_kind ref = ''MaintenanceJob'' \<and> api_group (or_api_version ref) = gv_group GroupVersion
                  then [(job_namespace j, or_name ref)] else [])))"

text \<open>The owner reference of what the actions create names the registered kind.\<close>

lemma owner_registered:
  "or_api_version (owner_of rc) = gv_string GroupVersion \<and> (GroupVersion, or_kind (owner_of rc)) \<in> AddToScheme s"
  by (simp add: owner_of_def gv_string_def GroupVersion_def AddToScheme_def registered_def)

lemma owner_wakes:
  assumes "job_owners j = [owner_of rc]"
  shows "SetupWithManager_requests (AddToScheme s) (JobEvent j) = Some [(job_namespace j, rc_scenario_name rc)]"
proof -
  have "controllerOf (job_owners j) = Some (owner_of rc)"
    using assms by (simp add: controllerOf_def owner_of_def)
  then show ?thesis
    by (simp add: AddToScheme_def registered_def) (simp add: owner_of_def api_group_def GroupVersion_def)
qed

text \<open>Every Job that a scenario's actions build wakes that scenario, whatever its run.\<close>

theorem jobs_wake_scenario:
  "SetupWithManager_requests (AddToScheme s) (JobEvent (buildJob (runContext r fs run) wa)) = Some [mj_key fs]
   \<and> SetupWithManager_requests (AddToScheme s) (JobEvent (exec_buildJob (runContext r fs run) n engine env queries))
     = Some [mj_key fs]"
  by (intro conjI; subst owner_wakes [where rc = "runContext r fs run"])
     (simp_all add: buildJob_def exec_buildJob_def Let_def runContext_def mj_key_def)

end
