(* ===== verification/Startup.thy ===== *)
theory Startup
  imports Dbtool ApiServer Sweeper Watch
begin

text \<open>
  The start of the controller (operator/cmd/main.go): the manager's parts built from the environment
  of the process and added one after the other. controller-runtime is a record of fallible steps over
  an arbitrary world; its options (ports, leader election) are constants and left out, except the
  namespace. A part is added with what it says of leader election: the controller and the sweeper run on
  the elected replica alone, the API server on every one.
\<close>

datatype 'w runnable = SweeperPart "'w sweeper" | ServerPart "'w server"

definition Sweeper_NeedLeaderElection :: "'w sweeper \<Rightarrow> bool" where
  "Sweeper_NeedLeaderElection s = True"

fun needs_leader :: "'w runnable \<Rightarrow> bool" where
  "needs_leader (SweeperPart s) = Sweeper_NeedLeaderElection s"
| "needs_leader (ServerPart s) = Server_NeedLeaderElection s"

record 'w manager_env =
  mg_client :: "'w client"
  mg_scheme :: "'w \<Rightarrow> go_error option \<times> 'w"
  mg_new :: "string \<Rightarrow> 'w \<Rightarrow> go_error option \<times> 'w"
  mg_controller :: "'w reconciler \<Rightarrow> 'w \<Rightarrow> go_error option \<times> 'w"
  mg_add :: "bool \<Rightarrow> 'w runnable \<Rightarrow> 'w \<Rightarrow> go_error option \<times> 'w"
  mg_healthz :: "'w \<Rightarrow> go_error option \<times> 'w"
  mg_readyz :: "'w \<Rightarrow> go_error option \<times> 'w"
  mg_start :: "'w \<Rightarrow> go_error option \<times> 'w"

text \<open>Steps in order, up to the first that fails.\<close>

fun first_failure :: "('w \<Rightarrow> go_error option \<times> 'w) list \<Rightarrow> 'w \<Rightarrow> go_error option \<times> 'w" where
  "first_failure [] w = (None, w)"
| "first_failure (f # fs) w =
     (case f w of (Some e, w1) \<Rightarrow> (Some e, w1) | (None, w1) \<Rightarrow> first_failure fs w1)"

text \<open>Whether the manager ran until it was stopped; if not, the process exits with status 1.\<close>

definition runManager :: "'w manager_env \<Rightarrow> (string \<rightharpoonup> string) \<Rightarrow> 'w \<Rightarrow> bool \<times> 'w" where
  "runManager env vars w =
     (let operatorImage = go_get vars ''OPERATOR_IMAGE'';
          n = go_get vars ''POD_NAMESPACE''; namespace = (if n = [] then ''default'' else n);
          c = mg_client env;
          add = (\<lambda>part. mg_add env (needs_leader part) part)
      in if operatorImage = [] then (False, w)
         else
           (case first_failure
              [mg_scheme env, mg_new env namespace,
               mg_controller env \<lparr>r_client = c, r_registry = Get, r_operator_image = operatorImage,
                 r_namespace = namespace\<rparr>,
               add (SweeperPart \<lparr>sw_client = c, sw_namespace = namespace\<rparr>),
               add (ServerPart (NewServer c '':8080'' namespace)),
               mg_healthz env, mg_readyz env, mg_start env] w of
              (e, w1) \<Rightarrow> (e = None, w1)))"

end
