(* ===== verification/LoadGen.thy ===== *)
theory LoadGen
  imports Json
begin

text \<open>
  The load generator (services/load-generator/main.go): the rates of its environment variables, the
  requests of every scenario, the weighted choice between them, and the ticker with its pool of
  workers. Random numbers, HTTP, the clock and sleeping are a record of functions over an arbitrary
  world. A response is its status and what its body's text decodes to; a request's body is the
  value that is encoded, whose prices are hundredths. Logging is not modelled.
\<close>

datatype body_value =
    VInt int
  | VHundredths int
  | VStr string
  | VBool bool
  | VList "body_value list"
  | VMap "(string \<times> body_value) list"

record http_response =
  hr_status :: int
  hr_text :: string
  hr_json :: raw_json

text \<open>\<^verbatim>\<open>rand.Intn\<close>, the HTTP client (method, URL, body), the clock and \<^verbatim>\<open>time.Sleep\<close>.\<close>

record 'w lg_env =
  rndIntn :: "int \<Rightarrow> 'w \<Rightarrow> int \<times> 'w"
  httpDo :: "string \<Rightarrow> string \<Rightarrow> body_value option \<Rightarrow> 'w \<Rightarrow> (go_error + http_response) \<times> 'w"
  timeNow :: "'w \<Rightarrow> int"
  sleepFor :: "int \<Rightarrow> 'w \<Rightarrow> 'w"

section \<open>Configuration\<close>

text \<open>\<^verbatim>\<open>os.Getenv\<close> gives the empty string for a variable that is not set.\<close>

definition getEnv :: "(string \<rightharpoonup> string) \<Rightarrow> string \<Rightarrow> string \<Rightarrow> string" where
  "getEnv env key def = (if go_get env key \<noteq> [] then go_get env key else def)"

definition getEnvInt :: "(string \<rightharpoonup> string) \<Rightarrow> string \<Rightarrow> int \<Rightarrow> int" where
  "getEnvInt env key def =
     (if go_get env key \<noteq> [] then (case atoi (go_get env key) of Some n \<Rightarrow> n | None \<Rightarrow> def) else def)"

definition add_override :: "string \<Rightarrow> (string \<rightharpoonup> int) \<Rightarrow> (string \<rightharpoonup> int)" where
  "add_override entry m =
     (let pair = trimSpace entry in
      if pair = [] then m
      else
        let (name, rps, ok) = cut (CHR '':'') pair in
        if \<not> ok then m
        else
          (case atoi (trimSpace rps) of
             None \<Rightarrow> m
           | Some n \<Rightarrow> if n \<ge> 0 then m(trimSpace name \<mapsto> n) else m))"

definition parseRPSOverrides :: "string \<Rightarrow> (string \<rightharpoonup> int)" where
  "parseRPSOverrides s = fold add_override (split_on (CHR '','') s) Map.empty"

record lg_config =
  gatewayURL :: string
  rpsPerSvc :: int
  rpsOverrides :: "string \<rightharpoonup> int"
  userIDs :: "string list"

definition rpsFor :: "lg_config \<Rightarrow> string \<Rightarrow> int" where
  "rpsFor cfg service = (case rpsOverrides cfg service of Some n \<Rightarrow> n | None \<Rightarrow> rpsPerSvc cfg)"

text \<open>The package's variables and \<^verbatim>\<open>init\<close>: a hundred user names drawn at random.\<close>

fun draw_users :: "'w lg_env \<Rightarrow> nat \<Rightarrow> 'w \<Rightarrow> string list \<times> 'w" where
  "draw_users env 0 w = ([], w)"
| "draw_users env (Suc n) w =
     (let (i, w1) = rndIntn env 10000 w; (us, w2) = draw_users env n w1
      in ((''user-'' @ show_int i) # us, w2))"

definition init_config :: "'w lg_env \<Rightarrow> (string \<rightharpoonup> string) \<Rightarrow> 'w \<Rightarrow> lg_config \<times> 'w" where
  "init_config env vars w =
     (let (us, w1) = draw_users env 100 w
      in (\<lparr>gatewayURL = getEnv vars ''GATEWAY_URL'' ''http://api-gateway:8080'',
           rpsPerSvc = getEnvInt vars ''RPS_PER_SERVICE'' 20,
           rpsOverrides = parseRPSOverrides (getEnv vars ''RPS_OVERRIDES'' []),
           userIDs = us\<rparr>, w1))"

section \<open>Requests\<close>

definition randomUserID :: "'w lg_env \<Rightarrow> lg_config \<Rightarrow> 'w \<Rightarrow> string \<times> 'w" where
  "randomUserID env cfg w =
     (let (i, w1) = rndIntn env (int (length (userIDs cfg))) w in (userIDs cfg ! nat i, w1))"

definition pick_text :: "'w lg_env \<Rightarrow> string list \<Rightarrow> 'w \<Rightarrow> string \<times> 'w" where
  "pick_text env xs w = (let (i, w1) = rndIntn env (int (length xs)) w in (xs ! nat i, w1))"

definition statusError :: "int \<Rightarrow> go_error" where
  "statusError n = errorf (''status '' @ show_int n)"

definition doGet :: "'w lg_env \<Rightarrow> string \<Rightarrow> 'w \<Rightarrow> go_error option \<times> 'w" where
  "doGet env url w =
     (case httpDo env ''GET'' url None w of
        (Inl e, w1) \<Rightarrow> (Some e, w1)
      | (Inr resp, w1) \<Rightarrow> (if hr_status resp \<ge> 400 then Some (statusError (hr_status resp)) else None, w1))"

text \<open>With the body; an error leaves the callers without it.\<close>

definition doGetBody :: "'w lg_env \<Rightarrow> string \<Rightarrow> 'w \<Rightarrow> (go_error + http_response) \<times> 'w" where
  "doGetBody env url w =
     (case httpDo env ''GET'' url None w of
        (Inl e, w1) \<Rightarrow> (Inl e, w1)
      | (Inr resp, w1) \<Rightarrow>
          (if hr_status resp \<ge> 400 then Inl (statusError (hr_status resp)) else Inr resp, w1))"

definition doPost :: "'w lg_env \<Rightarrow> string \<Rightarrow> body_value \<Rightarrow> 'w \<Rightarrow> (go_error + http_response) \<times> 'w" where
  "doPost env url body w =
     (case httpDo env ''POST'' url (Some body) w of
        (Inl e, w1) \<Rightarrow> (Inl e, w1)
      | (Inr resp, w1) \<Rightarrow>
          (if hr_status resp \<ge> 400 then Inl (statusError (hr_status resp)) else Inr resp, w1))"

definition post_only :: "'w lg_env \<Rightarrow> string \<Rightarrow> body_value \<Rightarrow> 'w \<Rightarrow> go_error option \<times> 'w" where
  "post_only env url body w =
     (case doPost env url body w of (Inl e, w1) \<Rightarrow> (Some e, w1) | (Inr _, w1) \<Rightarrow> (None, w1))"

definition doPut :: "'w lg_env \<Rightarrow> string \<Rightarrow> body_value \<Rightarrow> 'w \<Rightarrow> go_error option \<times> 'w" where
  "doPut env url body w =
     (case httpDo env ''PUT'' url (Some body) w of
        (Inl e, w1) \<Rightarrow> (Some e, w1) | (Inr _, w1) \<Rightarrow> (None, w1))"

definition doDelete :: "'w lg_env \<Rightarrow> string \<Rightarrow> 'w \<Rightarrow> go_error option \<times> 'w" where
  "doDelete env url w =
     (case httpDo env ''DELETE'' url None w of
        (Inl e, w1) \<Rightarrow> (Some e, w1) | (Inr _, w1) \<Rightarrow> (None, w1))"

text \<open>A GET of a path that ends in one random number, the number shifted.\<close>

definition get_random ::
  "'w lg_env \<Rightarrow> lg_config \<Rightarrow> int \<Rightarrow> int \<Rightarrow> string \<Rightarrow> string \<Rightarrow> 'w \<Rightarrow> go_error option \<times> 'w" where
  "get_random env cfg n shift path rest w =
     (let (i, w1) = rndIntn env n w
      in doGet env (gatewayURL cfg @ path @ show_int (i + shift) @ rest) w1)"

section \<open>Product scenarios\<close>

definition categories :: "string list" where
  "categories = [''electronics'', ''clothing'', ''books'', ''home'', ''sports'', ''toys'', ''food'',
     ''beauty'', ''automotive'', ''garden'']"

definition searchTerms :: "string list" where
  "searchTerms = [''wireless'', ''organic'', ''premium'', ''vintage'', ''smart'', ''portable'', ''eco'',
     ''professional'', ''mini'', ''ultra'']"

definition listProducts :: "'w lg_env \<Rightarrow> lg_config \<Rightarrow> 'w \<Rightarrow> go_error option \<times> 'w" where
  "listProducts env cfg = get_random env cfg 100 1 ''/api/products?page='' ''&limit=20''"

definition getProduct :: "'w lg_env \<Rightarrow> lg_config \<Rightarrow> 'w \<Rightarrow> go_error option \<times> 'w" where
  "getProduct env cfg = get_random env cfg 500000 1 ''/api/products/'' []"

definition searchProducts :: "'w lg_env \<Rightarrow> lg_config \<Rightarrow> 'w \<Rightarrow> go_error option \<times> 'w" where
  "searchProducts env cfg w =
     (let (term, w1) = pick_text env searchTerms w
      in doGet env (gatewayURL cfg @ ''/api/products/search?q='' @ term) w1)"

definition getProductsByCategory :: "'w lg_env \<Rightarrow> lg_config \<Rightarrow> 'w \<Rightarrow> go_error option \<times> 'w" where
  "getProductsByCategory env cfg w =
     (let (cat, w1) = pick_text env categories w
      in doGet env (gatewayURL cfg @ ''/api/products/category/'' @ cat) w1)"

section \<open>Cart scenarios\<close>

definition cart_url :: "lg_config \<Rightarrow> string \<Rightarrow> string" where
  "cart_url cfg uid = gatewayURL cfg @ ''/api/cart/'' @ uid"

text \<open>The product ids of the cart's items; an item without one is left out.\<close>

fun product_ids :: "json list \<Rightarrow> go_error + string list" where
  "product_ids [] = Inr []"
| "product_ids (j # js) =
     bind_err (asObj (Raw j)) (\<lambda>m. bind_err (strField m ''product_id'') (\<lambda>p.
       bind_err (product_ids js) (\<lambda>ps. Inr (if p \<noteq> [] then p # ps else ps))))"

definition decode_cart :: "raw_json \<Rightarrow> go_error + string list" where
  "decode_cart body = bind_err (asObj body) (\<lambda>m. bind_err (arrField m ''items'') product_ids)"

definition cartItems :: "'w lg_env \<Rightarrow> lg_config \<Rightarrow> string \<Rightarrow> 'w \<Rightarrow> (go_error + string list) \<times> 'w" where
  "cartItems env cfg uid w =
     (case doGetBody env (cart_url cfg uid) w of
        (Inl e, w1) \<Rightarrow> (Inl e, w1)
      | (Inr resp, w1) \<Rightarrow> (decode_cart (hr_json resp), w1))"

definition getCart :: "'w lg_env \<Rightarrow> lg_config \<Rightarrow> 'w \<Rightarrow> go_error option \<times> 'w" where
  "getCart env cfg w = (let (uid, w1) = randomUserID env cfg w in doGet env (cart_url cfg uid) w1)"

definition cartCheckoutAt :: nat where "cartCheckoutAt = 20"

definition checkout :: "'w lg_env \<Rightarrow> lg_config \<Rightarrow> string \<Rightarrow> 'w \<Rightarrow> go_error option \<times> 'w" where
  "checkout env cfg uid =
     post_only env (cart_url cfg uid @ ''/checkout'') (VMap [(''shipping_address'', VStr ''1 Test Street'')])"

definition cart_item :: "int \<Rightarrow> int \<Rightarrow> int \<Rightarrow> int \<Rightarrow> body_value" where
  "cart_item i q p n = VMap [(''product_id'', VStr (show_int (i + 1))), (''quantity'', VInt (q + 1)),
     (''price'', VHundredths p), (''name'', VStr (''Product '' @ show_int n))]"

definition add_item :: "'w lg_env \<Rightarrow> lg_config \<Rightarrow> string \<Rightarrow> 'w \<Rightarrow> go_error option \<times> 'w" where
  "add_item env cfg uid w =
     (let (i, w1) = rndIntn env 500000 w; (q, w2) = rndIntn env 5 w1; (p, w3) = rndIntn env 10000 w2;
          (n, w4) = rndIntn env 500000 w3
      in post_only env (cart_url cfg uid @ ''/items'') (cart_item i q p n) w4)"

definition addToCart :: "'w lg_env \<Rightarrow> lg_config \<Rightarrow> 'w \<Rightarrow> go_error option \<times> 'w" where
  "addToCart env cfg w =
     (let (uid, w1) = randomUserID env cfg w in
      (case cartItems env cfg uid w1 of
         (Inl e, w2) \<Rightarrow> (Some e, w2)
       | (Inr ids, w2) \<Rightarrow>
           if length ids \<ge> cartCheckoutAt
           then
             (case checkout env cfg uid w2 of
                (Some e, w3) \<Rightarrow> (Some e, w3)
              | (None, w3) \<Rightarrow> add_item env cfg uid w3)
           else add_item env cfg uid w2))"

definition removeFromCart :: "'w lg_env \<Rightarrow> lg_config \<Rightarrow> 'w \<Rightarrow> go_error option \<times> 'w" where
  "removeFromCart env cfg w =
     (let (uid, w1) = randomUserID env cfg w in
      (case cartItems env cfg uid w1 of
         (Inl e, w2) \<Rightarrow> (Some e, w2)
       | (Inr ids, w2) \<Rightarrow>
           if length ids = 0 then (None, w2)
           else
             let (i, w3) = rndIntn env (int (length ids)) w2
             in doDelete env (cart_url cfg uid @ ''/items/'' @ ids ! nat i) w3))"

definition checkoutCart :: "'w lg_env \<Rightarrow> lg_config \<Rightarrow> 'w \<Rightarrow> go_error option \<times> 'w" where
  "checkoutCart env cfg w =
     (let (uid, w1) = randomUserID env cfg w in
      (case cartItems env cfg uid w1 of
         (Inl e, w2) \<Rightarrow> (Some e, w2)
       | (Inr ids, w2) \<Rightarrow> if length ids = 0 then (None, w2) else checkout env cfg uid w2))"

section \<open>Order scenarios\<close>

text \<open>\<^verbatim>\<open>%05d\<close> of a number below 100000.\<close>

definition pad5 :: "int \<Rightarrow> string" where
  "pad5 n = (let s = show_int n in replicate (5 - length s) (CHR ''0'') @ s)"

definition orders_url :: "lg_config \<Rightarrow> string" where
  "orders_url cfg = gatewayURL cfg @ ''/api/orders''"

definition listOrders :: "'w lg_env \<Rightarrow> lg_config \<Rightarrow> 'w \<Rightarrow> go_error option \<times> 'w" where
  "listOrders env cfg = get_random env cfg 50 1 ''/api/orders?page='' ''&size=20''"



fun order_ids :: "json list \<Rightarrow> go_error + int list" where
  "order_ids [] = Inr []"
| "order_ids (j # js) =
     bind_err (asObj (Raw j)) (\<lambda>m. bind_err (int64_field m ''id'') (\<lambda>i.
       bind_err (order_ids js) (\<lambda>is. Inr (i # is))))"

definition decode_page :: "raw_json \<Rightarrow> go_error + int list" where
  "decode_page body = bind_err (asObj body) (\<lambda>m. bind_err (arrField m ''content'') order_ids)"

text \<open>The id of an order that exists, or 0 for an empty page.\<close>

definition existingOrderID :: "'w lg_env \<Rightarrow> lg_config \<Rightarrow> 'w \<Rightarrow> (go_error + int) \<times> 'w" where
  "existingOrderID env cfg w =
     (let (i, w1) = rndIntn env 5 w in
      (case doGetBody env (orders_url cfg @ ''?page='' @ show_int (i + 1) @ ''&size=20'') w1 of
         (Inl e, w2) \<Rightarrow> (Inl e, w2)
       | (Inr resp, w2) \<Rightarrow>
           (case decode_page (hr_json resp) of
              Inl e \<Rightarrow> (Inl e, w2)
            | Inr ids \<Rightarrow>
                if length ids = 0 then (Inr 0, w2)
                else let (j, w3) = rndIntn env (int (length ids)) w2 in (Inr (ids ! nat j), w3))))"

definition getOrder :: "'w lg_env \<Rightarrow> lg_config \<Rightarrow> 'w \<Rightarrow> go_error option \<times> 'w" where
  "getOrder env cfg w =
     (case existingOrderID env cfg w of
        (Inl e, w1) \<Rightarrow> (Some e, w1)
      | (Inr i, w1) \<Rightarrow> if i = 0 then (None, w1) else doGet env (orders_url cfg @ ''/'' @ show_int i) w1)"

definition order_item :: "'w lg_env \<Rightarrow> int \<Rightarrow> int \<Rightarrow> string \<Rightarrow> 'w \<Rightarrow> body_value \<times> 'w" where
  "order_item env quantities prices name w =
     (let (i, w1) = rndIntn env 500000 w; (q, w2) = rndIntn env quantities w1; (p, w3) = rndIntn env prices w2
      in (VMap [(''product_id'', VStr (show_int (i + 1))), (''quantity'', VInt (q + 1)),
            (''price'', VHundredths p), (''name'', VStr name)], w3))"

definition new_order :: "'w lg_env \<Rightarrow> lg_config \<Rightarrow> 'w \<Rightarrow> body_value \<times> 'w" where
  "new_order env cfg w =
     (let (uid, w1) = randomUserID env cfg w;
          (a, w2) = order_item env 3 5000 ''Product A'' w1;
          (b, w3) = order_item env 2 3000 ''Product B'' w2;
          (t, w4) = rndIntn env 10000 w3;
          (st, w5) = rndIntn env 9999 w4; (city, w6) = rndIntn env 100 w5; (zip, w7) = rndIntn env 99999 w6
      in (VMap [(''user_id'', VStr uid), (''items'', VList [a, b]), (''total'', VHundredths t),
            (''shipping_address'', VStr (show_int (st + 1) @ '' Main St, City '' @ show_int city
               @ '', ST '' @ pad5 zip))], w7))"

definition createOrder :: "'w lg_env \<Rightarrow> lg_config \<Rightarrow> 'w \<Rightarrow> go_error option \<times> 'w" where
  "createOrder env cfg w =
     (let (order, w1) = new_order env cfg w in post_only env (orders_url cfg) order w1)"

text \<open>One poll of an order: whether it is fulfilled.\<close>

definition poll_order :: "'w lg_env \<Rightarrow> string \<Rightarrow> 'w \<Rightarrow> bool \<times> 'w" where
  "poll_order env url w =
     (case httpDo env ''GET'' url None w of
        (Inl e, w1) \<Rightarrow> (False, w1)
      | (Inr resp, w1) \<Rightarrow>
          if hr_status resp \<ge> 400 then (False, w1)
          else
            (case bind_err (asObj (hr_json resp)) (\<lambda>m. strField m ''status'') of
               Inl e \<Rightarrow> (False, w1)
             | Inr status \<Rightarrow> (status = ''FULFILLED'', w1)))"

text \<open>The loop until the deadline; \<^verbatim>\<open>None\<close> would be a loop that never ends.\<close>

partial_function (option) await_order :: "'w lg_env \<Rightarrow> string \<Rightarrow> int \<Rightarrow> 'w \<Rightarrow> (bool \<times> 'w) option" where
  "await_order env url deadline w =
     (if timeNow env w < deadline
      then
        (let (fulfilled, w1) = poll_order env url (sleepFor env (2 * second) w)
         in if fulfilled then Some (True, w1) else await_order env url deadline w1)
      else Some (False, w))"

definition unexpectedResponse :: "string \<Rightarrow> go_error" where
  "unexpectedResponse t = errorf (''unexpected create order response: '' @ t)"

definition notFulfilled :: "int \<Rightarrow> go_error" where
  "notFulfilled i = errorf (''order '' @ show_int i @ '' not FULFILLED within 30s'')"

definition createOrderAndAwaitFulfillment ::
  "'w lg_env \<Rightarrow> lg_config \<Rightarrow> 'w \<Rightarrow> (go_error option \<times> 'w) option" where
  "createOrderAndAwaitFulfillment env cfg w =
     (let (order, w1) = new_order env cfg w in
      (case doPost env (orders_url cfg) order w1 of
         (Inl e, w2) \<Rightarrow> Some (Some e, w2)
       | (Inr resp, w2) \<Rightarrow>
           (case bind_err (asObj (hr_json resp)) (\<lambda>m. int64_field m ''id'') of
              Inl e \<Rightarrow> Some (Some (unexpectedResponse (hr_text resp)), w2)
            | Inr i \<Rightarrow>
                if i = 0 then Some (Some (unexpectedResponse (hr_text resp)), w2)
                else
                  map_option (\<lambda>(ok, w3). (if ok then None else Some (notFulfilled i), w3))
                    (await_order env (orders_url cfg @ ''/'' @ show_int i) (timeNow env w2 + 30 * second) w2))))"

definition getUserOrders :: "'w lg_env \<Rightarrow> lg_config \<Rightarrow> 'w \<Rightarrow> go_error option \<times> 'w" where
  "getUserOrders env cfg w =
     (let (uid, w1) = randomUserID env cfg w in doGet env (orders_url cfg @ ''/user/'' @ uid) w1)"

definition updateOrderStatus :: "'w lg_env \<Rightarrow> lg_config \<Rightarrow> 'w \<Rightarrow> go_error option \<times> 'w" where
  "updateOrderStatus env cfg w =
     (case existingOrderID env cfg w of
        (Inl e, w1) \<Rightarrow> (Some e, w1)
      | (Inr i, w1) \<Rightarrow>
          if i = 0 then (None, w1)
          else
            let (status, w2) = pick_text env [''CONFIRMED'', ''SHIPPED'', ''DELIVERED''] w1
            in doPut env (orders_url cfg @ ''/'' @ show_int i @ ''/status'') (VMap [(''status'', VStr status)]) w2)"

section \<open>Review scenarios\<close>

definition listReviews :: "'w lg_env \<Rightarrow> lg_config \<Rightarrow> 'w \<Rightarrow> go_error option \<times> 'w" where
  "listReviews env cfg = get_random env cfg 100 1 ''/api/reviews?page='' ''&limit=20''"

definition getProductReviews :: "'w lg_env \<Rightarrow> lg_config \<Rightarrow> 'w \<Rightarrow> go_error option \<times> 'w" where
  "getProductReviews env cfg = get_random env cfg 500000 1 ''/api/reviews/product/'' []"

definition getProductReviewStats :: "'w lg_env \<Rightarrow> lg_config \<Rightarrow> 'w \<Rightarrow> go_error option \<times> 'w" where
  "getProductReviewStats env cfg = get_random env cfg 500000 1 ''/api/reviews/product/'' ''/stats''"

definition createReview :: "'w lg_env \<Rightarrow> lg_config \<Rightarrow> 'w \<Rightarrow> go_error option \<times> 'w" where
  "createReview env cfg w =
     (let (i, w1) = rndIntn env 500000 w; (uid, w2) = randomUserID env cfg w1; (rating, w3) = rndIntn env 5 w2;
          (t, w4) = rndIntn env 10000 w3; (b, w5) = rndIntn env 100000 w4; (v, w6) = rndIntn env 2 w5
      in post_only env (gatewayURL cfg @ ''/api/reviews'')
           (VMap [(''product_id'', VStr (show_int (i + 1))), (''user_id'', VStr uid), (''rating'', VInt (rating + 1)),
              (''title'', VStr (''Review title '' @ show_int t)),
              (''body'', VStr (''This is a detailed review body text number '' @ show_int b
                 @ '' with lots of words to simulate real review content.'')),
              (''pros'', VList [VStr ''good quality'', VStr ''fast shipping'']), (''cons'', VList [VStr ''expensive'']),
              (''verified_purchase'', VBool (v = 1))]) w6)"

definition searchReviews :: "'w lg_env \<Rightarrow> lg_config \<Rightarrow> 'w \<Rightarrow> go_error option \<times> 'w" where
  "searchReviews env cfg w =
     (let (term, w1) = pick_text env searchTerms w
      in doGet env (gatewayURL cfg @ ''/api/reviews/search?q='' @ term) w1)"

section \<open>Inventory, payment and recommendation scenarios\<close>

definition listStock :: "'w lg_env \<Rightarrow> lg_config \<Rightarrow> 'w \<Rightarrow> go_error option \<times> 'w" where
  "listStock env cfg = get_random env cfg 50 1 ''/api/inventory?page='' ''&limit=20''"

definition getStock :: "'w lg_env \<Rightarrow> lg_config \<Rightarrow> 'w \<Rightarrow> go_error option \<times> 'w" where
  "getStock env cfg = get_random env cfg 500000 1 ''/api/inventory/'' []"

definition reserveStock :: "'w lg_env \<Rightarrow> lg_config \<Rightarrow> 'w \<Rightarrow> go_error option \<times> 'w" where
  "reserveStock env cfg w =
     (let (i, w1) = rndIntn env 500000 w; (uid, w2) = randomUserID env cfg w1; (q, w3) = rndIntn env 5 w2
      in post_only env (gatewayURL cfg @ ''/api/inventory/reserve'')
           (VMap [(''product_id'', VInt (i + 1)), (''user_id'', VStr uid), (''quantity'', VInt (q + 1))]) w3)"

definition updateStock :: "'w lg_env \<Rightarrow> lg_config \<Rightarrow> 'w \<Rightarrow> go_error option \<times> 'w" where
  "updateStock env cfg w =
     (let (i, w1) = rndIntn env 500000 w; (q, w2) = rndIntn env 1000 w1;
          (wh, w3) = pick_text env [''main'', ''east'', ''west'', ''central''] w2
      in doPut env (gatewayURL cfg @ ''/api/inventory/'' @ show_int (i + 1))
           (VMap [(''quantity'', VInt q), (''warehouse'', VStr wh)]) w3)"

definition getLowStock :: "'w lg_env \<Rightarrow> lg_config \<Rightarrow> 'w \<Rightarrow> go_error option \<times> 'w" where
  "getLowStock env cfg = get_random env cfg 20 5 ''/api/inventory/low-stock?threshold='' []"

definition listPayments :: "'w lg_env \<Rightarrow> lg_config \<Rightarrow> 'w \<Rightarrow> go_error option \<times> 'w" where
  "listPayments env cfg = get_random env cfg 50 1 ''/api/payments?page='' ''&limit=20''"

definition getUserPayments :: "'w lg_env \<Rightarrow> lg_config \<Rightarrow> 'w \<Rightarrow> go_error option \<times> 'w" where
  "getUserPayments env cfg w =
     (let (uid, w1) = randomUserID env cfg w in doGet env (gatewayURL cfg @ ''/api/payments/user/'' @ uid) w1)"

definition processPayment :: "'w lg_env \<Rightarrow> lg_config \<Rightarrow> 'w \<Rightarrow> go_error option \<times> 'w" where
  "processPayment env cfg w =
     (let (i, w1) = rndIntn env 100000 w; (uid, w2) = randomUserID env cfg w1; (a, w3) = rndIntn env 50000 w2;
          (cur, w4) = pick_text env [''USD'', ''EUR'', ''GBP''] w3;
          (meth, w5) = pick_text env [''card'', ''paypal'', ''crypto''] w4
      in post_only env (gatewayURL cfg @ ''/api/payments'')
           (VMap [(''order_id'', VStr (''order-'' @ show_int (i + 1))), (''user_id'', VStr uid),
              (''amount'', VHundredths a), (''currency'', VStr cur), (''method'', VStr meth)]) w5)"

definition get_recommendations ::
  "string \<Rightarrow> 'w lg_env \<Rightarrow> lg_config \<Rightarrow> 'w \<Rightarrow> go_error option \<times> 'w" where
  "get_recommendations path env cfg w =
     (let (uid, w1) = randomUserID env cfg w; (i, w2) = rndIntn env 20 w1
      in doGet env (gatewayURL cfg @ path @ uid @ ''?limit='' @ show_int (i + 5)) w2)"

definition getRecommendationsViaProductCatalog :: "'w lg_env \<Rightarrow> lg_config \<Rightarrow> 'w \<Rightarrow> go_error option \<times> 'w" where
  "getRecommendationsViaProductCatalog = get_recommendations ''/api/products/recommendations/''"

definition getRecommendationsViaGateway :: "'w lg_env \<Rightarrow> lg_config \<Rightarrow> 'w \<Rightarrow> go_error option \<times> 'w" where
  "getRecommendationsViaGateway = get_recommendations ''/api/recommendations/''"

end
