(* ===== verification/LoadPool.thy ===== *)
theory LoadPool
  imports LoadGen
begin

text \<open>
  How the load generator (services/load-generator/main.go) drives a service: the table of the
  scenarios, the weighted choice, the ticker with its bounded queue and pool of workers, and the
  start of the program. A scenario's result is that of its function, or \<^verbatim>\<open>None\<close> if it would not
  return. A division by zero, a ticker without a positive interval and \<^verbatim>\<open>rand.Intn\<close> of a number
  that is not positive are panics of the process.
\<close>

record 'w scenario =
  sc_name :: string
  sc_weight :: int
  sc_fn :: "'w \<Rightarrow> (go_error option \<times> 'w) option"

record 'w service_scenarios =
  ss_name :: string
  ss_scenarios :: "'w scenario list"

definition returning :: "('w \<Rightarrow> go_error option \<times> 'w) \<Rightarrow> 'w \<Rightarrow> (go_error option \<times> 'w) option" where
  "returning f w = Some (f w)"

definition entry :: "string \<Rightarrow> int \<Rightarrow> ('w \<Rightarrow> go_error option \<times> 'w) \<Rightarrow> 'w scenario" where
  "entry name weight f = \<lparr>sc_name = name, sc_weight = weight, sc_fn = returning f\<rparr>"

definition allServices :: "'w lg_env \<Rightarrow> lg_config \<Rightarrow> 'w service_scenarios list" where
  "allServices env cfg = [
     \<lparr>ss_name = ''product-catalog'', ss_scenarios =
        [entry ''list-products'' 30 (listProducts env cfg), entry ''get-product'' 30 (getProduct env cfg),
         entry ''search-products'' 20 (searchProducts env cfg),
         entry ''get-by-category'' 20 (getProductsByCategory env cfg)]\<rparr>,
     \<lparr>ss_name = ''cart-service'', ss_scenarios =
        [entry ''get-cart'' 30 (getCart env cfg), entry ''add-to-cart'' 40 (addToCart env cfg),
         entry ''remove-from-cart'' 20 (removeFromCart env cfg), entry ''checkout'' 10 (checkoutCart env cfg)]\<rparr>,
     \<lparr>ss_name = ''order-service'', ss_scenarios =
        [entry ''list-orders'' 20 (listOrders env cfg), entry ''get-order'' 20 (getOrder env cfg),
         entry ''create-order'' 25 (createOrder env cfg),
         \<lparr>sc_name = ''create-order-await-fulfillment'', sc_weight = 12,
          sc_fn = createOrderAndAwaitFulfillment env cfg\<rparr>,
         entry ''get-user-orders'' 20 (getUserOrders env cfg), entry ''update-status'' 15 (updateOrderStatus env cfg)]\<rparr>,
     \<lparr>ss_name = ''review-service'', ss_scenarios =
        [entry ''list-reviews'' 20 (listReviews env cfg), entry ''get-product-reviews'' 20 (getProductReviews env cfg),
         entry ''get-review-stats'' 15 (getProductReviewStats env cfg), entry ''create-review'' 25 (createReview env cfg),
         entry ''search-reviews'' 20 (searchReviews env cfg)]\<rparr>,
     \<lparr>ss_name = ''inventory-service'', ss_scenarios =
        [entry ''list-stock'' 25 (listStock env cfg), entry ''get-stock'' 25 (getStock env cfg),
         entry ''reserve-stock'' 20 (reserveStock env cfg), entry ''update-stock'' 15 (updateStock env cfg),
         entry ''get-low-stock'' 15 (getLowStock env cfg)]\<rparr>,
     \<lparr>ss_name = ''payment-service'', ss_scenarios =
        [entry ''list-payments'' 30 (listPayments env cfg), entry ''get-user-payments'' 30 (getUserPayments env cfg),
         entry ''process-payment'' 40 (processPayment env cfg)]\<rparr>,
     \<lparr>ss_name = ''recommendation-service'', ss_scenarios =
        [entry ''via-product-catalog-go-grpc'' 50 (getRecommendationsViaProductCatalog env cfg),
         entry ''via-api-gateway-py-grpc'' 50 (getRecommendationsViaGateway env cfg)]\<rparr>]"

section \<open>The weighted choice\<close>

definition total_weight :: "'w scenario list \<Rightarrow> int" where
  "total_weight scs = foldl (\<lambda>t s. t + sc_weight s) 0 scs"

fun pick_loop :: "int \<Rightarrow> 'w scenario list \<Rightarrow> 'w scenario option" where
  "pick_loop r [] = None"
| "pick_loop r (s # scs) = (let r' = r - sc_weight s in if r' < 0 then Some s else pick_loop r' scs)"

text \<open>\<^verbatim>\<open>None\<close> is the panic of \<^verbatim>\<open>rand.Intn\<close>, or of the index of an empty list.\<close>

definition pickScenario :: "'w lg_env \<Rightarrow> 'w scenario list \<Rightarrow> 'w \<Rightarrow> ('w scenario \<times> 'w) option" where
  "pickScenario env scs w =
     (if total_weight scs \<le> 0 then None
      else
        let (r, w1) = rndIntn env (total_weight scs) w in
        (case pick_loop r scs of
           Some s \<Rightarrow> Some (s, w1)
         | None \<Rightarrow> (case scs of [] \<Rightarrow> None | s # _ \<Rightarrow> Some (s, w1))))"

section \<open>Ticker, queue and workers\<close>

text \<open>The set-up of \<^verbatim>\<open>runServiceLoad\<close>: the interval and the number of workers, or a panic.\<close>

record load_plan =
  lp_interval :: int
  lp_workers :: int

definition load_plan_of :: "int \<Rightarrow> load_plan option" where
  "load_plan_of rps =
     (if rps = 0 then None
      else
        let interval = go_div second rps in
        if interval \<le> 0 then None
        else
          let workers = wrap64 (rps * 2)
          in Some \<lparr>lp_interval = interval, lp_workers = (if workers < 10 then 10 else workers)\<rparr>)"

text \<open>
  The state: the buffered channel, and for every worker the scenario it runs. The counters of
  requests and errors are those of the package (no wrap-around of their 64 bits is modelled).
\<close>

record 'w load_state =
  ld_queue :: "'w scenario list"
  ld_busy :: "'w scenario option list"
  ld_reqs :: nat
  ld_errs :: nat
  ld_world :: 'w

definition load_start :: "load_plan \<Rightarrow> 'w \<Rightarrow> 'w load_state" where
  "load_start plan w = \<lparr>ld_queue = [], ld_busy = replicate (nat (lp_workers plan)) None,
     ld_reqs = 0, ld_errs = 0, ld_world = w\<rparr>"

text \<open>A tick: choose, and put into the queue unless it is full.\<close>

definition tick :: "'w lg_env \<Rightarrow> load_plan \<Rightarrow> 'w scenario list \<Rightarrow> 'w load_state \<Rightarrow> 'w load_state option" where
  "tick env plan scs st =
     (case pickScenario env scs (ld_world st) of
        None \<Rightarrow> None
      | Some (s, w) \<Rightarrow>
          Some (if int (length (ld_queue st)) < lp_workers plan
                then st\<lparr>ld_queue := ld_queue st @ [s], ld_world := w\<rparr> else st\<lparr>ld_world := w\<rparr>))"

text \<open>An idle worker takes the first of the queue and counts it; a busy one finishes.\<close>

definition take_work :: "nat \<Rightarrow> 'w load_state \<Rightarrow> 'w load_state option" where
  "take_work i st =
     (case ld_queue st of
        [] \<Rightarrow> None
      | s # q \<Rightarrow>
          if i < length (ld_busy st) \<and> ld_busy st ! i = None
          then Some (st\<lparr>ld_queue := q, ld_busy := (ld_busy st)[i := Some s], ld_reqs := ld_reqs st + 1\<rparr>)
          else None)"

definition finish_work :: "nat \<Rightarrow> 'w load_state \<Rightarrow> 'w load_state option" where
  "finish_work i st =
     (if i < length (ld_busy st)
      then
        (case ld_busy st ! i of
           None \<Rightarrow> None
         | Some s \<Rightarrow>
             (case sc_fn s (ld_world st) of
                None \<Rightarrow> None
              | Some (e, w) \<Rightarrow>
                  Some (st\<lparr>ld_busy := (ld_busy st)[i := None],
                    ld_errs := ld_errs st + (if e \<noteq> None then 1 else 0), ld_world := w\<rparr>)))
      else None)"

text \<open>The goroutines interleave in any order.\<close>

inductive load_step ::
  "'w lg_env \<Rightarrow> load_plan \<Rightarrow> 'w scenario list \<Rightarrow> 'w load_state \<Rightarrow> 'w load_state \<Rightarrow> bool"
  for env plan scs where
  ticks: "tick env plan scs st = Some st' \<Longrightarrow> load_step env plan scs st st'"
| takes: "take_work i st = Some st' \<Longrightarrow> load_step env plan scs st st'"
| finishes: "finish_work i st = Some st' \<Longrightarrow> load_step env plan scs st st'"

inductive load_reachable ::
  "'w lg_env \<Rightarrow> load_plan \<Rightarrow> 'w scenario list \<Rightarrow> 'w \<Rightarrow> 'w load_state \<Rightarrow> bool"
  for env plan scs w where
  load_init: "load_reachable env plan scs w (load_start plan w)"
| load_next: "load_reachable env plan scs w st \<Longrightarrow> load_step env plan scs st st' \<Longrightarrow>
     load_reachable env plan scs w st'"

section \<open>The start\<close>

text \<open>At most \<open>n\<close> more looks at the gateway, five seconds apart; then the load starts anyway.\<close>

fun await_gateway :: "'w lg_env \<Rightarrow> lg_config \<Rightarrow> nat \<Rightarrow> 'w \<Rightarrow> 'w" where
  "await_gateway env cfg 0 w = w"
| "await_gateway env cfg (Suc n) w =
     (case httpDo env ''GET'' (gatewayURL cfg @ ''/health'') None w of
        (Inr resp, w1) \<Rightarrow> if hr_status resp = 200 then w1 else await_gateway env cfg n (sleepFor env (5 * second) w1)
      | (Inl _, w1) \<Rightarrow> await_gateway env cfg n (sleepFor env (5 * second) w1))"

text \<open>
  The program: the variables and users of the package, the telemetry, without which it exits (None), the
  wait for the gateway, and the services with their plans; a service without a plan takes the process
  down.
\<close>

definition load_main ::
  "('w \<Rightarrow> go_error option \<times> 'w) \<Rightarrow> 'w lg_env \<Rightarrow> (string \<rightharpoonup> string) \<Rightarrow> 'w
   \<Rightarrow> (string \<times> load_plan option) list option \<times> 'w" where
  "load_main telemetry env vars w =
     (let (cfg, w1) = init_config env vars w in
      case telemetry w1 of
        (Some e, w2) \<Rightarrow> (None, w2)
      | (None, w2) \<Rightarrow>
          (let w3 = await_gateway env cfg 60 w2
           in (Some (map (\<lambda>svc. (ss_name svc, load_plan_of (rpsFor cfg (ss_name svc)))) (allServices env cfg)), w3)))"

end
