(* ===== verification/LoadProps.thy ===== *)
theory LoadProps
  imports LoadPool
begin

text \<open>
  The properties of the load generator: the weighted choice, the bounded pool, the rates that crash
  it, its environment variable, the end of the wait for an order, and the size of the carts.
\<close>

section \<open>The weighted choice\<close>

lemma total_weight_acc: "foldl (\<lambda>t s. t + sc_weight s) a scs = a + total_weight scs"
proof (induction scs arbitrary: a)
  case (Cons s scs)
  from Cons [of "a + sc_weight s"] Cons [of "sc_weight s"] show ?case by (simp add: total_weight_def)
qed (simp add: total_weight_def)

lemma total_weight_simps [simp]:
  "total_weight [] = 0" "total_weight (s # scs) = sc_weight s + total_weight scs"
  using total_weight_acc [of "sc_weight s" scs] by (simp_all add: total_weight_def)

lemma total_weight_take_nonneg:
  "(\<And>s. s \<in> set scs \<Longrightarrow> 0 \<le> sc_weight s) \<Longrightarrow> 0 \<le> total_weight (take j scs)"
proof (induction scs arbitrary: j)
  case (Cons s scs)
  have "0 \<le> sc_weight s" "0 \<le> total_weight (take k scs)" for k
    using Cons.prems Cons.IH by simp_all
  then show ?case by (cases j) simp_all
qed simp

lemma pick_loop_nth:
  assumes "\<And>s. s \<in> set scs \<Longrightarrow> 0 \<le> sc_weight s" and "i < length scs"
    and "total_weight (take i scs) \<le> r" and "r < total_weight (take (Suc i) scs)"
  shows "pick_loop r scs = Some (scs ! i)"
  using assms
proof (induction scs arbitrary: i r)
  case (Cons s scs)
  show ?case
  proof (cases i)
    case 0
    with Cons.prems show ?thesis by simp
  next
    case (Suc j)
    have "0 \<le> total_weight (take j scs)"
      using Cons.prems(1) by (intro total_weight_take_nonneg) simp
    with Suc Cons.prems have "pick_loop (r - sc_weight s) scs = Some (scs ! j)"
      by (intro Cons.IH) auto
    with Suc Cons.prems \<open>0 \<le> total_weight (take j scs)\<close> show ?thesis by simp
  qed
qed simp

lemma weight_interval:
  assumes "0 \<le> r" and "r < total_weight scs"
  shows "\<exists>i < length scs. total_weight (take i scs) \<le> r \<and> r < total_weight (take (Suc i) scs)"
  using assms
proof (induction scs arbitrary: r)
  case (Cons s scs)
  show ?case
  proof (cases "r < sc_weight s")
    case True
    with Cons.prems show ?thesis by (intro exI [of _ 0]) simp
  next
    case False
    with Cons.prems Cons.IH [of "r - sc_weight s"] obtain i where
      "i < length scs" "total_weight (take i scs) \<le> r - sc_weight s" "r - sc_weight s < total_weight (take (Suc i) scs)"
      by auto
    then show ?thesis by (intro exI [of _ "Suc i"]) simp
  qed
qed simp

lemma total_weight_take_Suc:
  "i < length scs \<Longrightarrow> total_weight (take (Suc i) scs) = total_weight (take i scs) + sc_weight (scs ! i)"
  by (induction scs arbitrary: i) (auto simp: take_Cons nth_Cons split: nat.splits)

text \<open>
  The choice follows the weights. The numbers below the total weight fall into consecutive
  intervals, one for each scenario and as long as its weight; a number chooses the scenario of its
  interval. So a uniform random number chooses each scenario with its share of the weight, and for
  every service of the program, whose total weight is positive, a choice never panics.
\<close>

theorem pick_by_weight:
  assumes "\<And>s. s \<in> set scs \<Longrightarrow> 0 \<le> sc_weight s" and "0 \<le> r" and "r < total_weight scs"
  shows "\<exists>i < length scs. pick_loop r scs = Some (scs ! i)
    \<and> total_weight (take i scs) \<le> r \<and> r < total_weight (take i scs) + sc_weight (scs ! i)
    \<and> (\<forall>r'. total_weight (take i scs) \<le> r' \<and> r' < total_weight (take i scs) + sc_weight (scs ! i) \<longrightarrow>
         pick_loop r' scs = Some (scs ! i))
    \<and> list_all (\<lambda>svc. 0 < total_weight (ss_scenarios svc)) (allServices env cfg)"
proof -
  obtain i where i: "i < length scs" "total_weight (take i scs) \<le> r" "r < total_weight (take (Suc i) scs)"
    using weight_interval [OF assms(2,3)] by blast
  with pick_loop_nth [OF assms(1) i(1)] have "\<forall>r'. total_weight (take i scs) \<le> r'
      \<and> r' < total_weight (take i scs) + sc_weight (scs ! i) \<longrightarrow> pick_loop r' scs = Some (scs ! i)"
    by (simp add: total_weight_take_Suc)
  moreover have "list_all (\<lambda>svc. 0 < total_weight (ss_scenarios svc)) (allServices env cfg)"
    by (simp add: allServices_def entry_def)
  ultimately show ?thesis using i by (intro exI [of _ i]) (simp add: total_weight_take_Suc)
qed

definition two_scenarios :: "unit scenario list" where
  "two_scenarios = [entry ''a'' 30 (\<lambda>w. (None, w)), entry ''b'' 70 (\<lambda>w. (None, w))]"

theorem pick_by_weight_witness:
  "\<exists>i < 2. pick_loop 30 two_scenarios = Some (two_scenarios ! i)"
proof -
  have "\<And>s. s \<in> set two_scenarios \<Longrightarrow> 0 \<le> sc_weight s" "30 < total_weight two_scenarios"
    by (auto simp: two_scenarios_def entry_def)
  from pick_by_weight [OF this(1) _ this(2)] have "\<exists>i < length two_scenarios. pick_loop 30 two_scenarios = Some (two_scenarios ! i)"
    by (metis zero_le_numeral)
  moreover have "length two_scenarios = 2" by (simp add: two_scenarios_def)
  ultimately show ?thesis by simp
qed

section \<open>The pool\<close>

text \<open>The workers at work.\<close>

definition busy :: "'w load_state \<Rightarrow> nat" where
  "busy st = length (filter (\<lambda>x. \<not> Option.is_none x) (ld_busy st))"

definition load_inv :: "load_plan \<Rightarrow> 'w load_state \<Rightarrow> bool" where
  "load_inv plan st \<longleftrightarrow> int (length (ld_queue st)) \<le> lp_workers plan
     \<and> int (length (ld_busy st)) = lp_workers plan \<and> ld_errs st + busy st \<le> ld_reqs st"

lemma busy_positive:
  "i < length xs \<Longrightarrow> \<not> Option.is_none (xs ! i) \<Longrightarrow> 0 < length (filter (\<lambda>x. \<not> Option.is_none x) xs)"
  by (metis (mono_tags, lifting) filter_empty_conv length_greater_0_conv nth_mem)

lemma busy_update:
  "i < length xs \<Longrightarrow> length (filter (\<lambda>x. \<not> Option.is_none x) (xs[i := y]))
     = length (filter (\<lambda>x. \<not> Option.is_none x) xs)
       - (if Option.is_none (xs ! i) then 0 else 1) + (if Option.is_none y then 0 else 1)"
proof (induction xs arbitrary: i)
  case (Cons x xs)
  then show ?case
    using busy_positive [of "i - 1" xs] by (cases i) auto
qed simp

lemma tick_inv: "tick env plan scs st = Some st' \<Longrightarrow> load_inv plan st \<Longrightarrow> load_inv plan st'"
  by (auto simp: tick_def load_inv_def busy_def split: option.splits prod.splits if_splits)

lemma take_inv: "take_work i st = Some st' \<Longrightarrow> load_inv plan st \<Longrightarrow> load_inv plan st'"
  by (auto simp: take_work_def load_inv_def busy_def busy_update split: list.splits if_splits)

lemma busy_done:
  assumes "i < length xs" and "\<not> Option.is_none (xs ! i)"
  shows "Suc (length (filter (\<lambda>x. \<not> Option.is_none x) (xs[i := None])))
    = length (filter (\<lambda>x. \<not> Option.is_none x) xs)"
  using busy_update [OF assms(1), of None] busy_positive [OF assms] assms(2) by simp

lemma finish_inv: "finish_work i st = Some st' \<Longrightarrow> load_inv plan st \<Longrightarrow> load_inv plan st'"
  using busy_done [of i "ld_busy st"]
  by (auto simp: finish_work_def load_inv_def busy_def split: option.splits prod.splits if_splits)

lemma load_step_inv: "load_step env plan scs st st' \<Longrightarrow> load_inv plan st \<Longrightarrow> load_inv plan st'"
  by (induction rule: load_step.induct) (blast intro: tick_inv take_inv finish_inv)+

lemma load_start_inv: "0 \<le> lp_workers plan \<Longrightarrow> load_inv plan (load_start plan w)"
  by (simp add: load_inv_def load_start_def busy_def)

text \<open>
  Backpressure. In every state that the ticker and the workers of a service reach, in any
  order, the queue holds at most as many scenarios as there are workers, so a tick never blocks and
  memory stays bounded; and every request counted is finished or at work: the errors and the
  requests at work are at most the requests, and at most one request is at work per worker.
\<close>

theorem load_stays_bounded:
  assumes "load_plan_of rps = Some plan" and "load_reachable env plan scs w st"
  shows "int (length (ld_queue st)) \<le> lp_workers plan
    \<and> ld_errs st + busy st \<le> ld_reqs st \<and> int (busy st) \<le> lp_workers plan"
proof -
  have "0 \<le> lp_workers plan" using assms(1) by (auto simp: load_plan_of_def Let_def split: if_splits)
  from assms(2) have "load_inv plan st"
    by (induction rule: load_reachable.induct)
       (blast intro: load_start_inv [OF \<open>0 \<le> lp_workers plan\<close>] load_step_inv)+
  moreover have "busy st \<le> length (ld_busy st)" by (simp add: busy_def)
  ultimately show ?thesis by (auto simp: load_inv_def)
qed

text \<open>A random source that always gives zero, and a gateway that accepts everything.\<close>

definition still_env :: "json \<Rightarrow> int lg_env" where
  "still_env body = \<lparr>rndIntn = (\<lambda>n w. (0, w)),
     httpDo = (\<lambda>m url b w. (Inr \<lparr>hr_status = 200, hr_text = [], hr_json = Raw body\<rparr>, w)),
     timeNow = (\<lambda>w. w), sleepFor = (\<lambda>d w. w + d)\<rparr>"

definition one_scenario :: "int scenario list" where
  "one_scenario = [entry ''a'' 30 (\<lambda>w. (None, w))]"

theorem load_stays_bounded_witness:
  "int (busy (the (take_work 0 (the (tick (still_env JNull) \<lparr>lp_interval = 50000000, lp_workers = 40\<rparr> one_scenario
     (load_start \<lparr>lp_interval = 50000000, lp_workers = 40\<rparr> 0)))))) \<le> 40"
proof -
  let ?plan = "\<lparr>lp_interval = 50000000, lp_workers = 40\<rparr>"
  have plan: "load_plan_of 20 = Some ?plan"
    by (simp add: load_plan_of_def go_div_def second_def int64_ok_def)
  obtain st where st: "tick (still_env JNull) ?plan one_scenario (load_start ?plan 0) = Some st" "ld_queue st = one_scenario"
    "ld_busy st = replicate 40 None"
    by (simp add: tick_def pickScenario_def still_env_def one_scenario_def entry_def load_start_def)
  then obtain st' where st': "take_work 0 st = Some st'"
    by (simp add: take_work_def one_scenario_def)
  have "load_reachable (still_env JNull) ?plan one_scenario 0 st'"
    by (rule load_next [OF load_next [OF load_init ticks [OF st(1)]] takes [OF st']])
  from load_stays_bounded [OF plan this] st(1) st' show ?thesis by simp
qed

section \<open>Rates that stop the program\<close>

lemma load_plan_none: "load_plan_of rps = None \<longleftrightarrow> rps \<le> 0 \<or> 1000000000 < rps"
proof -
  have "go_div second rps = second div rps" if "0 < rps"
    using that by (simp add: go_div_nonneg second_def)
  moreover have "go_div second rps \<le> 0" if "rps < 0"
    using that by (simp add: go_div_def second_def pos_imp_zdiv_nonneg_iff)
  moreover have "0 < second div rps \<longleftrightarrow> rps \<le> 1000000000" if "0 < rps"
    using that pos_imp_zdiv_pos_iff [OF that, of second] by (simp add: second_def)
  ultimately show ?thesis
    by (cases rps "0 :: int" rule: linorder_cases) (auto simp: load_plan_of_def Let_def)
qed

lemma load_plan_some:
  assumes "load_plan_of rps = Some plan"
  shows "0 < lp_interval plan" and "lp_interval plan * rps \<le> second" and "lp_workers plan = max 10 (2 * rps)"
proof -
  have r: "0 < rps" "rps \<le> 1000000000" using assms load_plan_none [of rps] by (auto simp: not_le)
  then have "wrap64 (rps * 2) = rps * 2" by (simp add: int64_ok_def)
  moreover have "second div rps * rps \<le> second" using div_mult_mod_eq [of second rps] r(1)
    by (metis add_le_same_cancel1 le_add_same_cancel1 pos_mod_sign)
  moreover have "go_div second rps = second div rps" using r(1) by (simp add: go_div_nonneg second_def)
  ultimately show "0 < lp_interval plan" and "lp_interval plan * rps \<le> second" and "lp_workers plan = max 10 (2 * rps)"
    using assms by (auto simp: load_plan_of_def Let_def split: if_splits)
qed

text \<open>
  C40. A rate of zero takes the load generator down. A service is set up exactly for rates from one
  to a thousand million per second, with a positive interval and at least ten workers, two for each
  request per second; any other rate, in particular the zero that RPS_OVERRIDES accepts to switch a
  service off, divides by zero or gives the ticker no interval: a panic of the process, which stops
  the load of every service.
\<close>

theorem zero_rate_panics:
  "(load_plan_of rps = None \<longleftrightarrow> rps \<le> 0 \<or> 1000000000 < rps)
   \<and> (\<forall>plan. load_plan_of rps = Some plan \<longrightarrow> 0 < lp_interval plan \<and> lp_interval plan * rps \<le> second
        \<and> lp_workers plan = max 10 (2 * rps))
   \<and> (\<forall>cfg. rpsOverrides cfg = parseRPSOverrides ''review-service:0'' \<longrightarrow>
        load_plan_of (rpsFor cfg ''review-service'') = None)"
proof -
  have "parseRPSOverrides ''review-service:0'' ''review-service'' = Some 0" by code_simp
  then have "load_plan_of (rpsFor cfg ''review-service'') = None"
    if "rpsOverrides cfg = parseRPSOverrides ''review-service:0''" for cfg
    using that by (simp add: rpsFor_def load_plan_of_def)
  with load_plan_none load_plan_some show ?thesis by blast
qed

theorem zero_rate_panics_witness:
  "(\<exists>plan. load_plan_of 20 = Some plan \<and> lp_workers plan = 40) \<and> load_plan_of 0 = None"
proof -
  obtain plan where plan: "load_plan_of 20 = Some plan" using zero_rate_panics [of 20] by auto
  with zero_rate_panics [of 20] have "lp_workers plan = 40" by auto
  with plan zero_rate_panics [of 0] show ?thesis by auto
qed

section \<open>The overrides\<close>

lemma split_on_append:
  assumes "c \<notin> set x"
  shows "split_on c (x @ c # r) = x # split_on c r"
  using assms by (induction x) auto

lemma split_on_single: "c \<notin> set x \<Longrightarrow> split_on c x = [x]"
  by (induction x) auto

lemma split_join_on:
  assumes "xs \<noteq> []" and "\<And>x. x \<in> set xs \<Longrightarrow> c \<notin> set x"
  shows "split_on c (join_on c xs) = xs"
  using assms
proof (induction c xs rule: join_on.induct)
  case (3 c x y zs)
  then show ?case by (simp add: split_on_append)
qed (simp_all add: split_on_single)

lemma trim_keep: "(\<And>x. x \<in> set s \<Longrightarrow> \<not> p x) \<Longrightarrow> trim p s = s"
  by (simp add: trim_def dropWhile_eq_self_iff [THEN iffD2] hd_in_set)
     (metis dropWhile_eq_self_iff hd_in_set rev_rev_ident set_rev)

text \<open>A name that the format can carry.\<close>

definition plain_name :: "string \<Rightarrow> bool" where
  "plain_name n \<longleftrightarrow> list_all (\<lambda>c. \<not> is_space c \<and> c \<noteq> CHR '','' \<and> c \<noteq> CHR '':'') n"

definition show_override :: "string \<times> int \<Rightarrow> string" where
  "show_override nr = fst nr @ CHR '':'' # show_int (snd nr)"

lemma digit_plain: "is_digit c \<Longrightarrow> \<not> is_space c \<and> c \<noteq> CHR '','' \<and> c \<noteq> CHR '':''"
  by (auto simp: is_digit_def is_space_def)

lemma show_int_plain: "0 \<le> r \<Longrightarrow> list_all (\<lambda>c. \<not> is_space c \<and> c \<noteq> CHR '','' \<and> c \<noteq> CHR '':'') (show_int r)"
  using show_nat_digits [of "nat r"] digit_plain by (auto simp: show_int_def list_all_iff)

lemma add_override_show:
  assumes "plain_name n" and "0 \<le> r" and "int64_ok r"
  shows "add_override (show_override (n, r)) m = m(n \<mapsto> r)"
proof -
  have chars: "\<not> is_space c \<and> c \<noteq> CHR '',''" if c: "c \<in> set (show_override (n, r))" for c
  proof -
    consider "c \<in> set n" | "c = CHR '':''" | "c \<in> set (show_int r)"
      using c by (auto simp: show_override_def)
    then show ?thesis
    proof cases
      case 1
      with assms(1) show ?thesis by (simp add: plain_name_def list_all_iff)
    next
      case 2
      then show ?thesis by (simp add: is_space_def)
    next
      case 3
      with show_int_plain [OF assms(2)] show ?thesis by (simp add: list_all_iff)
    qed
  qed
  have pair: "trimSpace (show_override (n, r)) = show_override (n, r)"
    unfolding trimSpace_def by (rule trim_keep) (use chars in blast)
  have colon: "CHR '':'' \<notin> set n" using assms(1) by (auto simp: plain_name_def list_all_iff)
  have cut: "cut (CHR '':'') (show_override (n, r)) = (n, show_int r, True)"
    using colon by (induction n) (auto simp: cut_def show_override_def)
  have name: "trimSpace n = n"
    unfolding trimSpace_def by (rule trim_keep) (use assms(1) in \<open>simp add: plain_name_def list_all_iff\<close>)
  have rate: "trimSpace (show_int r) = show_int r"
    unfolding trimSpace_def by (rule trim_keep) (use show_int_plain [OF assms(2)] in \<open>simp add: list_all_iff\<close>)
  have "show_override (n, r) \<noteq> []" by (simp add: show_override_def)
  with name rate pair cut assms(2,3) show ?thesis
    by (simp add: add_override_def atoi_show_int Let_def)
qed

lemma fold_overrides:
  assumes "\<And>n r. (n, r) \<in> set xs \<Longrightarrow> plain_name n \<and> 0 \<le> r \<and> int64_ok r"
  shows "fold add_override (map show_override xs) m = m ++ map_of (rev xs)"
  using assms
proof (induction xs arbitrary: m)
  case (Cons x xs)
  obtain n r where x: "x = (n, r)" by fastforce
  with Cons.prems [of n r] have "add_override (show_override x) m = m(n \<mapsto> r)"
    by (simp add: add_override_show)
  moreover have "fold add_override (map show_override xs) (m(n \<mapsto> r)) = m(n \<mapsto> r) ++ map_of (rev xs)"
    by (rule Cons.IH) (rule Cons.prems, simp)
  moreover have "m(n \<mapsto> r) ++ map_of (rev xs) = m ++ map_of (rev (x # xs))"
    using x by (simp add: map_of_append)
  ultimately show ?case by simp
qed simp

lemma fold_override_range:
  "(\<And>n r. m n = Some r \<Longrightarrow> 0 \<le> r \<and> int64_ok r) \<Longrightarrow>
   fold add_override es m n = Some r \<Longrightarrow> 0 \<le> r \<and> int64_ok r"
proof (induction es arbitrary: m)
  case (Cons e es)
  have "0 \<le> r' \<and> int64_ok r'" if "add_override e m n' = Some r'" for n' r'
    using that Cons.prems(1) atoi_range
    by (auto simp: add_override_def Let_def split: if_splits option.splits prod.splits)
  from Cons.IH [OF this] Cons.prems(2) show ?case by simp
qed simp

text \<open>
  RPS_OVERRIDES reads back. Of a text that lists rates by service, as service:rate pairs with
  commas between them, with names that hold no comma, colon or space and rates that are not
  negative, the parser recovers the rates, the last one for a name that occurs twice; and whatever
  the text, a rate it sets is never negative and fits 64 bits.
\<close>

theorem overrides_round_trip:
  assumes "xs \<noteq> []" and "\<And>n r. (n, r) \<in> set xs \<Longrightarrow> plain_name n \<and> 0 \<le> r \<and> int64_ok r"
  shows "parseRPSOverrides (join_on (CHR '','') (map show_override xs)) = map_of (rev xs)
    \<and> (\<forall>s n r. parseRPSOverrides s n = Some r \<longrightarrow> 0 \<le> r \<and> int64_ok r)"
proof (intro conjI allI impI)
  have "CHR '','' \<notin> set x" if x: "x \<in> set (map show_override xs)" for x
  proof -
    from x obtain n r where "(n, r) \<in> set xs" "x = show_override (n, r)" by auto
    with assms(2) [of n r] show_int_plain [of r] show ?thesis
      by (auto simp: show_override_def plain_name_def list_all_iff)
  qed
  with assms(1) have "split_on (CHR '','') (join_on (CHR '','') (map show_override xs)) = map show_override xs"
    by (intro split_join_on) auto
  then show "parseRPSOverrides (join_on (CHR '','') (map show_override xs)) = map_of (rev xs)"
    using fold_overrides [where m = Map.empty and xs = xs, OF assms(2)] by (simp add: parseRPSOverrides_def)
next
  fix s n r assume "parseRPSOverrides s n = Some r"
  then show "0 \<le> r" "int64_ok r"
    using fold_override_range [of Map.empty "split_on (CHR '','') s" n r] by (auto simp: parseRPSOverrides_def)
qed

theorem overrides_round_trip_witness:
  "parseRPSOverrides (join_on (CHR '','') (map show_override [(''review'', 80), (''cart'', 5)])) ''cart'' = Some 5"
proof -
  have "plain_name n \<and> 0 \<le> r \<and> int64_ok r" if "(n, r) \<in> set [(''review'', 80), (''cart'', 5)]" for n r
    using that by (auto simp: plain_name_def is_space_def int64_ok_def)
  from overrides_round_trip [of "[(''review'', 80), (''cart'', 5)]", OF _ this]
  have "parseRPSOverrides (join_on (CHR '','') (map show_override [(''review'', 80), (''cart'', 5)]))
      = map_of (rev [(''review'', 80), (''cart'', 5)])" by simp
  then show ?thesis by (simp only: rev.simps append.simps map_of.simps) simp
qed

section \<open>Waiting for an order\<close>

text \<open>A clock that sleeping moves by at least the time slept, and nothing moves back.\<close>

definition clock_runs :: "'w lg_env \<Rightarrow> bool" where
  "clock_runs env \<longleftrightarrow> (\<forall>d w. timeNow env w + d \<le> timeNow env (sleepFor env d w))
     \<and> (\<forall>m u b w. timeNow env w \<le> timeNow env (snd (httpDo env m u b w)))"

lemma poll_order_clock: "clock_runs env \<Longrightarrow> timeNow env w \<le> timeNow env (snd (poll_order env url w))"
  unfolding clock_runs_def poll_order_def
  by (auto split: prod.splits sum.splits if_splits) (metis snd_conv)+

lemma await_order_ends:
  assumes "clock_runs env"
  shows "\<exists>r w'. await_order env url deadline w = Some (r, w')"
proof (induction "nat (deadline - timeNow env w)" arbitrary: w rule: less_induct)
  case less
  show ?case
  proof (cases "timeNow env w < deadline")
    case True
    obtain ok w1 where poll: "poll_order env url (sleepFor env (2 * second) w) = (ok, w1)" by fastforce
    have "timeNow env w + 2 * second \<le> timeNow env (sleepFor env (2 * second) w)"
      using assms by (simp add: clock_runs_def)
    also have "\<dots> \<le> timeNow env w1"
      using poll_order_clock [OF assms, of "sleepFor env (2 * second) w" url] poll by simp
    finally have "nat (deadline - timeNow env w1) < nat (deadline - timeNow env w)"
      using True by (simp add: second_def)
    from less [OF this] obtain r w2 where "await_order env url deadline w1 = Some (r, w2)" by blast
    with True poll await_order.simps [of env url deadline w] show ?thesis by (cases ok) auto
  next
    case False
    with await_order.simps [of env url deadline w] show ?thesis by auto
  qed
qed

text \<open>
  C34. The wait for an order ends. When time passes while the generator sleeps, and never runs back,
  the scenario that creates an order and waits for its fulfillment returns, whatever the gateway
  answers.
\<close>

theorem await_returns:
  assumes "clock_runs env"
  shows "\<exists>e w'. createOrderAndAwaitFulfillment env cfg w = Some (e, w')"
proof -
  have "\<exists>e w'. map_option (\<lambda>(ok, w3). (if ok then None else Some (notFulfilled i), w3)) (await_order env url t w2)
      = Some (e, w')" for i url t w2
    using await_order_ends [OF assms, of url t w2] by auto
  then show ?thesis
    by (simp add: createOrderAndAwaitFulfillment_def Let_def split: prod.splits sum.splits)
qed

theorem await_returns_witness:
  "\<exists>e w'. createOrderAndAwaitFulfillment (still_env (JObj [(''id'', JNum 7), (''status'', JStr ''PENDING'')]))
     \<lparr>gatewayURL = ''g'', rpsPerSvc = 20, rpsOverrides = Map.empty, userIDs = [''u'']\<rparr> 0 = Some (e, w')"
  by (rule await_returns) (simp add: clock_runs_def still_env_def)

section \<open>The size of the carts\<close>

text \<open>
  What the cart service behind the gateway promises, for the users of the generator: a random number
  below its bound; a successful read lists what is in the cart and no read changes it; a successful
  checkout empties the cart; an add puts in one item at most; nothing else grows, and a request for
  one user leaves the others alone. The sizes are \<open>cart\<close>.
\<close>

definition cart_server :: "'w lg_env \<Rightarrow> lg_config \<Rightarrow> ('w \<Rightarrow> string \<Rightarrow> nat) \<Rightarrow> bool" where
  "cart_server env cfg cart \<longleftrightarrow>
     userIDs cfg \<noteq> []
   \<and> (\<forall>n w. cart (snd (rndIntn env n w)) = cart w \<and> (0 < n \<longrightarrow> 0 \<le> fst (rndIntn env n w) \<and> fst (rndIntn env n w) < n))
   \<and> (\<forall>uid \<in> set (userIDs cfg). \<forall>w v. cart (snd (httpDo env ''GET'' (cart_url cfg uid) None w)) v = cart w v)
   \<and> (\<forall>uid \<in> set (userIDs cfg). \<forall>w resp. fst (httpDo env ''GET'' (cart_url cfg uid) None w) = Inr resp \<longrightarrow>
        hr_status resp < 400 \<longrightarrow> (\<exists>ids. decode_cart (hr_json resp) = Inr ids \<and> length ids = cart w uid))
   \<and> (\<forall>uid \<in> set (userIDs cfg). \<forall>b w v. cart (snd (httpDo env ''POST'' (cart_url cfg uid @ ''/checkout'') b w)) v \<le> cart w v)
   \<and> (\<forall>uid \<in> set (userIDs cfg). \<forall>b w resp. fst (httpDo env ''POST'' (cart_url cfg uid @ ''/checkout'') b w) = Inr resp \<longrightarrow>
        hr_status resp < 400 \<longrightarrow> cart (snd (httpDo env ''POST'' (cart_url cfg uid @ ''/checkout'') b w)) uid = 0)
   \<and> (\<forall>uid \<in> set (userIDs cfg). \<forall>b w v. cart (snd (httpDo env ''POST'' (cart_url cfg uid @ ''/items'') b w)) v
        \<le> cart w v + (if v = uid then 1 else 0))
   \<and> (\<forall>uid \<in> set (userIDs cfg). \<forall>i w v. cart (snd (httpDo env ''DELETE'' (cart_url cfg uid @ ''/items/'' @ i) None w)) v \<le> cart w v)"

lemma cart_serverD:
  assumes "cart_server env cfg cart"
  shows "\<And>n w. cart (snd (rndIntn env n w)) = cart w"
    and "\<And>n w. 0 < n \<Longrightarrow> 0 \<le> fst (rndIntn env n w) \<and> fst (rndIntn env n w) < n"
    and "\<And>uid w v. uid \<in> set (userIDs cfg) \<Longrightarrow> cart (snd (httpDo env ''GET'' (cart_url cfg uid) None w)) v = cart w v"
    and "\<And>uid w resp. uid \<in> set (userIDs cfg) \<Longrightarrow> fst (httpDo env ''GET'' (cart_url cfg uid) None w) = Inr resp \<Longrightarrow>
        hr_status resp < 400 \<Longrightarrow> \<exists>ids. decode_cart (hr_json resp) = Inr ids \<and> length ids = cart w uid"
    and "\<And>uid b w v. uid \<in> set (userIDs cfg) \<Longrightarrow> cart (snd (httpDo env ''POST'' (cart_url cfg uid @ ''/checkout'') b w)) v \<le> cart w v"
    and "\<And>uid b w resp. uid \<in> set (userIDs cfg) \<Longrightarrow> fst (httpDo env ''POST'' (cart_url cfg uid @ ''/checkout'') b w) = Inr resp \<Longrightarrow>
        hr_status resp < 400 \<Longrightarrow> cart (snd (httpDo env ''POST'' (cart_url cfg uid @ ''/checkout'') b w)) uid = 0"
    and "\<And>uid b w v. uid \<in> set (userIDs cfg) \<Longrightarrow> cart (snd (httpDo env ''POST'' (cart_url cfg uid @ ''/items'') b w)) v
        \<le> cart w v + (if v = uid then 1 else 0)"
    and "\<And>uid i w v. uid \<in> set (userIDs cfg) \<Longrightarrow> cart (snd (httpDo env ''DELETE'' (cart_url cfg uid @ ''/items/'' @ i) None w)) v \<le> cart w v"
  using assms unfolding cart_server_def by (elim conjE; simp)+

lemma random_user:
  assumes "cart_server env cfg cart" and "randomUserID env cfg w = (uid, w1)"
  shows "uid \<in> set (userIDs cfg)" and "cart w1 = cart w"
proof -
  have "userIDs cfg \<noteq> []" using assms(1) by (simp add: cart_server_def)
  then show "uid \<in> set (userIDs cfg)"
    using assms(2) cart_serverD(2) [OF assms(1), of "int (length (userIDs cfg))" w]
    by (auto simp: randomUserID_def split: prod.splits)
  show "cart w1 = cart w"
    using assms(2) cart_serverD(1) [OF assms(1), of "int (length (userIDs cfg))" w]
    by (auto simp: randomUserID_def split: prod.splits)
qed

lemma cartItems_size:
  assumes "cart_server env cfg cart" and "uid \<in> set (userIDs cfg)" and "cartItems env cfg uid w = (r, w1)"
  shows "cart w1 = cart w" and "r = Inr ids \<Longrightarrow> length ids = cart w uid"
proof -
  obtain x w2 where x: "httpDo env ''GET'' (cart_url cfg uid) None w = (x, w2)" by fastforce
  show "cart w1 = cart w"
    using assms(3) x cart_serverD(3) [OF assms(1,2), of w]
    by (auto simp: cartItems_def doGetBody_def fun_eq_iff split: sum.splits if_splits)
  show "length ids = cart w uid" if "r = Inr ids"
    using assms(3) x that cart_serverD(4) [OF assms(1,2), of w]
    by (auto simp: cartItems_def doGetBody_def split: sum.splits if_splits)
qed

lemma post_only_world: "snd (post_only env url b w) = snd (httpDo env ''POST'' url (Some b) w)"
  by (auto simp: post_only_def doPost_def split: prod.splits sum.splits)

lemma post_only_ok:
  "fst (post_only env url b w) = None \<Longrightarrow>
   \<exists>resp. fst (httpDo env ''POST'' url (Some b) w) = Inr resp \<and> hr_status resp < 400"
  by (auto simp: post_only_def doPost_def not_le split: prod.splits sum.splits if_splits)

lemma checkout_size:
  assumes "cart_server env cfg cart" and "uid \<in> set (userIDs cfg)" and "checkout env cfg uid w = (e, w1)"
  shows "cart w1 v \<le> cart w v" and "e = None \<Longrightarrow> cart w1 uid = 0"
proof -
  let ?b = "VMap [(''shipping_address'', VStr ''1 Test Street'')]"
  have eq: "post_only env (cart_url cfg uid @ ''/checkout'') ?b w = (e, w1)"
    using assms(3) by (simp add: checkout_def)
  have w1: "w1 = snd (httpDo env ''POST'' (cart_url cfg uid @ ''/checkout'') (Some ?b) w)"
    using post_only_world [of env "cart_url cfg uid @ ''/checkout''" ?b w] eq by simp
  show "cart w1 v \<le> cart w v" unfolding w1 by (rule cart_serverD(5) [OF assms(1,2)])
  show "cart w1 uid = 0" if "e = None"
    using post_only_ok [of env "cart_url cfg uid @ ''/checkout''" ?b w] eq that cart_serverD(6) [OF assms(1,2)]
    unfolding w1 by auto
qed

lemma add_item_size:
  assumes "cart_server env cfg cart" and "uid \<in> set (userIDs cfg)" and "add_item env cfg uid w = (e, w1)"
  shows "cart w1 v \<le> cart w v + (if v = uid then 1 else 0)"
proof -
  obtain i w2 q w3 p w4 n w5 where d: "rndIntn env 500000 w = (i, w2)" "rndIntn env 5 w2 = (q, w3)"
    "rndIntn env 10000 w3 = (p, w4)" "rndIntn env 500000 w4 = (n, w5)" by (metis surj_pair)
  have "cart w5 = cart w" using cart_serverD(1) [OF assms(1)] d by (metis snd_conv)
  moreover have "w1 = snd (httpDo env ''POST'' (cart_url cfg uid @ ''/items'') (Some (cart_item i q p n)) w5)"
    using assms(3) d post_only_world [of env "cart_url cfg uid @ ''/items''" "cart_item i q p n" w5]
    by (simp add: add_item_def)
  ultimately show ?thesis using cart_serverD(7) [OF assms(1,2)] by metis
qed

lemma doGet_world: "snd (doGet env url w) = snd (httpDo env ''GET'' url None w)"
  by (auto simp: doGet_def split: prod.splits sum.splits)

lemma doDelete_world: "snd (doDelete env url w) = snd (httpDo env ''DELETE'' url None w)"
  by (auto simp: doDelete_def split: prod.splits sum.splits)

lemma addToCart_size:
  assumes server: "cart_server env cfg cart"
  shows "cart (snd (addToCart env cfg w)) v \<le> max cartCheckoutAt (cart w v)"
proof -
  obtain uid w1 where uid: "randomUserID env cfg w = (uid, w1)" by fastforce
  obtain r w2 where items: "cartItems env cfg uid w1 = (r, w2)" by fastforce
  note user = random_user [OF server uid]
  note read = cartItems_size [OF server user(1) items]
  show ?thesis
  proof (cases r)
    case (Inl e)
    with uid items user(2) read(1) show ?thesis by (simp add: addToCart_def)
  next
    case (Inr ids)
    then have size: "length ids = cart w uid" using read(2) user(2) by simp
    obtain e w3 where out: "checkout env cfg uid w2 = (e, w3)" by fastforce
    note less = checkout_size [OF server user(1) out]
    have add: "cart (snd (add_item env cfg uid x)) v \<le> cart x v + (if v = uid then 1 else 0)" for x
      using add_item_size [OF server user(1), of x "fst (add_item env cfg uid x)"] by (metis prod.collapse)
    show ?thesis
    proof (cases "length ids \<ge> cartCheckoutAt")
      case True
      then have "addToCart env cfg w = (case e of Some err \<Rightarrow> (Some err, w3) | None \<Rightarrow> add_item env cfg uid w3)"
        using uid items Inr out by (simp add: addToCart_def split: option.splits)
      moreover have "cart w3 v \<le> cart w v" using less(1) [of v] read(1) user(2) by simp
      moreover have "cart (snd (add_item env cfg uid w3)) v \<le> max cartCheckoutAt (cart w v)" if "e = None"
        using add [of w3] less(2) [OF that] \<open>cart w3 v \<le> cart w v\<close>
        by (cases "v = uid") (auto simp: cartCheckoutAt_def)
      ultimately show ?thesis by (cases e) auto
    next
      case False
      then have "addToCart env cfg w = add_item env cfg uid w2"
        using uid items Inr by (simp add: addToCart_def)
      with add [of w2] False size read(1) user(2) show ?thesis by (auto split: if_splits)
    qed
  qed
qed

lemma cart_reads_shrink:
  assumes server: "cart_server env cfg cart"
  shows "cart (snd (getCart env cfg w)) v \<le> cart w v" and "cart (snd (removeFromCart env cfg w)) v \<le> cart w v"
    and "cart (snd (checkoutCart env cfg w)) v \<le> cart w v"
proof -
  obtain uid w1 where uid: "randomUserID env cfg w = (uid, w1)" by fastforce
  obtain r w2 where items: "cartItems env cfg uid w1 = (r, w2)" by fastforce
  note user = random_user [OF server uid]
  have same: "cart w2 = cart w" using cartItems_size(1) [OF server user(1) items] user(2) by simp
  show "cart (snd (getCart env cfg w)) v \<le> cart w v"
    using uid user cart_serverD(3) [OF server user(1)] by (simp add: getCart_def doGet_world)
  show "cart (snd (removeFromCart env cfg w)) v \<le> cart w v"
    using uid items same cart_serverD(8) [OF server user(1)] cart_serverD(1) [OF server]
    by (auto simp: removeFromCart_def doDelete_world split: sum.splits prod.splits) (metis snd_conv)
  show "cart (snd (checkoutCart env cfg w)) v \<le> cart w v"
    using uid items same checkout_size(1) [OF server user(1)]
    by (auto simp: checkoutCart_def split: sum.splits) (metis prod.collapse)
qed

text \<open>The cart scenarios, one after the other.\<close>

definition cart_scenarios :: "'w lg_env \<Rightarrow> lg_config \<Rightarrow> ('w \<Rightarrow> go_error option \<times> 'w) list" where
  "cart_scenarios env cfg = [getCart env cfg, addToCart env cfg, removeFromCart env cfg, checkoutCart env cfg]"

text \<open>
  C35. The generator keeps the carts small. Against a cart service that keeps its promises, however
  the requests fail, any sequence of the cart scenarios leaves each cart with at most twenty items,
  or with no more than it had before when that was more: adding to a cart of twenty checks out
  first, and gives up when the checkout fails. So the carts never reach the service's limit of a
  hundred items.
\<close>

theorem carts_stay_small:
  assumes "cart_server env cfg cart" and "\<And>f. f \<in> set fs \<Longrightarrow> f \<in> set (cart_scenarios env cfg)"
  shows "cart (fold (\<lambda>f w. snd (f w)) fs w) v \<le> max cartCheckoutAt (cart w v)"
  using assms(2)
proof (induction fs arbitrary: w)
  case (Cons f fs)
  have "f \<in> set (cart_scenarios env cfg)" using Cons.prems by simp
  then have "cart (snd (f w)) v \<le> max cartCheckoutAt (cart w v)"
    using cart_reads_shrink [OF assms(1), of w v] addToCart_size [OF assms(1), of w v]
    by (auto simp: cart_scenarios_def)
  moreover have "cart (fold (\<lambda>f w. snd (f w)) fs (snd (f w))) v \<le> max cartCheckoutAt (cart (snd (f w)) v)"
    using Cons.prems by (intro Cons.IH) simp
  ultimately show ?case by simp
qed simp

text \<open>A cart service for one user: its size is the world.\<close>

definition cart_reply :: "nat \<Rightarrow> go_error + http_response" where
  "cart_reply n = Inr \<lparr>hr_status = 200, hr_text = [],
     hr_json = Raw (JObj [(''items'', JArr (replicate n (JObj [(''product_id'', JStr ''7'')])))])\<rparr>"

definition one_user :: lg_config where
  "one_user = \<lparr>gatewayURL = ''g'', rpsPerSvc = 20, rpsOverrides = Map.empty, userIDs = [''u'']\<rparr>"

definition cart_env :: "nat lg_env" where
  "cart_env = \<lparr>rndIntn = (\<lambda>n w. (0, w)),
     httpDo = (\<lambda>m url b w.
       if m = ''GET'' then (cart_reply w, w)
       else if m = ''DELETE'' then (cart_reply 0, w - 1)
       else if url = cart_url one_user ''u'' @ ''/checkout'' then (cart_reply 0, 0)
       else (cart_reply 0, w + 1)),
     timeNow = (\<lambda>w. 0), sleepFor = (\<lambda>d w. w)\<rparr>"

lemma decode_cart_reply: "decode_cart (Raw (JObj [(''items'', JArr (replicate n (JObj [(''product_id'', JStr ''7'')])))]))
    = Inr (replicate n ''7'')"
proof -
  have "product_ids (replicate n (JObj [(''product_id'', JStr ''7'')])) = Inr (replicate n ''7'')"
    by (induction n) (simp_all add: asObj_def strField_def)
  then show ?thesis by (simp add: decode_cart_def asObj_def arrField_def)
qed

theorem carts_stay_small_witness:
  "fold (\<lambda>f w. snd (f w)) (replicate 50 (addToCart cart_env one_user)) 3 \<le> (20 :: nat)"
proof -
  have "cart_server cart_env one_user (\<lambda>w v. if v = ''u'' then w else 0)"
    by (simp add: cart_server_def cart_env_def one_user_def cart_reply_def decode_cart_reply fun_eq_iff)
  from carts_stay_small [OF this, where fs = "replicate 50 (addToCart cart_env one_user)" and w = 3 and v = "''u''"]
  show ?thesis by (simp add: cart_scenarios_def cartCheckoutAt_def)
qed

end
