(* ===== verification/LoadRun.thy ===== *)
theory LoadRun
  imports LoadProps Complex_Main
begin

text \<open>
  The load generator as a whole (services/load-generator/main.go): the goroutines of all services with the
  counters they share, and the reporter of the statistics, in any interleaving. A step of a service is
  a step of its pool (LoadPool) on its own queue and workers and the shared counters and world.
\<close>

section \<open>The state\<close>

record 'w service_run =
  sr_plan :: load_plan
  sr_scenarios :: "'w scenario list"
  sr_queue :: "'w scenario list"
  sr_busy :: "'w scenario option list"

text \<open>
  The counters of the package; the requests that the reporter has read when it is about to read the errors;
  and the lines it has written, each with the requests and the errors it read.
\<close>

record 'w load_run =
  lr_services :: "'w service_run list"
  lr_reqs :: nat
  lr_errs :: nat
  lr_world :: 'w
  lr_read :: "nat option"
  lr_stats :: "(nat \<times> nat) list"

text \<open>The rate of a line, in percent.\<close>

definition error_rate_pct :: "nat \<times> nat \<Rightarrow> rat" where
  "error_rate_pct line = of_nat (snd line) / of_nat (fst line + 1) * 100"

definition start_service :: "lg_config \<Rightarrow> 'w service_scenarios \<Rightarrow> 'w service_run option" where
  "start_service cfg svc =
     (case load_plan_of (rpsFor cfg (ss_name svc)) of
        None \<Rightarrow> None
      | Some plan \<Rightarrow>
          Some \<lparr>sr_plan = plan, sr_scenarios = ss_scenarios svc, sr_queue = [],
            sr_busy = replicate (nat (lp_workers plan)) None\<rparr>)"

text \<open>\<^verbatim>\<open>None\<close>: a service whose rate has no plan takes the process down.\<close>

definition run_start :: "'w lg_env \<Rightarrow> lg_config \<Rightarrow> 'w \<Rightarrow> 'w load_run option" where
  "run_start env cfg w =
     (case those (map (start_service cfg) (allServices env cfg)) of
        None \<Rightarrow> None
      | Some srs \<Rightarrow> Some \<lparr>lr_services = srs, lr_reqs = 0, lr_errs = 0, lr_world = w, lr_read = None, lr_stats = []\<rparr>)"

section \<open>The steps\<close>

definition pool_of :: "'w load_run \<Rightarrow> 'w service_run \<Rightarrow> 'w load_state" where
  "pool_of st sr = \<lparr>ld_queue = sr_queue sr, ld_busy = sr_busy sr, ld_reqs = lr_reqs st, ld_errs = lr_errs st,
     ld_world = lr_world st\<rparr>"

definition with_pool :: "nat \<Rightarrow> 'w load_state \<Rightarrow> 'w load_run \<Rightarrow> 'w load_run" where
  "with_pool i ld st =
     st\<lparr>lr_services := (lr_services st)[i := (lr_services st ! i)\<lparr>sr_queue := ld_queue ld, sr_busy := ld_busy ld\<rparr>],
        lr_reqs := ld_reqs ld, lr_errs := ld_errs ld, lr_world := ld_world ld\<rparr>"

text \<open>The reporter: it loads the requests, and later the errors, and writes its line.\<close>

definition report_reqs :: "'w load_run \<Rightarrow> 'w load_run option" where
  "report_reqs st = (case lr_read st of None \<Rightarrow> Some (st\<lparr>lr_read := Some (lr_reqs st)\<rparr>) | Some n \<Rightarrow> None)"

definition report_errs :: "'w load_run \<Rightarrow> 'w load_run option" where
  "report_errs st =
     (case lr_read st of
        None \<Rightarrow> None
      | Some n \<Rightarrow> Some (st\<lparr>lr_read := None, lr_stats := lr_stats st @ [(n, lr_errs st)]\<rparr>))"

inductive run_step :: "'w lg_env \<Rightarrow> 'w load_run \<Rightarrow> 'w load_run \<Rightarrow> bool" for env where
  serves: "i < length (lr_services st) \<Longrightarrow>
    load_step env (sr_plan (lr_services st ! i)) (sr_scenarios (lr_services st ! i)) (pool_of st (lr_services st ! i)) ld \<Longrightarrow>
    run_step env st (with_pool i ld st)"
| reads: "report_reqs st = Some st' \<Longrightarrow> run_step env st st'"
| writes: "report_errs st = Some st' \<Longrightarrow> run_step env st st'"

inductive run_reachable :: "'w lg_env \<Rightarrow> lg_config \<Rightarrow> 'w \<Rightarrow> 'w load_run \<Rightarrow> bool" for env cfg w where
  run_init: "run_start env cfg w = Some st \<Longrightarrow> run_reachable env cfg w st"
| run_next: "run_reachable env cfg w st \<Longrightarrow> run_step env st st' \<Longrightarrow> run_reachable env cfg w st'"

section \<open>The invariant\<close>

definition at_work :: "'w service_run \<Rightarrow> nat" where
  "at_work sr = length (filter (\<lambda>x. \<not> Option.is_none x) (sr_busy sr))"

definition service_ok :: "'w service_run \<Rightarrow> bool" where
  "service_ok sr \<longleftrightarrow> int (length (sr_queue sr)) \<le> lp_workers (sr_plan sr)
     \<and> int (length (sr_busy sr)) = lp_workers (sr_plan sr)"

definition all_at_work :: "'w load_run \<Rightarrow> nat" where
  "all_at_work st = sum_list (map at_work (lr_services st))"

definition run_inv :: "'w load_run \<Rightarrow> bool" where
  "run_inv st \<longleftrightarrow> list_all service_ok (lr_services st) \<and> lr_errs st + all_at_work st \<le> lr_reqs st"

text \<open>The counters only grow, and the lines follow them.\<close>

definition stats_inv :: "'w load_run \<Rightarrow> bool" where
  "stats_inv st \<longleftrightarrow>
     (let upto = (case lr_read st of None \<Rightarrow> lr_reqs st | Some n \<Rightarrow> n) in
      upto \<le> lr_reqs st \<and> sorted (map fst (lr_stats st) @ [upto]) \<and> sorted (map snd (lr_stats st) @ [lr_errs st]))"

text \<open>A step of one pool, for the others a frame: it conserves what is neither failed nor at work.\<close>

definition pool_moves :: "load_plan \<Rightarrow> 'w load_state \<Rightarrow> 'w load_state \<Rightarrow> bool" where
  "pool_moves plan ld ld' \<longleftrightarrow> ld_reqs ld \<le> ld_reqs ld' \<and> ld_errs ld \<le> ld_errs ld'
     \<and> (ld_errs ld' - ld_errs ld) + busy ld' \<le> (ld_reqs ld' - ld_reqs ld) + busy ld
     \<and> (int (length (ld_queue ld)) \<le> lp_workers plan \<longrightarrow> int (length (ld_queue ld')) \<le> lp_workers plan)
     \<and> length (ld_busy ld') = length (ld_busy ld)"

lemma load_step_moves: "load_step env plan scs ld ld' \<Longrightarrow> pool_moves plan ld ld'"
proof (induction rule: load_step.induct)
  case (ticks st st')
  then show ?case by (auto simp: tick_def pool_moves_def busy_def split: option.splits prod.splits if_splits)
next
  case (takes i st st')
  then show ?case
    by (auto simp: take_work_def pool_moves_def busy_def busy_update split: list.splits if_splits)
next
  case (finishes i st st')
  then show ?case
    using busy_done [of i "ld_busy st"]
    by (auto simp: finish_work_def pool_moves_def busy_def split: option.splits prod.splits if_splits)
qed

lemma pool_simps [simp]:
  "ld_reqs (pool_of st sr) = lr_reqs st" "ld_errs (pool_of st sr) = lr_errs st"
  "lr_reqs (with_pool i ld st) = ld_reqs ld" "lr_errs (with_pool i ld st) = ld_errs ld"
  by (simp_all add: pool_of_def with_pool_def)

lemma busy_pool [simp]: "busy (pool_of st sr) = at_work sr"
  by (simp add: busy_def pool_of_def at_work_def)

lemma at_work_with [simp]: "at_work (sr\<lparr>sr_queue := ld_queue ld, sr_busy := ld_busy ld\<rparr>) = busy ld"
  by (simp add: busy_def at_work_def)

lemma all_at_work_update:
  assumes "i < length (lr_services st)"
  shows "all_at_work (with_pool i ld st) + at_work (lr_services st ! i) = all_at_work st + busy ld"
proof -
  let ?xs = "lr_services st"
  have xs: "?xs = take i ?xs @ ?xs ! i # drop (Suc i) ?xs" by (rule id_take_nth_drop [OF assms])
  have "all_at_work (with_pool i ld st) = sum_list (map at_work (take i ?xs)) + busy ld + sum_list (map at_work (drop (Suc i) ?xs))"
    using assms by (simp add: all_at_work_def with_pool_def upd_conv_take_nth_drop)
  moreover have "all_at_work st = sum_list (map at_work (take i ?xs)) + at_work (?xs ! i) + sum_list (map at_work (drop (Suc i) ?xs))"
    unfolding all_at_work_def by (subst xs) simp
  ultimately show ?thesis by simp
qed

lemma run_step_inv:
  assumes "run_step env st st'" and "run_inv st" and "stats_inv st"
  shows "run_inv st' \<and> stats_inv st'"
  using assms
proof (induction rule: run_step.induct)
  case (serves i st ld)
  let ?sr = "lr_services st ! i"
  have moves: "pool_moves (sr_plan ?sr) (pool_of st ?sr) ld" by (rule load_step_moves [OF serves.hyps(2)])
  have ok: "service_ok ?sr" using serves.prems(1) serves.hyps(1) by (simp add: run_inv_def list_all_length)
  from moves ok have "service_ok (?sr\<lparr>sr_queue := ld_queue ld, sr_busy := ld_busy ld\<rparr>)"
    by (simp add: pool_moves_def pool_of_def service_ok_def)
  then have "list_all service_ok (lr_services (with_pool i ld st))"
    using serves.prems(1) serves.hyps(1) by (auto simp: run_inv_def with_pool_def list_all_length nth_list_update)
  moreover have "lr_errs (with_pool i ld st) + all_at_work (with_pool i ld st) \<le> lr_reqs (with_pool i ld st)"
    using all_at_work_update [OF serves.hyps(1), of ld] moves serves.prems(1)
    by (auto simp: pool_moves_def run_inv_def)
  moreover have "stats_inv (with_pool i ld st)"
    using moves serves.prems(2)
    by (auto simp: pool_moves_def stats_inv_def with_pool_def pool_of_def sorted_append Let_def split: option.splits)
  ultimately show ?case by (simp add: run_inv_def)
next
  case (reads st st')
  then show ?case
    by (auto simp: report_reqs_def run_inv_def all_at_work_def stats_inv_def Let_def split: option.splits)
next
  case (writes st st')
  then show ?case
    by (fastforce simp: report_errs_def run_inv_def all_at_work_def stats_inv_def Let_def sorted_append split: option.splits)
qed

text \<open>The plans are those of the configured rates.\<close>

definition plans_ok :: "'w lg_env \<Rightarrow> lg_config \<Rightarrow> 'w load_run \<Rightarrow> bool" where
  "plans_ok env cfg st \<longleftrightarrow>
     map (\<lambda>svc. load_plan_of (rpsFor cfg (ss_name svc))) (allServices env cfg) = map (Some \<circ> sr_plan) (lr_services st)"

lemma those_Some: "those xs = Some ys \<longleftrightarrow> xs = map Some ys"
  by (induction xs arbitrary: ys) (auto split: option.splits)

lemma run_start_inv:
  assumes "run_start env cfg w = Some st"
  shows "run_inv st \<and> stats_inv st \<and> plans_ok env cfg st"
proof -
  obtain srs where srs: "map (start_service cfg) (allServices env cfg) = map Some srs"
    and st: "st = \<lparr>lr_services = srs, lr_reqs = 0, lr_errs = 0, lr_world = w, lr_read = None, lr_stats = []\<rparr>"
    using assms by (auto simp: run_start_def those_Some split: option.splits)
  have new: "service_ok sr \<and> at_work sr = 0 \<and> load_plan_of (rpsFor cfg (ss_name svc)) = Some (sr_plan sr)"
    if "start_service cfg svc = Some sr" for svc sr
    using that by (auto simp: start_service_def service_ok_def at_work_def load_plan_some(3) split: option.splits)
  have nth: "start_service cfg (allServices env cfg ! i) = Some (srs ! i)" if "i < length srs" for i
    using that srs by (metis length_map nth_map)
  have len: "length (allServices env cfg) = length srs" using srs by (metis length_map)
  have "plans_ok env cfg st"
    unfolding plans_ok_def st using len new [OF nth] by (auto intro!: nth_equalityI)
  moreover have "list_all service_ok srs" using new [OF nth] by (simp add: list_all_length)
  moreover have "sum_list (map at_work srs) = 0" using new [OF nth] by (auto simp: in_set_conv_nth)
  ultimately show ?thesis by (simp add: st run_inv_def stats_inv_def all_at_work_def)
qed

lemma run_step_plans: "run_step env st st' \<Longrightarrow> map sr_plan (lr_services st') = map sr_plan (lr_services st)"
  by (induction rule: run_step.induct)
     (auto simp: with_pool_def report_reqs_def report_errs_def map_update split: option.splits
       intro!: list_update_same_conv [THEN iffD2])

lemma run_reachable_inv: "run_reachable env cfg w st \<Longrightarrow> run_inv st \<and> stats_inv st \<and> plans_ok env cfg st"
proof (induction rule: run_reachable.induct)
  case (run_init st)
  then show ?case by (rule run_start_inv)
next
  case (run_next st st')
  then have "map (Some \<circ> sr_plan) (lr_services st') = map (Some \<circ> sr_plan) (lr_services st)"
    using run_step_plans [OF run_next.hyps(2)] by (simp flip: map_map)
  with run_next run_step_inv [OF run_next.hyps(2)] show ?case by (simp add: plans_ok_def)
qed

section \<open>The property\<close>

text \<open>
  C26. Backpressure, for the whole program. In every interleaving of the tickers and workers of all services
  and the reporter, the queue of each service holds, and its workers are at, at most as many requests as twice
  its rate, or ten, so that no tick blocks and memory stays bounded; every request counted is finished
  or at work, so that the errors and the requests at work of all services together are at most the
  requests; and the lines of the statistics never go back: the requests and the errors of a line are at
  least those of the lines before, and at most those counted now.
\<close>

theorem run_stays_bounded:
  assumes "run_reachable env cfg w st"
  shows "length (lr_services st) = length (allServices env cfg)
    \<and> (\<forall>i < length (lr_services st). let rps = rpsFor cfg (ss_name (allServices env cfg ! i)) in
         int (length (sr_queue (lr_services st ! i))) \<le> max 10 (2 * rps)
         \<and> int (at_work (lr_services st ! i)) \<le> max 10 (2 * rps))
    \<and> lr_errs st + all_at_work st \<le> lr_reqs st
    \<and> sorted (map fst (lr_stats st) @ [lr_reqs st]) \<and> sorted (map snd (lr_stats st) @ [lr_errs st])"
proof -
  note inv = run_reachable_inv [OF assms]
  let ?srs = "lr_services st" and ?svcs = "allServices env cfg"
  have len: "length ?srs = length ?svcs" using inv unfolding plans_ok_def by (metis length_map)
  have "int (length (sr_queue (?srs ! i))) \<le> max 10 (2 * rpsFor cfg (ss_name (?svcs ! i)))
      \<and> int (at_work (?srs ! i)) \<le> max 10 (2 * rpsFor cfg (ss_name (?svcs ! i)))" if i: "i < length ?srs" for i
  proof -
    have "map (\<lambda>svc. load_plan_of (rpsFor cfg (ss_name svc))) ?svcs ! i = map (Some \<circ> sr_plan) ?srs ! i"
      using inv by (simp add: plans_ok_def)
    then have "load_plan_of (rpsFor cfg (ss_name (?svcs ! i))) = Some (sr_plan (?srs ! i))" using i len by simp
    from load_plan_some(3) [OF this] have "lp_workers (sr_plan (?srs ! i)) = max 10 (2 * rpsFor cfg (ss_name (?svcs ! i)))" .
    moreover have "service_ok (?srs ! i)" using inv i by (simp add: run_inv_def list_all_length)
    moreover have "at_work (?srs ! i) \<le> length (sr_busy (?srs ! i))" by (simp add: at_work_def)
    ultimately show ?thesis by (simp add: service_ok_def)
  qed
  moreover have "sorted (map fst (lr_stats st) @ [lr_reqs st]) \<and> sorted (map snd (lr_stats st) @ [lr_errs st])"
    using inv by (auto simp: stats_inv_def Let_def sorted_append split: option.splits)
  ultimately show ?thesis using inv len by (simp add: run_inv_def Let_def)
qed

text \<open>One request per second to every service, of a gateway that is down.\<close>

definition slow_cfg :: lg_config where
  "slow_cfg = \<lparr>gatewayURL = ''http://gw'', rpsPerSvc = 1, rpsOverrides = Map.empty, userIDs = [''user-0'']\<rparr>"

definition down_env :: "int lg_env" where
  "down_env = (still_env JNull)\<lparr>httpDo := (\<lambda>m url b w. (Inl (errorf ''refused''), w))\<rparr>"

definition slow_start :: "int load_run" where
  "slow_start = \<lparr>lr_services = map (\<lambda>svc. \<lparr>sr_plan = \<lparr>lp_interval = second, lp_workers = 10\<rparr>,
       sr_scenarios = ss_scenarios svc, sr_queue = [], sr_busy = replicate 10 None\<rparr>) (allServices down_env slow_cfg),
     lr_reqs = 0, lr_errs = 0, lr_world = 0, lr_read = None, lr_stats = []\<rparr>"

lemma slow_start: "run_start down_env slow_cfg 0 = Some slow_start"
proof -
  have "load_plan_of 1 = Some \<lparr>lp_interval = second, lp_workers = 10\<rparr>"
    by (simp add: load_plan_of_def go_div_def second_def int64_ok_def)
  then have "start_service slow_cfg svc = Some \<lparr>sr_plan = \<lparr>lp_interval = second, lp_workers = 10\<rparr>,
      sr_scenarios = ss_scenarios svc, sr_queue = [], sr_busy = replicate 10 None\<rparr>" for svc :: "int service_scenarios"
    by (simp add: start_service_def rpsFor_def slow_cfg_def)
  then have "those (map (start_service slow_cfg) (allServices down_env slow_cfg)) = Some (lr_services slow_start)"
    by (simp add: those_Some slow_start_def)
  then show ?thesis by (simp add: run_start_def) (simp add: slow_start_def)
qed

text \<open>
  The reporter loads the requests; then the catalog's ticker ticks, a worker takes the request and fails,
  three times over; then it loads the errors and writes.
\<close>

definition one_failure :: "int load_run \<Rightarrow> int load_run option" where
  "one_failure st =
     (let sr = lr_services st ! 0 in
      Option.bind (tick down_env (sr_plan sr) (sr_scenarios sr) (pool_of st sr)) (\<lambda>ld.
      Option.bind (take_work 0 ld) (\<lambda>ld.
      Option.bind (finish_work 0 ld) (\<lambda>ld. Some (with_pool 0 ld st)))))"

lemma with_pool_again:
  "i < length (lr_services st) \<Longrightarrow> pool_of (with_pool i ld st) (lr_services (with_pool i ld st) ! i) = ld"
  "i < length (lr_services st) \<Longrightarrow> with_pool i ld' (with_pool i ld st) = with_pool i ld' st"
  "i < length (lr_services st) \<Longrightarrow> sr_plan (lr_services (with_pool i ld st) ! i) = sr_plan (lr_services st ! i)"
  "i < length (lr_services st) \<Longrightarrow> sr_scenarios (lr_services (with_pool i ld st) ! i) = sr_scenarios (lr_services st ! i)"
  "length (lr_services (with_pool i ld st)) = length (lr_services st)"
  by (simp_all add: with_pool_def pool_of_def)

lemma serves_again:
  assumes "i < length (lr_services st)"
    and "load_step env (sr_plan (lr_services st ! i)) (sr_scenarios (lr_services st ! i)) ld ld'"
  shows "run_step env (with_pool i ld st) (with_pool i ld' st)"
  using serves [of i "with_pool i ld st" env ld'] assms by (simp add: with_pool_again)

lemma one_failure_reachable:
  assumes "run_reachable down_env cfg w st" and "0 < length (lr_services st)" and "one_failure st = Some st'"
  shows "run_reachable down_env cfg w st'"
proof -
  let ?sr = "lr_services st ! 0"
  obtain ld1 ld2 ld3 where steps: "tick down_env (sr_plan ?sr) (sr_scenarios ?sr) (pool_of st ?sr) = Some ld1"
    "take_work 0 ld1 = Some ld2" "finish_work 0 ld2 = Some ld3" "st' = with_pool 0 ld3 st"
    using assms(3) by (auto simp: one_failure_def Let_def bind_eq_Some_conv)
  have "run_reachable down_env cfg w (with_pool 0 ld1 st)"
    by (rule run_next [OF assms(1) serves [OF assms(2) ticks [OF steps(1)]]])
  then have "run_reachable down_env cfg w (with_pool 0 ld2 st)"
    by (rule run_next [OF _ serves_again [OF assms(2) takes [OF steps(2)]]])
  then have "run_reachable down_env cfg w (with_pool 0 ld3 st)"
    by (rule run_next [OF _ serves_again [OF assms(2) finishes [OF steps(3)]]])
  then show ?thesis by (simp add: steps(4))
qed

lemma three_failures:
  "case Option.bind (Option.bind (Option.bind (Option.bind (report_reqs slow_start) one_failure) one_failure) one_failure)
       report_errs of
     None \<Rightarrow> False
   | Some st \<Rightarrow> lr_stats st = [(0, 3)] \<and> lr_reqs st = 3 \<and> lr_errs st = 3"
  by code_simp

lemma failures_reachable:
  "\<exists>st. run_reachable down_env slow_cfg 0 st \<and> lr_stats st = [(0, 3)] \<and> lr_reqs st = 3 \<and> lr_errs st = 3"
proof -
  have step: "run_reachable down_env slow_cfg 0 st' \<and> 0 < length (lr_services st')"
    if "run_reachable down_env slow_cfg 0 st \<and> 0 < length (lr_services st)" "one_failure st = Some st'" for st st'
    using that one_failure_reachable [of slow_cfg 0 st st']
    by (auto simp: one_failure_def Let_def bind_eq_Some_conv with_pool_def)
  obtain st1 st2 st3 st4 st where run: "report_reqs slow_start = Some st1" "one_failure st1 = Some st2"
    "one_failure st2 = Some st3" "one_failure st3 = Some st4" "report_errs st4 = Some st"
    and st: "lr_stats st = [(0, 3)]" "lr_reqs st = 3" "lr_errs st = 3"
    using three_failures by (auto simp: bind_eq_Some_conv split: option.splits)
  have "run_reachable down_env slow_cfg 0 st1" by (rule run_next [OF run_init [OF slow_start] reads [OF run(1)]])
  moreover have "0 < length (lr_services st1)"
    using run(1) by (auto simp: report_reqs_def slow_start_def allServices_def split: option.splits)
  ultimately have "run_reachable down_env slow_cfg 0 st4" using step [OF step [OF step]] run(2-4) by blast
  then have "run_reachable down_env slow_cfg 0 st" by (rule run_next [OF _ writes [OF run(5)]])
  with st show ?thesis by blast
qed

theorem run_stays_bounded_witness:
  "\<exists>st. run_reachable down_env slow_cfg 0 st \<and> lr_stats st = [(0, 3)] \<and> 3 + all_at_work st \<le> lr_reqs st \<and> int (length (sr_queue (lr_services st ! 6))) \<le> 10"
proof -
  obtain st where st: "run_reachable down_env slow_cfg 0 st" "lr_stats st = [(0, 3)]" "lr_errs st = 3"
    using failures_reachable by blast
  from run_stays_bounded [OF st(1)] have "length (lr_services st) = 7" "lr_errs st + all_at_work st \<le> lr_reqs st"
    and "\<forall>i < length (lr_services st). int (length (sr_queue (lr_services st ! i))) \<le> max 10 (2 * rpsFor slow_cfg (ss_name (allServices down_env slow_cfg ! i)))"
    by (simp_all add: Let_def allServices_def)
  moreover have "rpsFor slow_cfg n = 1" for n by (simp add: rpsFor_def slow_cfg_def)
  ultimately have "3 + all_at_work st \<le> lr_reqs st" "int (length (sr_queue (lr_services st ! 6))) \<le> 10"
    using st(3) by simp_all
  with st show ?thesis by blast
qed

text \<open>
  The reporter reads the requests first and the errors later, so that errors of requests that it has not counted
  are in its line: a reported error rate may be more than a hundred percent.
\<close>

theorem rate_over_hundred:
  "\<exists>st. run_reachable down_env slow_cfg 0 st \<and> error_rate_pct (last (lr_stats st)) = 300"
  using failures_reachable by (auto simp: error_rate_pct_def)

end
