(* ===== verification/Services.thy ===== *)
theory Services
  imports Json Durations
begin

text \<open>
  What the Go services of the shop share: waiting for a backend at startup, the request and the
  response of an HTTP handler, integers of a query, and the RFC 3339 text of times in JSON.
\<close>

section \<open>Startup\<close>

text \<open>At most \<open>n\<close> pings, a pause after each that fails; the last error, if all did.\<close>

fun wait_ready :: "('w \<Rightarrow> go_error option \<times> 'w) \<Rightarrow> ('w \<Rightarrow> 'w) \<Rightarrow> nat \<Rightarrow> go_error option \<Rightarrow> 'w \<Rightarrow> go_error option \<times> 'w" where
  "wait_ready ping pause 0 err w = (err, w)"
| "wait_ready ping pause (Suc n) err w =
     (case ping w of
        (None, w1) \<Rightarrow> (None, w1)
      | (Some e, w1) \<Rightarrow> wait_ready ping pause n (Some e) (pause w1))"

section \<open>Handlers\<close>

text \<open>
  A request: its method, its path, the first value of each key of its query, and its body, which is
  what the first value of the body decodes to. A response: a status with a JSON document, or with
  plain text (\<^verbatim>\<open>http.Error\<close>).
\<close>

record http_request =
  rq_method :: string
  rq_path :: string
  rq_query :: "string \<rightharpoonup> string"
  rq_body :: raw_json

datatype http_answer = JsonAnswer int json | TextAnswer int string | Moved string

fun answer_status :: "http_answer \<Rightarrow> int" where
  "answer_status (JsonAnswer s j) = s"
| "answer_status (TextAnswer s t) = s"
| "answer_status (Moved path) = 301"

text \<open>
  \<^verbatim>\<open>http.ServeMux\<close> on patterns that are paths, and prefixes if they end in a slash: the longest
  pattern that matches; a path without a final slash that no pattern equals is moved to the pattern
  that has one. Paths are taken to be clean.
\<close>

definition ends_in_slash :: "string \<Rightarrow> bool" where
  "ends_in_slash s \<longleftrightarrow> s \<noteq> [] \<and> last s = CHR ''/''"

definition pattern_matches :: "string \<Rightarrow> string \<Rightarrow> bool" where
  "pattern_matches pat path \<longleftrightarrow> pat = path \<or> ends_in_slash pat \<and> take (length pat) path = pat"

fun longest_match :: "(string \<times> 'h) list \<Rightarrow> string \<Rightarrow> (string \<times> 'h) option" where
  "longest_match [] path = None"
| "longest_match ((pat, h) # routes) path =
     (case longest_match routes path of
        None \<Rightarrow> if pattern_matches pat path then Some (pat, h) else None
      | Some (pat', h') \<Rightarrow>
          if pattern_matches pat path \<and> length pat' < length pat then Some (pat, h) else Some (pat', h'))"

datatype 'h route = Serve 'h | Redirect string | NoRoute

definition mux :: "(string \<times> 'h) list \<Rightarrow> string \<Rightarrow> 'h route" where
  "mux routes path =
     (case longest_match routes path of
        None \<Rightarrow> if path @ ''/'' \<in> fst ` set routes then Redirect (path @ ''/'') else NoRoute
      | Some (pat, h) \<Rightarrow>
          if pat \<noteq> path \<and> \<not> ends_in_slash path \<and> path @ ''/'' \<in> fst ` set routes then Redirect (path @ ''/'')
          else Serve h)"

text \<open>
  \<^verbatim>\<open>n, _ := strconv.Atoi(s)\<close>: 0 for a text that is not a number, and the nearest end of the range
  for a number out of it.
\<close>

definition clamp64 :: "int \<Rightarrow> int" where
  "clamp64 i = (if i < - (2 ^ 63) then - (2 ^ 63) else if i \<ge> 2 ^ 63 then 2 ^ 63 - 1 else i)"

definition atoi_value :: "string \<Rightarrow> int" where
  "atoi_value s =
     (case s of
        [] \<Rightarrow> 0
      | c # cs \<Rightarrow>
          (if c = CHR ''-'' then (case parse_digits cs of None \<Rightarrow> 0 | Some n \<Rightarrow> clamp64 (- int n))
           else (case parse_digits (if c = CHR ''+'' then cs else s) of None \<Rightarrow> 0 | Some n \<Rightarrow> clamp64 (int n))))"

lemma atoi_value_of: "atoi s = Some i \<Longrightarrow> atoi_value s = i"
  by (auto simp: atoi_def atoi_value_def in_int64_def int64_ok_def clamp64_def bind_eq_Some_conv
      split: list.splits if_splits)

lemma atoi_value_ok: "int64_ok (atoi_value s)"
  by (auto simp: atoi_value_def clamp64_def int64_ok_def split: list.split option.split)

lemma atoi_value_show_int [simp]: "int64_ok i \<Longrightarrow> atoi_value (show_int i) = i"
  by (rule atoi_value_of) (rule atoi_show_int)

section \<open>Times in JSON\<close>

text \<open>\<^verbatim>\<open>time.Time\<close>, in nanoseconds since 1970 in UTC, as its marshaller writes it (RFC3339Nano).\<close>

definition rfc3339Nano :: "int \<Rightarrow> string" where
  "rfc3339Nano t = butlast (rfc3339 t) @ fmtFrac 9 (nat (t mod second)) @ ''Z''"

text \<open>The number that two digits write.\<close>

definition num2 :: "char \<Rightarrow> char \<Rightarrow> nat option" where
  "num2 a b = parse_digits [a, b]"

definition days_in :: "nat \<Rightarrow> nat \<Rightarrow> nat" where
  "days_in y m =
     (if m = 2 then (if 4 dvd y \<and> (\<not> 100 dvd y \<or> 400 dvd y) then 29 else 28)
      else if m \<in> {4, 6, 9, 11} then 30 else 31)"

text \<open>A fraction (a point and at least one digit) dropped.\<close>

definition drop_fraction :: "string \<Rightarrow> string option" where
  "drop_fraction s =
     (case s of
        [] \<Rightarrow> Some []
      | c # cs \<Rightarrow>
          if c \<noteq> CHR ''.'' then Some s
          else if takeWhile is_digit cs = [] then None
          else Some (dropWhile is_digit cs))"

definition zone_ok :: "string \<Rightarrow> bool" where
  "zone_ok s =
     (s = ''Z'' \<or>
      (case s of
         [sg, a, b, c, d, e] \<Rightarrow>
           (sg = CHR ''+'' \<or> sg = CHR ''-'') \<and> c = CHR '':''
           \<and> (case (num2 a b, num2 d e) of (Some h, Some m) \<Rightarrow> h < 24 \<and> m < 60 | _ \<Rightarrow> False)
       | _ \<Rightarrow> False))"

definition clock_ok :: "string \<Rightarrow> bool" where
  "clock_ok s =
     (case s of
        a # b # c # d # e # f # g # h # rest \<Rightarrow>
          c = CHR '':'' \<and> f = CHR '':''
          \<and> (case (num2 a b, num2 d e, num2 g h) of
               (Some hh, Some mm, Some ss) \<Rightarrow> hh < 24 \<and> mm < 60 \<and> ss < 60 | _ \<Rightarrow> False)
          \<and> (case drop_fraction rest of None \<Rightarrow> False | Some z \<Rightarrow> zone_ok z)
      | _ \<Rightarrow> False)"

text \<open>Whether \<^verbatim>\<open>Time.UnmarshalJSON\<close> accepts a text: a strict RFC 3339 time of an existing day.\<close>

definition rfc3339_ok :: "string \<Rightarrow> bool" where
  "rfc3339_ok s =
     (case s of
        a # b # c # d # e # f # g # h # i # j # k # rest \<Rightarrow>
          e = CHR ''-'' \<and> h = CHR ''-'' \<and> k = CHR ''T''
          \<and> (case (parse_digits [a, b, c, d], num2 f g, num2 i j) of
               (Some y, Some m, Some dd) \<Rightarrow> 1 \<le> m \<and> m \<le> 12 \<and> 1 \<le> dd \<and> dd \<le> days_in y m
             | _ \<Rightarrow> False)
          \<and> clock_ok rest
      | _ \<Rightarrow> False)"

text \<open>A time field that is read for its validity only.\<close>

definition time_field :: "(string \<rightharpoonup> json) \<Rightarrow> string \<Rightarrow> go_error + unit" where
  "time_field m k =
     (case m k of
        None \<Rightarrow> Inr () | Some JNull \<Rightarrow> Inr ()
      | Some (JStr s) \<Rightarrow> if rfc3339_ok s then Inr () else Inl (type_error k)
      | Some _ \<Rightarrow> Inl (type_error k))"

end
