(* ===== verification/Fulfillment.thy ===== *)
theory Fulfillment
  imports Services
begin

text \<open>
  The fulfillment service (services/fulfillment-service/main.go): it consumes order events, reserves
  the stock of each item, creates a shipment and publishes it. The database, Kafka, the HTTP client
  and the context are a record of functions over an arbitrary world. A record's value is what it
  decodes to; its prices and totals are decoded and not used. Logging, tracing and the timeouts of single calls are not modelled.
\<close>

definition maxAttempts :: int where "maxAttempts = 3"
definition retryBackoff :: int where "retryBackoff = 500 * millisecond"
definition erDupKeyName :: int where "erDupKeyName = 1061"

definition consumeTopic :: string where "consumeTopic = ''order-events''"
definition produceTopic :: string where "produceTopic = ''shipment-events''"
definition consumerGroup :: string where "consumerGroup = ''fulfillment''"

section \<open>Events\<close>

record order_item =
  oi_product_id :: int
  oi_quantity :: int

record order_event =
  oe_event_type :: string
  oe_order_id :: int
  oe_items :: "order_item list"

record shipment_event =
  sh_event_type :: string
  sh_order_id :: int
  sh_shipment_id :: int
  sh_status :: string
  sh_created_at :: string

definition shipment_json :: "shipment_event \<Rightarrow> json" where
  "shipment_json e = JObj [(''eventType'', JStr (sh_event_type e)), (''orderId'', JNum (sh_order_id e)),
     (''shipmentId'', JNum (sh_shipment_id e)), (''status'', JStr (sh_status e)), (''createdAt'', JStr (sh_created_at e))]"

record kafka_record =
  kr_topic :: string
  kr_key :: string
  kr_value :: raw_json

text \<open>The fetches of one poll: whether the client is closed, and the records in order.\<close>

record fetches =
  ft_closed :: bool
  ft_records :: "kafka_record list"

fun decode_items :: "json list \<Rightarrow> go_error + order_item list" where
  "decode_items [] = Inr []"
| "decode_items (j # js) =
     bind_err (asObj (Raw j)) (\<lambda>m. bind_err (int64_field m ''productId'') (\<lambda>p.
       bind_err (int64_field m ''quantity'') (\<lambda>q. bind_err (float_field m ''price'') (\<lambda>_.
       bind_err (decode_items js) (\<lambda>is. Inr (\<lparr>oi_product_id = p, oi_quantity = q\<rparr> # is))))))"

definition decode_event :: "raw_json \<Rightarrow> go_error + order_event" where
  "decode_event value =
     bind_err (asObj value) (\<lambda>m. bind_err (strField m ''eventType'') (\<lambda>ty.
       bind_err (int64_field m ''orderId'') (\<lambda>i. bind_err (strField m ''userId'') (\<lambda>_.
       bind_err (bind_err (arrField m ''items'') decode_items) (\<lambda>is.
       bind_err (float_field m ''totalAmount'') (\<lambda>_. bind_err (strField m ''createdAt'') (\<lambda>_.
         Inr \<lparr>oe_event_type = ty, oe_order_id = i, oe_items = is\<rparr>)))))))"

section \<open>Configuration\<close>

definition getenv :: "(string \<rightharpoonup> string) \<Rightarrow> string \<Rightarrow> string \<Rightarrow> string" where
  "getenv vars key fallback = (let v = go_get vars key in if v \<noteq> [] then v else fallback)"

record mysql_config =
  my_net :: string
  my_addr :: string
  my_user :: string
  my_passwd :: string
  my_db_name :: string
  my_parse_time :: bool

definition db_config :: "(string \<rightharpoonup> string) \<Rightarrow> mysql_config" where
  "db_config vars = \<lparr>my_net = ''tcp'',
     my_addr = getenv vars ''MYSQL_HOST'' ''mysql-haproxy'' @ '':'' @ getenv vars ''MYSQL_PORT'' ''3306'',
     my_user = getenv vars ''MYSQL_USER'' ''orders'', my_passwd = go_get vars ''MYSQL_PASSWORD'',
     my_db_name = getenv vars ''MYSQL_DATABASE'' ''orders'', my_parse_time = True\<rparr>"

record kafka_config =
  kc_seeds :: "string list"
  kc_group :: string
  kc_topic :: string

section \<open>The world\<close>

text \<open>
  The calls of the libraries. \<open>waitOrDone\<close> is the select of the context and a timer: the
  context's error when that case was taken.
\<close>

record 'w ff_env =
  newRequest :: "string \<Rightarrow> string \<Rightarrow> go_error option"
  httpPut :: "string \<Rightarrow> raw_json \<Rightarrow> 'w \<Rightarrow> (go_error + int \<times> string) \<times> 'w"
  waitOrDone :: "int \<Rightarrow> 'w \<Rightarrow> go_error option \<times> 'w"
  execSQL :: "string \<Rightarrow> int list \<Rightarrow> 'w \<Rightarrow> (go_error + int \<times> go_error option) \<times> 'w"
  produceSync :: "kafka_record \<Rightarrow> 'w \<Rightarrow> go_error option \<times> 'w"
  markCommit :: "kafka_record \<Rightarrow> 'w \<Rightarrow> 'w"
  pollFetches :: "'w \<Rightarrow> fetches \<times> 'w"
  ctxDone :: "'w \<Rightarrow> bool"
  nowNanos :: "'w \<Rightarrow> int"
  mysqlNumber :: "go_error \<Rightarrow> int option"
  initTelemetry :: "'w \<Rightarrow> go_error option \<times> 'w"
  openDB :: "mysql_config \<Rightarrow> 'w \<Rightarrow> go_error option \<times> 'w"
  registerMetrics :: "'w \<Rightarrow> go_error option \<times> 'w"
  pingDB :: "'w \<Rightarrow> go_error option \<times> 'w"
  newKafka :: "kafka_config \<Rightarrow> 'w \<Rightarrow> go_error option \<times> 'w"
  pingKafka :: "'w \<Rightarrow> go_error option \<times> 'w"
  sleepNanos :: "int \<Rightarrow> 'w \<Rightarrow> 'w"
  shutdownServer :: "'w \<Rightarrow> 'w"
  commitMarked :: "'w \<Rightarrow> 'w"
  flushProducer :: "'w \<Rightarrow> 'w"

section \<open>Reserving stock\<close>

definition reserve_url :: "string \<Rightarrow> int \<Rightarrow> string" where
  "reserve_url base p = base @ ''/inventory/'' @ show_int p @ ''/reserve''"

definition inventoryError :: "int \<Rightarrow> string \<Rightarrow> go_error" where
  "inventoryError status body =
     errorf (''inventory service returned status '' @ show_int status @ '': '' @ trimSpace body)"

text \<open>The remaining attempts; the error is that of the last one.\<close>

fun reserve_loop ::
  "'w ff_env \<Rightarrow> string \<Rightarrow> raw_json \<Rightarrow> int list \<Rightarrow> go_error option \<Rightarrow> 'w \<Rightarrow> go_error option \<times> 'w" where
  "reserve_loop env url payload [] lastErr w = (lastErr, w)"
| "reserve_loop env url payload (attempt # rest) lastErr w =
     (case (if attempt > 1 then waitOrDone env ((attempt - 1) * retryBackoff) w else (None, w)) of
        (Some e, w1) \<Rightarrow> (Some e, w1)
      | (None, w1) \<Rightarrow>
          (case newRequest env ''PUT'' url of
             Some e \<Rightarrow> (Some e, w1)
           | None \<Rightarrow>
               (case httpPut env url payload w1 of
                  (Inl e, w2) \<Rightarrow> reserve_loop env url payload rest (Some e) w2
                | (Inr (status, body), w2) \<Rightarrow>
                    if status < 300 then (None, w2)
                    else if status = 409 then (None, w2)
                    else reserve_loop env url payload rest (Some (inventoryError status body)) w2)))"

definition reserve_payload :: "int \<Rightarrow> raw_json" where
  "reserve_payload quantity = Raw (JObj [(''quantity'', JNum quantity)])"

definition reserveInventory :: "'w ff_env \<Rightarrow> string \<Rightarrow> int \<Rightarrow> int \<Rightarrow> 'w \<Rightarrow> go_error option \<times> 'w" where
  "reserveInventory env inventoryURL productID quantity w =
     reserve_loop env (reserve_url inventoryURL productID) (reserve_payload quantity) [1..maxAttempts] None w"

text \<open>The items in order, up to the first that cannot be reserved.\<close>

fun reserve_items :: "'w ff_env \<Rightarrow> string \<Rightarrow> order_item list \<Rightarrow> 'w \<Rightarrow> go_error option \<times> 'w" where
  "reserve_items env inventoryURL [] w = (None, w)"
| "reserve_items env inventoryURL (i # is) w =
     (case reserveInventory env inventoryURL (oi_product_id i) (oi_quantity i) w of
        (Some e, w1) \<Rightarrow> (Some e, w1)
      | (None, w1) \<Rightarrow> reserve_items env inventoryURL is w1)"

section \<open>Shipments\<close>

definition insert_shipment :: string where
  "insert_shipment = ''INSERT INTO shipments (order_id, status) VALUES (?, 'CREATED')''"

definition createShipment :: "'w ff_env \<Rightarrow> int \<Rightarrow> 'w \<Rightarrow> (go_error + int) \<times> 'w" where
  "createShipment env orderID w =
     (case execSQL env insert_shipment [orderID] w of
        (Inl e, w1) \<Rightarrow> (Inl e, w1)
      | (Inr (i, None), w1) \<Rightarrow> (Inr i, w1)
      | (Inr (i, Some e), w1) \<Rightarrow> (Inl e, w1))"

definition shipment_record :: "int \<Rightarrow> int \<Rightarrow> int \<Rightarrow> kafka_record" where
  "shipment_record orderID shipmentID now =
     \<lparr>kr_topic = produceTopic, kr_key = show_int orderID,
      kr_value = Raw (shipment_json \<lparr>sh_event_type = ''ShipmentCreated'', sh_order_id = orderID,
        sh_shipment_id = shipmentID, sh_status = ''CREATED'', sh_created_at = rfc3339 now\<rparr>)\<rparr>"

definition publishShipmentCreated :: "'w ff_env \<Rightarrow> int \<Rightarrow> int \<Rightarrow> 'w \<Rightarrow> go_error option \<times> 'w" where
  "publishShipmentCreated env orderID shipmentID w =
     produceSync env (shipment_record orderID shipmentID (nowNanos env w)) w"

section \<open>Consuming\<close>

definition processRecord :: "'w ff_env \<Rightarrow> string \<Rightarrow> kafka_record \<Rightarrow> 'w \<Rightarrow> 'w" where
  "processRecord env inventoryURL rec w =
     (case decode_event (kr_value rec) of
        Inl e \<Rightarrow> w
      | Inr event \<Rightarrow>
          if oe_event_type event \<noteq> ''OrderCreated'' then w
          else
            (case reserve_items env inventoryURL (oe_items event) w of
               (Some e, w1) \<Rightarrow> w1
             | (None, w1) \<Rightarrow>
                 (case createShipment env (oe_order_id event) w1 of
                    (Inl e, w2) \<Rightarrow> w2
                  | (Inr shipmentID, w2) \<Rightarrow>
                      snd (publishShipmentCreated env (oe_order_id event) shipmentID w2))))"

definition process_and_mark :: "'w ff_env \<Rightarrow> string \<Rightarrow> kafka_record \<Rightarrow> 'w \<Rightarrow> 'w" where
  "process_and_mark env inventoryURL rec w = markCommit env rec (processRecord env inventoryURL rec w)"

text \<open>The loop ends only when the client is closed or the context is done; otherwise it has no value.\<close>

partial_function (option) consumeLoop :: "'w ff_env \<Rightarrow> string \<Rightarrow> 'w \<Rightarrow> 'w option" where
  "consumeLoop env inventoryURL w =
     (let (fs, w1) = pollFetches env w in
      if ft_closed fs \<or> ctxDone env w1 then Some w1
      else consumeLoop env inventoryURL (fold (process_and_mark env inventoryURL) (ft_records fs) w1))"

section \<open>Starting and stopping\<close>

text \<open>The statements up to their white space.\<close>

definition create_table :: string where
  "create_table = ''CREATE TABLE IF NOT EXISTS shipments ( id BIGINT AUTO_INCREMENT PRIMARY KEY, order_id BIGINT, status VARCHAR(32) DEFAULT 'PENDING', created_at TIMESTAMP DEFAULT CURRENT_TIMESTAMP )''"

definition create_index :: string where
  "create_index = ''CREATE INDEX idx_shipments_created_at ON shipments(created_at)''"

text \<open>Whether the schema is there; if not, the process exits.\<close>

definition initDB :: "'w ff_env \<Rightarrow> 'w \<Rightarrow> bool \<times> 'w" where
  "initDB env w =
     (case execSQL env create_table [] w of
        (Inl e, w1) \<Rightarrow> (False, w1)
      | (Inr _, w1) \<Rightarrow>
          (case execSQL env create_index [] w1 of
             (Inl e, w2) \<Rightarrow> (mysqlNumber env e = Some erDupKeyName, w2)
           | (Inr _, w2) \<Rightarrow> (True, w2)))"

definition inventory_url :: "(string \<rightharpoonup> string) \<Rightarrow> string" where
  "inventory_url vars =
     (let v = go_get vars ''INVENTORY_SERVICE_URL'';
          url = (if v = [] then ''http://inventory-service:8080'' else v)
      in trimSuffix url ''/'')"

definition brokers :: "(string \<rightharpoonup> string) \<Rightarrow> string list" where
  "brokers vars =
     (let v = go_get vars ''KAFKA_BOOTSTRAP_SERVERS''
      in split_on (CHR '','') (if v = [] then ''kafka-kafka-bootstrap:9092'' else v))"

definition kafka_client :: "(string \<rightharpoonup> string) \<Rightarrow> kafka_config" where
  "kafka_client vars = \<lparr>kc_seeds = brokers vars, kc_group = consumerGroup, kc_topic = consumeTopic\<rparr>"

definition shut_down :: "'w ff_env \<Rightarrow> 'w \<Rightarrow> 'w" where
  "shut_down env w = flushProducer env (commitMarked env (shutdownServer env w))"

text \<open>
  The program: an exit with status 1 at the first stage that fails; otherwise the loop, and the
  shutdown when it ends. \<^verbatim>\<open>None\<close> is a program that keeps consuming.
\<close>

datatype exit_code = Exit1 | Exit0

definition fulfillment_main :: "'w ff_env \<Rightarrow> (string \<rightharpoonup> string) \<Rightarrow> 'w \<Rightarrow> (exit_code \<times> 'w) option" where
  "fulfillment_main env vars w =
     (case initTelemetry env w of (Some e, w1) \<Rightarrow> Some (Exit1, w1) | (None, w1) \<Rightarrow>
      (case openDB env (db_config vars) w1 of (Some e, w2) \<Rightarrow> Some (Exit1, w2) | (None, w2) \<Rightarrow>
      (case registerMetrics env w2 of (Some e, w3) \<Rightarrow> Some (Exit1, w3) | (None, w3) \<Rightarrow>
      (case wait_ready (pingDB env) (sleepNanos env (2 * second)) 30 None w3 of
         (Some e, w4) \<Rightarrow> Some (Exit1, w4) | (None, w4) \<Rightarrow>
      (case initDB env w4 of (False, w5) \<Rightarrow> Some (Exit1, w5) | (True, w5) \<Rightarrow>
      (case newKafka env (kafka_client vars) w5 of (Some e, w6) \<Rightarrow> Some (Exit1, w6) | (None, w6) \<Rightarrow>
      (case wait_ready (pingKafka env) (sleepNanos env (2 * second)) 30 None w6 of
         (Some e, w7) \<Rightarrow> Some (Exit1, w7) | (None, w7) \<Rightarrow>
      (case consumeLoop env (inventory_url vars) w7 of
         None \<Rightarrow> None
       | Some w8 \<Rightarrow> Some (Exit0, shut_down env w8)))))))))"

text \<open>The answers, and the health endpoint.\<close>

definition fulfillment_error :: "int \<Rightarrow> string \<Rightarrow> http_answer" where
  "fulfillment_error status msg = JsonAnswer status (JObj [(''error'', JStr msg)])"

definition fulfillment_health :: "'w ff_env \<Rightarrow> 'w \<Rightarrow> http_answer \<times> 'w" where
  "fulfillment_health env w =
     (case pingDB env w of
        (Some e, w1) \<Rightarrow> (fulfillment_error 503 ''database unavailable'', w1)
      | (None, w1) \<Rightarrow>
          (case pingKafka env w1 of
             (Some e, w2) \<Rightarrow> (fulfillment_error 503 ''kafka unavailable'', w2)
           | (None, w2) \<Rightarrow> (JsonAnswer 200 (JObj [(''status'', JStr ''ok'')]), w2)))"

end
