(* ===== verification/FulfillmentProps.thy ===== *)
theory FulfillmentProps
  imports Fulfillment
begin

text \<open>
  What the fulfillment service promises, stated on the calls it makes: an environment that records
  each call with its answer, the attempts of one reservation, the protocol of one order, and the
  offsets marked by the loop.
\<close>

section \<open>Recording calls\<close>

datatype ff_call =
    CPut string raw_json "go_error + int \<times> string"
  | CInsert string "int list" "go_error + int \<times> go_error option"
  | CProduce kafka_record "go_error option"
  | CMark kafka_record

text \<open>The environment over a world with a second part that no call reads or changes.\<close>

definition beside :: "'w ff_env \<Rightarrow> ('w \<times> 'g) ff_env" where
  "beside env =
     (let step = (\<lambda>f wg. let (r, w) = f (fst wg) in (r, (w, snd wg))) in \<lparr>
     newRequest = newRequest env,
     httpPut = (\<lambda>url p wg. let (r, w) = httpPut env url p (fst wg) in (r, (w, snd wg))),
     waitOrDone = (\<lambda>d. step (waitOrDone env d)),
     execSQL = (\<lambda>q xs wg. let (r, w) = execSQL env q xs (fst wg) in (r, (w, snd wg))),
     produceSync = (\<lambda>rec. step (produceSync env rec)),
     markCommit = (\<lambda>rec wg. (markCommit env rec (fst wg), snd wg)),
     pollFetches = (\<lambda>wg. let (r, w) = pollFetches env (fst wg) in (r, (w, snd wg))),
     ctxDone = (\<lambda>wg. ctxDone env (fst wg)),
     nowNanos = (\<lambda>wg. nowNanos env (fst wg)),
     mysqlNumber = mysqlNumber env,
     initTelemetry = step (initTelemetry env),
     openDB = (\<lambda>vars. step (openDB env vars)),
     registerMetrics = step (registerMetrics env),
     pingDB = step (pingDB env),
     newKafka = (\<lambda>bs. step (newKafka env bs)),
     pingKafka = step (pingKafka env),
     sleepNanos = (\<lambda>d wg. (sleepNanos env d (fst wg), snd wg)),
     shutdownServer = (\<lambda>wg. (shutdownServer env (fst wg), snd wg)),
     commitMarked = (\<lambda>wg. (commitMarked env (fst wg), snd wg)),
     flushProducer = (\<lambda>wg. (flushProducer env (fst wg), snd wg))\<rparr>)"

definition recorded :: "'w ff_env \<Rightarrow> ('w \<times> ff_call list) ff_env" where
  "recorded env = (beside env)\<lparr>
     httpPut := (\<lambda>url p wl. let (r, w) = httpPut env url p (fst wl) in (r, (w, snd wl @ [CPut url p r]))),
     execSQL := (\<lambda>q xs wl. let (r, w) = execSQL env q xs (fst wl) in (r, (w, snd wl @ [CInsert q xs r]))),
     produceSync := (\<lambda>rec wl. let (r, w) = produceSync env rec (fst wl) in (r, (w, snd wl @ [CProduce rec r]))),
     markCommit := (\<lambda>rec wl. (markCommit env rec (fst wl), snd wl @ [CMark rec]))\<rparr>"

lemma recorded_simps [simp]:
  "newRequest (recorded env) = newRequest env"
  "httpPut (recorded env) url p (w, l) =
     (fst (httpPut env url p w), (snd (httpPut env url p w), l @ [CPut url p (fst (httpPut env url p w))]))"
  "waitOrDone (recorded env) d (w, l) = (fst (waitOrDone env d w), (snd (waitOrDone env d w), l))"
  "execSQL (recorded env) q xs (w, l) =
     (fst (execSQL env q xs w), (snd (execSQL env q xs w), l @ [CInsert q xs (fst (execSQL env q xs w))]))"
  "produceSync (recorded env) rec (w, l) =
     (fst (produceSync env rec w), (snd (produceSync env rec w), l @ [CProduce rec (fst (produceSync env rec w))]))"
  "markCommit (recorded env) rec (w, l) = (markCommit env rec w, l @ [CMark rec])"
  "ctxDone (recorded env) (w, l) = ctxDone env w"
  "nowNanos (recorded env) (w, l) = nowNanos env w"
  by (simp_all add: recorded_def beside_def case_prod_unfold Let_def)

text \<open>The order of a record, if it is the event of a new one.\<close>

definition new_order :: "kafka_record \<Rightarrow> order_event option" where
  "new_order rec =
     (case decode_event (kr_value rec) of
        Inl e \<Rightarrow> None
      | Inr ev \<Rightarrow> if oe_event_type ev = ''OrderCreated'' then Some ev else None)"

section \<open>Environments over larger worlds\<close>

text \<open>
  An environment over a larger world acts on a view of it as the original does, and keeps the rest:
  the contract of every instrumented environment, under which processing a record refines that of the
  original.
\<close>

definition agree :: "('v \<Rightarrow> 'w) \<Rightarrow> ('v \<Rightarrow> 'k) \<Rightarrow> 'v \<Rightarrow> 'a \<times> 'v \<Rightarrow> 'a \<times> 'w \<Rightarrow> bool" where
  "agree view keep v r' r \<longleftrightarrow> fst r' = fst r \<and> view (snd r') = snd r \<and> keep (snd r') = keep v"

locale lifted_env =
  fixes env :: "'w ff_env" and env' :: "'v ff_env" and view :: "'v \<Rightarrow> 'w" and keep :: "'v \<Rightarrow> 'k"
  assumes lifted_request: "newRequest env' = newRequest env"
    and lifted_put: "agree view keep v (httpPut env' url p v) (httpPut env url p (view v))"
    and lifted_wait: "agree view keep v (waitOrDone env' d v) (waitOrDone env d (view v))"
    and lifted_exec: "agree view keep v (execSQL env' q xs v) (execSQL env q xs (view v))"
    and lifted_produce: "agree view keep v (produceSync env' rec v) (produceSync env rec (view v))"
    and lifted_mark: "view (markCommit env' rec v) = markCommit env rec (view v)" "keep (markCommit env' rec v) = keep v"
    and lifted_now: "nowNanos env' v = nowNanos env (view v)"
begin

lemma wait_agrees:
  "agree view keep v (if b then waitOrDone env' d v else (None, v)) (if b then waitOrDone env d (view v) else (None, view v))"
  using lifted_wait by (simp add: agree_def)

lemma reserve_loop_agrees:
  "agree view keep v (reserve_loop env' url p ks err v) (reserve_loop env url p ks err (view v))"
proof (induction ks arbitrary: err v)
  case Nil
  then show ?case by (simp add: agree_def)
next
  case (Cons k ks)
  obtain e v1 where wait': "(if k > 1 then waitOrDone env' ((k - 1) * retryBackoff) v else (None, v)) = (e, v1)"
    by (cases "if k > 1 then waitOrDone env' ((k - 1) * retryBackoff) v else (None, v)")
  have wait: "(if k > 1 then waitOrDone env ((k - 1) * retryBackoff) (view v) else (None, view v)) = (e, view v1)"
    and v1: "keep v1 = keep v"
    using wait_agrees [of v "k > 1" "(k - 1) * retryBackoff"] by (simp_all add: agree_def wait' prod_eq_iff)
  obtain r v2 where put': "httpPut env' url p v1 = (r, v2)" by (cases "httpPut env' url p v1")
  have put: "httpPut env url p (view v1) = (r, view v2)" and v2: "keep v2 = keep v1"
    using lifted_put [of v1 url p] by (simp_all add: agree_def put' prod_eq_iff)
  have IH: "agree view keep v (reserve_loop env' url p ks err' v2) (reserve_loop env url p ks err' (view v2))" for err'
    using Cons.IH [of v2 err'] v1 v2 by (simp add: agree_def)
  show ?case
    using IH v1 v2
    by (simp add: wait' wait put' put lifted_request split: option.split sum.split prod.split) (simp add: agree_def)
qed

lemma reserve_items_agrees:
  "agree view keep v (reserve_items env' base is v) (reserve_items env base is (view v))"
proof (induction "is" arbitrary: v)
  case (Cons i "is")
  obtain e v1 where run': "reserveInventory env' base (oi_product_id i) (oi_quantity i) v = (e, v1)"
    by (cases "reserveInventory env' base (oi_product_id i) (oi_quantity i) v")
  have run: "reserveInventory env base (oi_product_id i) (oi_quantity i) (view v) = (e, view v1)" and v1: "keep v1 = keep v"
    using reserve_loop_agrees run' unfolding reserveInventory_def agree_def prod_eq_iff by (metis fst_conv snd_conv)+
  show ?case using Cons.IH [of v1] v1 by (cases e) (simp_all add: run run' agree_def)
qed (simp add: agree_def)

lemma create_agrees: "agree view keep v (createShipment env' i v) (createShipment env i (view v))"
  using lifted_exec [of v insert_shipment "[i]"]
  by (auto simp: createShipment_def agree_def split: prod.split sum.split option.split)

lemma publish_agrees: "agree view keep v (publishShipmentCreated env' i j v) (publishShipmentCreated env i j (view v))"
  using lifted_produce by (simp add: publishShipmentCreated_def lifted_now)

lemma process_and_mark_agrees:
  "view (process_and_mark env' base rec v) = process_and_mark env base rec (view v)
   \<and> keep (process_and_mark env' base rec v) = keep v"
proof -
  have "view (processRecord env' base rec v) = processRecord env base rec (view v)
      \<and> keep (processRecord env' base rec v) = keep v"
  proof (cases "new_order rec")
    case None
    then show ?thesis by (auto simp: processRecord_def new_order_def split: sum.splits if_splits)
  next
    case (Some ev)
    then have ev: "decode_event (kr_value rec) = Inr ev" "oe_event_type ev = ''OrderCreated''"
      by (auto simp: new_order_def split: sum.splits if_splits)
    obtain e v1 where run': "reserve_items env' base (oe_items ev) v = (e, v1)" by fastforce
    have run: "reserve_items env base (oe_items ev) (view v) = (e, view v1)" and v1: "keep v1 = keep v"
      using reserve_items_agrees [of v base "oe_items ev"] by (simp_all add: agree_def run' prod_eq_iff)
    obtain r v2 where made': "createShipment env' (oe_order_id ev) v1 = (r, v2)" by fastforce
    have made: "createShipment env (oe_order_id ev) (view v1) = (r, view v2)" and v2: "keep v2 = keep v1"
      using create_agrees [of v1 "oe_order_id ev"] by (simp_all add: agree_def made' prod_eq_iff)
    show ?thesis
      using publish_agrees [of v2 "oe_order_id ev"] v1 v2
      by (auto simp: processRecord_def ev run run' made made' agree_def split: option.split sum.split)
  qed
  then show ?thesis by (simp add: process_and_mark_def lifted_mark)
qed

end

text \<open>Recording is transparent.\<close>

interpretation recorded: lifted_env env "recorded env" fst "\<lambda>wl. ()"
  by unfold_locales (simp_all add: agree_def split_paired_all)

section \<open>One reservation\<close>

text \<open>The answers that end the attempts with success, and what the calls for one item look like.\<close>

definition settling :: "go_error + int \<times> string \<Rightarrow> bool" where
  "settling r = (case r of Inl e \<Rightarrow> False | Inr (status, body) \<Rightarrow> status < 300 \<or> status = 409)"

fun settles :: "ff_call \<Rightarrow> bool" where
  "settles (CPut url p r) = settling r"
| "settles _ = False"

fun put_to :: "string \<Rightarrow> raw_json \<Rightarrow> ff_call \<Rightarrow> bool" where
  "put_to url p (CPut url' p' r) = (url' = url \<and> p' = p)"
| "put_to url p _ = False"

text \<open>At most \<open>n\<close> calls, all the same; only the last can have succeeded.\<close>

definition attempts :: "nat \<Rightarrow> string \<Rightarrow> raw_json \<Rightarrow> ff_call list \<Rightarrow> bool" where
  "attempts n url p t \<longleftrightarrow>
     length t \<le> n \<and> list_all (put_to url p) t \<and> list_all (\<lambda>c. \<not> settles c) (butlast t)"

definition settled :: "ff_call list \<Rightarrow> bool" where
  "settled t \<longleftrightarrow> t \<noteq> [] \<and> settles (last t)"

text \<open>Neither the request could not be made nor the wait was cut short.\<close>

definition unhindered :: "'w ff_env \<Rightarrow> bool" where
  "unhindered env \<longleftrightarrow> (\<forall>url. newRequest env ''PUT'' url = None) \<and> (\<forall>d w. fst (waitOrDone env d w) = None)"

lemma attempts_cons:
  "\<lbrakk>attempts n url p t; put_to url p c; \<not> settles c\<rbrakk> \<Longrightarrow> attempts (Suc n) url p (c # t)"
  by (simp add: attempts_def)

lemma settled_cons: "\<not> settles c \<Longrightarrow> settled (c # t) = settled t"
  by (cases t) (simp_all add: settled_def)

lemma reserve_loop_calls:
  "\<exists>t. reserve_loop (recorded env) url p ks err (w, l) =
      (fst (reserve_loop env url p ks err w), (snd (reserve_loop env url p ks err w), l @ t))
    \<and> attempts (length ks) url p t
    \<and> (fst (reserve_loop env url p ks err w) = None \<longleftrightarrow> settled t \<or> t = [] \<and> ks = [] \<and> err = None)
    \<and> (unhindered env \<longrightarrow> settled t \<or> length t = length ks)"
proof (induction ks arbitrary: err w l)
  case Nil
  then show ?case by (simp add: attempts_def settled_def)
next
  case (Cons k ks)
  define we where "we = (if k > 1 then waitOrDone env ((k - 1) * retryBackoff) w else (None, w))"
  obtain e w1 where wait: "we = (e, w1)" by (cases we)
  have rec: "(if k > 1 then waitOrDone (recorded env) ((k - 1) * retryBackoff) (w, l) else (None, (w, l)))
      = (e, (w1, l))"
    using wait by (auto simp: we_def split: if_splits)
  have hindered: "e \<noteq> None \<Longrightarrow> \<not> unhindered env"
    using wait by (cases "k > 1") (auto simp: we_def unhindered_def, metis fst_conv option.distinct(1))
  show ?case
  proof (cases e)
    case (Some e')
    with hindered show ?thesis
      using wait by (intro exI [of _ "[]"]) (simp add: rec we_def [symmetric] attempts_def settled_def)
  next
    case None
    note start = rec wait None we_def [symmetric]
    show ?thesis
    proof (cases "newRequest env ''PUT'' url")
      case (Some e')
      then have "\<not> unhindered env" by (auto simp: unhindered_def)
      with Some show ?thesis
        using wait by (intro exI [of _ "[]"]) (simp add: start attempts_def settled_def)
    next
      case req: None
      obtain r w2 where put: "httpPut env url p w1 = (r, w2)" by (cases "httpPut env url p w1")
      show ?thesis
      proof (cases "settling r")
        case True
        with req put show ?thesis
          by (intro exI [of _ "[CPut url p r]"])
            (auto simp: start attempts_def settled_def settling_def split: sum.splits)
      next
        case False
        define err' where "err' = (case r of Inl e \<Rightarrow> e | Inr (s, b) \<Rightarrow> inventoryError s b)"
        have go: "reserve_loop env url p (k # ks) err w = reserve_loop env url p ks (Some err') w2"
          "reserve_loop (recorded env) url p (k # ks) err (w, l)
            = reserve_loop (recorded env) url p ks (Some err') (w2, l @ [CPut url p r])"
          using req put False by (auto simp: start settling_def err'_def split: sum.splits)
        obtain t where t: "reserve_loop (recorded env) url p ks (Some err') (w2, l @ [CPut url p r]) =
            (fst (reserve_loop env url p ks (Some err') w2),
             (snd (reserve_loop env url p ks (Some err') w2), (l @ [CPut url p r]) @ t))"
          and calls: "attempts (length ks) url p t"
            "fst (reserve_loop env url p ks (Some err') w2) = None \<longleftrightarrow> settled t"
            "unhindered env \<longrightarrow> settled t \<or> length t = length ks"
          using Cons.IH [of "Some err'" w2 "l @ [CPut url p r]"] by auto
        have "\<not> settles (CPut url p r)" using False by simp
        with t calls show ?thesis
          by (intro exI [of _ "CPut url p r # t"]) (simp add: go attempts_cons settled_cons del: reserve_loop.simps)
      qed
    qed
  qed
qed

text \<open>The calls for one item of an order.\<close>

definition item_attempts :: "string \<Rightarrow> order_item \<Rightarrow> ff_call list \<Rightarrow> bool" where
  "item_attempts base i t = attempts 3 (reserve_url base (oi_product_id i)) (reserve_payload (oi_quantity i)) t"

lemma max_attempts: "[1..maxAttempts] = [1, 2, 3]"
  by (simp add: maxAttempts_def upto.simps)

lemma reserveInventory_calls:
  "\<exists>t. reserveInventory (recorded env) base p q (w, l) =
      (fst (reserveInventory env base p q w), (snd (reserveInventory env base p q w), l @ t))
    \<and> attempts 3 (reserve_url base p) (reserve_payload q) t
    \<and> (fst (reserveInventory env base p q w) = None \<longleftrightarrow> settled t)
    \<and> (unhindered env \<longrightarrow> settled t \<or> length t = 3)"
  using reserve_loop_calls [of env "reserve_url base p" "reserve_payload q" "[1..maxAttempts]" None w l]
  by (simp add: reserveInventory_def max_attempts numeral_3_eq_3 del: reserve_loop.simps)


section \<open>One order\<close>

text \<open>
  The calls for the items: one group of attempts for each item in order, up to and with the first
  that fails.
\<close>

fun item_groups :: "string \<Rightarrow> order_item list \<Rightarrow> ff_call list list \<Rightarrow> bool" where
  "item_groups base is [] = True"
| "item_groups base [] (t # ts) = False"
| "item_groups base (i # is) (t # ts) =
     (item_attempts base i t \<and> (if settled t then item_groups base is ts else ts = []))"

text \<open>All items are reserved: as many groups as items, all of them settled.\<close>

definition all_reserved :: "order_item list \<Rightarrow> ff_call list list \<Rightarrow> bool" where
  "all_reserved is ts \<longleftrightarrow> length ts = length is \<and> list_all settled ts"

lemma reserve_items_calls:
  "\<exists>ts. reserve_items (recorded env) base is (w, l) =
      (fst (reserve_items env base is w), (snd (reserve_items env base is w), l @ concat ts))
    \<and> item_groups base is ts
    \<and> (fst (reserve_items env base is w) = None \<longleftrightarrow> all_reserved is ts)"
proof (induction "is" arbitrary: w l)
  case Nil
  show ?case by (intro exI [of _ "[]"]) (simp add: all_reserved_def)
next
  case (Cons i "is")
  let ?p = "oi_product_id i" and ?q = "oi_quantity i"
  obtain r w1 where run: "reserveInventory env base ?p ?q w = (r, w1)"
    by (cases "reserveInventory env base ?p ?q w")
  obtain t where t: "reserveInventory (recorded env) base ?p ?q (w, l) = (r, (w1, l @ t))"
    and at: "item_attempts base i t" and r: "r = None \<longleftrightarrow> settled t"
    using reserveInventory_calls [of env base ?p ?q w l] run by (auto simp: item_attempts_def)
  show ?case
  proof (cases r)
    case None
    obtain ts where "reserve_items (recorded env) base is (w1, l @ t) =
        (fst (reserve_items env base is w1), (snd (reserve_items env base is w1), (l @ t) @ concat ts))"
      "item_groups base is ts" "fst (reserve_items env base is w1) = None \<longleftrightarrow> all_reserved is ts"
      using Cons.IH [of w1 "l @ t"] by (elim exE conjE) (rule that)
    with None run t at r show ?thesis
      by (intro exI [of _ "t # ts"]) (simp add: all_reserved_def)
  next
    case (Some e)
    with run t at r show ?thesis
      by (intro exI [of _ "[t]"]) (simp add: all_reserved_def)
  qed
qed

text \<open>
  After the reservations: one insert of the order, and, if it gives an id, one publication of that
  shipment.
\<close>

definition shipment_calls :: "int \<Rightarrow> ff_call list \<Rightarrow> bool" where
  "shipment_calls orderID t \<longleftrightarrow>
     (\<exists>r. t = [CInsert insert_shipment [orderID] r] \<and> (\<forall>i. r \<noteq> Inr (i, None)))
     \<or> (\<exists>i now e. t = [CInsert insert_shipment [orderID] (Inr (i, None)),
           CProduce (shipment_record orderID i now) e])"

lemma shipment_calls_made:
  "\<exists>t. (case createShipment (recorded env) orderID (w, l) of
          (Inl e, w2) \<Rightarrow> w2
        | (Inr i, w2) \<Rightarrow> snd (publishShipmentCreated (recorded env) orderID i w2)) =
      ((case createShipment env orderID w of
          (Inl e, w2) \<Rightarrow> w2
        | (Inr i, w2) \<Rightarrow> snd (publishShipmentCreated env orderID i w2)), l @ t)
    \<and> shipment_calls orderID t"
proof -
  obtain r w1 where run: "execSQL env insert_shipment [orderID] w = (r, w1)"
    by (cases "execSQL env insert_shipment [orderID] w")
  show ?thesis
  proof (cases "\<exists>i. r = Inr (i, None)")
    case True
    then obtain i where "r = Inr (i, None)" by blast
    with run show ?thesis
      by (intro exI [of _ "[CInsert insert_shipment [orderID] (Inr (i, None)),
            CProduce (shipment_record orderID i (nowNanos env w1))
              (fst (produceSync env (shipment_record orderID i (nowNanos env w1)) w1))]"])
        (auto simp: createShipment_def publishShipmentCreated_def shipment_calls_def)
  next
    case False
    with run show ?thesis
      by (intro exI [of _ "[CInsert insert_shipment [orderID] r]"])
        (auto simp: createShipment_def shipment_calls_def split: sum.split option.split)
  qed
qed

text \<open>The calls of one order: the groups of its items, and the shipment if all are reserved.\<close>

definition order_calls :: "string \<Rightarrow> order_event \<Rightarrow> ff_call list \<Rightarrow> bool" where
  "order_calls base ev cs \<longleftrightarrow>
     (\<exists>ts tail. cs = concat ts @ tail \<and> item_groups base (oe_items ev) ts
        \<and> (if all_reserved (oe_items ev) ts then shipment_calls (oe_order_id ev) tail else tail = []))"

definition record_calls :: "string \<Rightarrow> kafka_record \<Rightarrow> ff_call list \<Rightarrow> bool" where
  "record_calls base rec cs \<longleftrightarrow>
     (case new_order rec of None \<Rightarrow> cs = [] | Some ev \<Rightarrow> order_calls base ev cs)"

lemma processRecord_calls:
  "\<exists>cs. processRecord (recorded env) base rec (w, l) = (processRecord env base rec w, l @ cs)
     \<and> record_calls base rec cs"
proof (cases "new_order rec")
  case None
  then show ?thesis
    by (auto simp: processRecord_def new_order_def record_calls_def split: sum.splits if_splits)
next
  case (Some ev)
  then have ev: "decode_event (kr_value rec) = Inr ev" "oe_event_type ev = ''OrderCreated''"
    by (auto simp: new_order_def split: sum.splits if_splits)
  obtain r w1 where run: "reserve_items env base (oe_items ev) w = (r, w1)"
    by (cases "reserve_items env base (oe_items ev) w")
  obtain ts where ts: "reserve_items (recorded env) base (oe_items ev) (w, l) = (r, (w1, l @ concat ts))"
    "item_groups base (oe_items ev) ts" "r = None \<longleftrightarrow> all_reserved (oe_items ev) ts"
    using reserve_items_calls [of env base "oe_items ev" w l] run by auto
  show ?thesis
  proof (cases r)
    case None
    obtain t where "(case createShipment (recorded env) (oe_order_id ev) (w1, l @ concat ts) of
          (Inl e, w2) \<Rightarrow> w2
        | (Inr i, w2) \<Rightarrow> snd (publishShipmentCreated (recorded env) (oe_order_id ev) i w2)) =
      ((case createShipment env (oe_order_id ev) w1 of
          (Inl e, w2) \<Rightarrow> w2
        | (Inr i, w2) \<Rightarrow> snd (publishShipmentCreated env (oe_order_id ev) i w2)), (l @ concat ts) @ t)"
      "shipment_calls (oe_order_id ev) t"
      using shipment_calls_made [of env "oe_order_id ev" w1 "l @ concat ts"] by (elim exE conjE) (rule that)
    with None ts run ev Some show ?thesis
      by (intro exI [of _ "concat ts @ t"]) (auto simp: processRecord_def record_calls_def order_calls_def)
  next
    case (Some e)
    with ts run ev \<open>new_order rec = Some ev\<close> show ?thesis
      by (intro exI [of _ "concat ts"]) (auto simp: processRecord_def record_calls_def order_calls_def)
  qed
qed


section \<open>The loop\<close>

text \<open>
  A Kafka client that gives the polls of a list, and is closed when they are used up: the second part
  of the world is what is left of the list.
\<close>

definition closed_poll :: fetches where "closed_poll = \<lparr>ft_closed = True, ft_records = []\<rparr>"

definition scripted :: "'w ff_env \<Rightarrow> ('w \<times> fetches list) ff_env" where
  "scripted env = (beside env)\<lparr>
     pollFetches := (\<lambda>wp. case snd wp of [] \<Rightarrow> (closed_poll, wp) | f # fs \<Rightarrow> (f, (fst wp, fs)))\<rparr>"

text \<open>The calls for records in order: those of each record, and then its mark.\<close>

fun marked_calls :: "string \<Rightarrow> kafka_record list \<Rightarrow> ff_call list \<Rightarrow> bool" where
  "marked_calls base [] cs \<longleftrightarrow> cs = []"
| "marked_calls base (rec # recs) cs \<longleftrightarrow>
     (\<exists>own rest. cs = own @ [CMark rec] @ rest \<and> record_calls base rec own \<and> marked_calls base recs rest)"

lemma marked_calls_append:
  "marked_calls base (recs @ recs') cs \<longleftrightarrow>
     (\<exists>own rest. cs = own @ rest \<and> marked_calls base recs own \<and> marked_calls base recs' rest)"
proof (induction recs arbitrary: cs)
  case (Cons rec recs)
  show ?case
    by (simp add: Cons.IH) (metis append.assoc append_Cons)
qed simp

lemma records_calls:
  "\<exists>cs. fold (process_and_mark (recorded env) base) recs (w, l)
       = (fold (process_and_mark env base) recs w, l @ cs)
     \<and> marked_calls base recs cs"
proof (induction recs arbitrary: w l)
  case (Cons rec recs)
  obtain own where own: "processRecord (recorded env) base rec (w, l) = (processRecord env base rec w, l @ own)"
    "record_calls base rec own"
    using processRecord_calls [of env base rec w l] by (elim exE conjE) (rule that)
  obtain rest where "fold (process_and_mark (recorded env) base) recs
        (process_and_mark env base rec w, (l @ own) @ [CMark rec])
      = (fold (process_and_mark env base) recs (process_and_mark env base rec w), ((l @ own) @ [CMark rec]) @ rest)"
    "marked_calls base recs rest"
    using Cons.IH [of "process_and_mark env base rec w" "(l @ own) @ [CMark rec]"] by (elim exE conjE) (rule that)
  moreover have "process_and_mark (recorded env) base rec (w, l)
      = (process_and_mark env base rec w, (l @ own) @ [CMark rec])"
    using own by (simp add: process_and_mark_def)
  ultimately show ?case
    using own by (intro exI [of _ "own @ [CMark rec] @ rest"]) auto
qed simp

lemma scripted_simps [simp]:
  "newRequest (scripted env) = newRequest env"
  "httpPut (scripted env) url p (w, ps) = (fst (httpPut env url p w), (snd (httpPut env url p w), ps))"
  "waitOrDone (scripted env) d (w, ps) = (fst (waitOrDone env d w), (snd (waitOrDone env d w), ps))"
  "execSQL (scripted env) q xs (w, ps) = (fst (execSQL env q xs w), (snd (execSQL env q xs w), ps))"
  "produceSync (scripted env) rec (w, ps) = (fst (produceSync env rec w), (snd (produceSync env rec w), ps))"
  "markCommit (scripted env) rec (w, ps) = (markCommit env rec w, ps)"
  "pollFetches (scripted env) (w, []) = (closed_poll, (w, []))"
  "pollFetches (scripted env) (w, f # fs) = (f, (w, fs))"
  "ctxDone (scripted env) (w, ps) = ctxDone env w"
  "nowNanos (scripted env) (w, ps) = nowNanos env w"
  by (simp_all add: scripted_def beside_def case_prod_unfold Let_def)

interpretation scripted: lifted_env env "scripted env" fst snd
  by unfold_locales (simp_all add: agree_def split_paired_all)

lemma process_and_mark_scripted:
  "process_and_mark (scripted env) base rec (w, ps) = (process_and_mark env base rec w, ps)"
  using scripted.process_and_mark_agrees [of env base rec "(w, ps)"] by (simp add: prod_eq_iff)

lemma records_scripted:
  "fold (process_and_mark (scripted env) base) recs (w, ps) = (fold (process_and_mark env base) recs w, ps)"
  by (induction recs arbitrary: w) (simp_all add: process_and_mark_scripted)

lemma poll_recorded [simp]:
  "pollFetches (recorded env) (w, l) = (fst (pollFetches env w), (snd (pollFetches env w), l))"
  by (simp add: recorded_def beside_def case_prod_unfold Let_def)

lemma consumeLoop_calls:
  "\<exists>k cs. consumeLoop (recorded (scripted env)) base ((w, ps), l) =
      Some ((fold (process_and_mark env base) (concat (map ft_records (take k ps))) w, drop (Suc k) ps), l @ cs)
    \<and> marked_calls base (concat (map ft_records (take k ps))) cs
    \<and> list_all (\<lambda>f. \<not> ft_closed f) (take k ps)
    \<and> (length ps \<le> k \<or> ft_closed (ps ! k)
        \<or> ctxDone env (fold (process_and_mark env base) (concat (map ft_records (take k ps))) w))"
proof (induction ps arbitrary: w l)
  case Nil
  show ?case
    by (intro exI [of _ 0] exI [of _ "[]"]) (simp add: consumeLoop.simps closed_poll_def)
next
  case (Cons f ps)
  show ?case
  proof (cases "ft_closed f \<or> ctxDone env w")
    case True
    then show ?thesis
      by (intro exI [of _ 0] exI [of _ "[]"]) (auto simp: consumeLoop.simps)
  next
    case False
    let ?w = "fold (process_and_mark env base) (ft_records f) w"
    obtain own where own: "fold (process_and_mark (recorded (scripted env)) base) (ft_records f) ((w, ps), l) =
        ((?w, ps), l @ own)" "marked_calls base (ft_records f) own"
      using records_calls [of "scripted env" base "ft_records f" "(w, ps)" l] by (auto simp: records_scripted)
    obtain k cs where rest: "consumeLoop (recorded (scripted env)) base ((?w, ps), l @ own) =
        Some ((fold (process_and_mark env base) (concat (map ft_records (take k ps))) ?w, drop (Suc k) ps), (l @ own) @ cs)"
      "marked_calls base (concat (map ft_records (take k ps))) cs"
      "list_all (\<lambda>f. \<not> ft_closed f) (take k ps)"
      "length ps \<le> k \<or> ft_closed (ps ! k)
        \<or> ctxDone env (fold (process_and_mark env base) (concat (map ft_records (take k ps))) ?w)"
      using Cons.IH [of ?w "l @ own"] by (elim exE conjE) (rule that)
    have "consumeLoop (recorded (scripted env)) base ((w, f # ps), l)
        = consumeLoop (recorded (scripted env)) base ((?w, ps), l @ own)"
      using False own(1) by (subst consumeLoop.simps) simp
    moreover have "marked_calls base (concat (map ft_records (take (Suc k) (f # ps)))) (own @ cs)"
      using own(2) rest(2) by (auto simp: marked_calls_append)
    ultimately show ?thesis
      using False rest by (intro exI [of _ "Suc k"] exI [of _ "own @ cs"]) auto
  qed
qed

text \<open>The records marked, in the order of their marks.\<close>

fun marks :: "ff_call list \<Rightarrow> kafka_record list" where
  "marks [] = []"
| "marks (CMark rec # cs) = rec # marks cs"
| "marks (_ # cs) = marks cs"

lemma marks_append [simp]: "marks (cs @ ds) = marks cs @ marks ds"
  by (induction cs rule: marks.induct) simp_all

lemma marks_puts: "list_all (put_to url p) t \<Longrightarrow> marks t = []"
  by (induction t rule: marks.induct) simp_all

lemma marks_groups: "item_groups base is ts \<Longrightarrow> marks (concat ts) = []"
  by (induction base "is" ts rule: item_groups.induct)
    (auto simp: item_attempts_def attempts_def marks_puts split: if_splits)

lemma marks_record: "record_calls base rec cs \<Longrightarrow> marks cs = []"
  by (auto simp: record_calls_def order_calls_def shipment_calls_def marks_groups split: option.splits if_splits)

lemma marks_records: "marked_calls base recs cs \<Longrightarrow> marks cs = recs"
  by (induction recs arbitrary: cs) (auto simp: marks_record)

section \<open>Properties\<close>

text \<open>
  C36. A reservation asks the inventory service at most three times, always for the same product and
  quantity, and stops at the first answer that settles it: a status below 300, or 409, which is taken
  for a success. The reservation succeeds exactly if the last answer settles it; when no request
  fails to be made and no wait is cut short, it fails only after three answers.
\<close>
theorem reservation_attempts:
  "\<exists>t. reserveInventory (recorded env) base p q (w, l) =
      (fst (reserveInventory env base p q w), (snd (reserveInventory env base p q w), l @ t))
    \<and> attempts 3 (reserve_url base p) (reserve_payload q) t
    \<and> (fst (reserveInventory env base p q w) = None \<longleftrightarrow> settled t)
    \<and> (unhindered env \<longrightarrow> settled t \<or> length t = 3)"
  by (rule reserveInventory_calls)

text \<open>An inventory service that answers the statuses of a list, and a shop without anything else.\<close>

definition toy_env :: "int list ff_env" where
  "toy_env = \<lparr>
     newRequest = (\<lambda>m url. None),
     httpPut = (\<lambda>url p w. (Inr (hd w, ''''), tl w)),
     waitOrDone = (\<lambda>d w. (None, w)),
     execSQL = (\<lambda>q xs w. (Inr (7, None), w)),
     produceSync = (\<lambda>rec w. (None, w)),
     markCommit = (\<lambda>rec w. w),
     pollFetches = (\<lambda>w. (closed_poll, w)),
     ctxDone = (\<lambda>w. False),
     nowNanos = (\<lambda>w. 0),
     mysqlNumber = (\<lambda>e. None),
     initTelemetry = (\<lambda>w. (None, w)),
     openDB = (\<lambda>vars w. (None, w)),
     registerMetrics = (\<lambda>w. (None, w)),
     pingDB = (\<lambda>w. (None, w)),
     newKafka = (\<lambda>bs w. (None, w)),
     pingKafka = (\<lambda>w. (None, w)),
     sleepNanos = (\<lambda>d w. w),
     shutdownServer = (\<lambda>w. w),
     commitMarked = (\<lambda>w. w),
     flushProducer = (\<lambda>w. w)\<rparr>"

theorem reservation_attempts_witness:
  "fst (reserveInventory toy_env ''http://inventory'' 5 2 [500, 409]) = None
   \<and> fst (reserveInventory toy_env ''http://inventory'' 5 2 [500, 503, 404, 200]) \<noteq> None
   \<and> (\<exists>t. length t = 3 \<and> snd (reserveInventory (recorded toy_env) ''http://inventory'' 5 2 ([500, 503, 404, 200], []))
        = ([200], t))"
proof -
  have run: "reserveInventory toy_env ''http://inventory'' 5 2 [500, 503, 404, 200]
      = (Some (inventoryError 404 ''''), [200])"
    "fst (reserveInventory toy_env ''http://inventory'' 5 2 [500, 409]) = None"
    by (simp_all add: reserveInventory_def max_attempts toy_env_def)
  have "unhindered toy_env" by (simp add: unhindered_def toy_env_def)
  with run reservation_attempts [of toy_env "''http://inventory''" 5 2 "[500, 503, 404, 200]" "[]"]
  show ?thesis by auto
qed

text \<open>
  C19. The protocol of one order. For every environment, the calls made for a record are: none, if it
  is not the event of a new order; otherwise, for its items in order, the attempts of one reservation
  each, up to and with the first that fails; and only if all of them succeeded, one insert of a
  shipment of that order and, only if that gave an id, one publication of that order and id.
  Recording the calls does not change what is done.
\<close>
theorem order_protocol:
  "\<exists>cs. processRecord (recorded env) base rec (w, l) = (processRecord env base rec w, l @ cs)
     \<and> record_calls base rec cs"
  by (rule processRecord_calls)

text \<open>
  C20. No record is skipped or marked out of order, and the loop returns. For every list of polls, the
  loop returns once the polls are used up, one of them is closed or the context is done; the world it
  leaves is that of processing and marking the records of the polls before that in order, each exactly
  once. The calls are those of the records, each followed by its mark: a record is marked whatever
  became of its order.
\<close>
theorem every_record_marked:
  "\<exists>k cs. consumeLoop (recorded (scripted env)) base ((w, ps), l) =
      Some ((fold (process_and_mark env base) (concat (map ft_records (take k ps))) w, drop (Suc k) ps), l @ cs)
    \<and> marked_calls base (concat (map ft_records (take k ps))) cs
    \<and> marks cs = concat (map ft_records (take k ps))
    \<and> list_all (\<lambda>f. \<not> ft_closed f) (take k ps)
    \<and> (length ps \<le> k \<or> ft_closed (ps ! k)
        \<or> ctxDone env (fold (process_and_mark env base) (concat (map ft_records (take k ps))) w))"
  using consumeLoop_calls [of env base w ps l]
  by (elim exE conjE) (intro exI conjI, assumption+, erule marks_records, assumption+)

end
