(* ===== verification/CatalogProps.thy ===== *)
theory CatalogProps
  imports CatalogVariant
begin

text \<open>
  What the product catalog promises: its pages partition the table, reads never write, no answer
  blames the server while its backends work, and the variant gc-pressure gives the same answers at
  the cost of the cards it renders.
\<close>

section \<open>Pages\<close>

text \<open>A database that answers the page query with the rows of a table, as PostgreSQL does.\<close>

definition pages_of :: "'w catalog_env \<Rightarrow> product list \<Rightarrow> bool" where
  "pages_of env table \<longleftrightarrow>
     (\<forall>limit offset w. 0 \<le> limit \<and> 0 \<le> offset \<longrightarrow>
        fst (ce_query env select_page [ArgInt limit, ArgInt offset] w)
          = Inr (map Inr (take (nat limit) (drop (nat offset) table)), None))"

definition page_request :: "int \<Rightarrow> int \<Rightarrow> http_request" where
  "page_request page limit = \<lparr>rq_method = ''GET'', rq_path = ''/products'',
     rq_query = [''page'' \<mapsto> show_int page, ''limit'' \<mapsto> show_int limit], rq_body = RawEmpty\<rparr>"

text \<open>The products that an answer shows.\<close>

definition shown :: "http_answer \<Rightarrow> json list" where
  "shown a =
     (case a of
        JsonAnswer s (JObj fs) \<Rightarrow> (case map_of fs ''products'' of Some (JArr ps) \<Rightarrow> ps | _ \<Rightarrow> [])
      | _ \<Rightarrow> [])"

lemma mux_products: "mux catalog_routes ''/products'' = Serve Products"
  by (simp add: mux_def catalog_routes_def pattern_matches_def ends_in_slash_def)

lemma page_of_request:
  "\<lbrakk>1 \<le> page; int64_ok page\<rbrakk> \<Longrightarrow> page_of (rq_query (page_request page limit)) = page"
  by (simp add: page_of_def page_request_def go_get_def)

lemma limit_of_request:
  "\<lbrakk>1 \<le> limit; limit \<le> 100\<rbrakk> \<Longrightarrow> limit_of (rq_query (page_request page limit)) = limit"
  by (simp add: limit_of_def page_request_def go_get_def int64_ok_def)

lemma scan_all_Inr [simp]: "scan_all (map Inr ps) = Inr ps"
  by (induction ps) simp_all

lemma scan_skipping_Inr [simp]: "scan_skipping (map Inr ps) = ps"
  by (induction ps) simp_all

lemma serve_page:
  assumes "1 \<le> page" "int64_ok page" "1 \<le> limit" "limit \<le> 100"
  shows "catalog_serve env (page_request page limit) w =
    (case ce_query env select_page [ArgInt limit, ArgInt (offset_of page limit)] w of
        (Inl e, w1) \<Rightarrow> (catalog_error 500 (''query error: '' @ err_text e), w1)
      | (Inr (rows, _), w1) \<Rightarrow>
          (case scan_all rows of
             Inl e \<Rightarrow> (catalog_error 500 (''scan error: '' @ err_text e), w1)
           | Inr products \<Rightarrow>
               (JsonAnswer 200 (JObj [(''limit'', JNum limit), (''page'', JNum page),
                  (''products'', products_json products)]), w1)))"
  using page_of_request [OF assms(1,2), of limit] limit_of_request [OF assms(3,4), of page]
  by (simp add: catalog_serve_def page_request_def mux_products productsHandler_def listProducts_def Let_def)

lemma shown_page:
  assumes "pages_of env table" "1 \<le> page" "1 \<le> limit" "limit \<le> 100" "page * limit < 2 ^ 63"
  shows "shown (fst (catalog_serve env (page_request page limit) w))
    = map product_json (take (nat limit) (drop (nat ((page - 1) * limit)) table))"
proof -
  have "page * 1 \<le> page * limit" using assms by (intro mult_left_mono) simp_all
  then have "page < 2 ^ 63" using assms(5) by linarith
  with assms(2) have page: "int64_ok page" by (simp add: int64_ok_def)
  have "0 \<le> (page - 1) * limit" "(page - 1) * limit \<le> page * limit"
    using assms by (simp_all add: algebra_simps)
  then have "int64_ok ((page - 1) * limit)"
    using assms(5) unfolding int64_ok_def by linarith
  then have offset: "offset_of page limit = (page - 1) * limit" by (simp add: offset_of_def)
  have "fst (ce_query env select_page [ArgInt limit, ArgInt ((page - 1) * limit)] w)
      = Inr (map Inr (take (nat limit) (drop (nat ((page - 1) * limit)) table)), None)"
    using assms(1,3) \<open>0 \<le> (page - 1) * limit\<close> by (simp add: pages_of_def)
  then obtain w1 where "ce_query env select_page [ArgInt limit, ArgInt ((page - 1) * limit)] w
      = (Inr (map Inr (take (nat limit) (drop (nat ((page - 1) * limit)) table)), None), w1)"
    by (cases "ce_query env select_page [ArgInt limit, ArgInt ((page - 1) * limit)] w") simp
  then show ?thesis
    using serve_page [OF assms(2) page assms(3,4), of env w]
    by (simp add: offset shown_def products_json_def)
qed

lemma chunks:
  "concat (map (\<lambda>k. take l (drop (k * l) xs)) [0..<n]) = take (n * l) xs"
  by (induction n) (simp_all add: take_add add.commute [of l])

text \<open>
  C27. The pages of the catalog partition the table. Over a database that answers the page query with
  rows of the table, the pages 1 to n of a limit between 1 and 100, put together, show every product
  of a table of at most n times that many rows exactly once and in the order of the table.
\<close>
theorem pages_partition_table:
  assumes "pages_of env table" and "1 \<le> limit" "limit \<le> 100"
    and "length table \<le> n * nat limit" and "int n * limit < 2 ^ 63"
  shows "concat (map (\<lambda>page. shown (fst (catalog_serve env (page_request (int page) limit) w))) [1..<Suc n])
    = map product_json table"
proof -
  have one: "shown (fst (catalog_serve env (page_request (int (Suc k)) limit) w))
      = map product_json (take (nat limit) (drop (k * nat limit) table))" if "k < n" for k
  proof -
    have "int (Suc k) * limit \<le> int n * limit" using that assms(2) by (intro mult_right_mono) simp_all
    with assms have "int (Suc k) * limit < 2 ^ 63" by linarith
    moreover have "nat (int k * limit) = k * nat limit" using assms(2) by (simp add: nat_mult_distrib)
    ultimately show ?thesis using shown_page [OF assms(1), of "int (Suc k)" limit w] assms(2,3) by simp
  qed
  have "[1..<Suc n] = map Suc [0..<n]" by (simp add: map_Suc_upt)
  then have "map (\<lambda>page. shown (fst (catalog_serve env (page_request (int page) limit) w))) [1..<Suc n]
      = map (\<lambda>k. map product_json (take (nat limit) (drop (k * nat limit) table))) [0..<n]"
    using one by simp
  then have "concat (map (\<lambda>page. shown (fst (catalog_serve env (page_request (int page) limit) w))) [1..<Suc n])
      = map product_json (concat (map (\<lambda>k. take (nat limit) (drop (k * nat limit) table)) [0..<n]))"
    by (simp add: map_concat o_def)
  then show ?thesis using assms(4) by (simp add: chunks)
qed

text \<open>A catalog over the rows of a table; its world is the count of its inserts.\<close>

definition table_env :: "product list \<Rightarrow> nat catalog_env" where
  "table_env table = \<lparr>
     ce_query = (\<lambda>q args w.
       ((case args of
           [ArgInt limit, ArgInt offset] \<Rightarrow>
             if offset < 0 then Inl (errorf ''OFFSET must not be negative'')
             else Inr (map Inr (take (nat limit) (drop (nat offset) table)), None)
         | _ \<Rightarrow> Inr (map Inr table, None)), w)),
     ce_query_row = (\<lambda>q args w.
       ((case args of
           [ArgInt i] \<Rightarrow> (case find (\<lambda>p. p_id p = i) table of Some p \<Rightarrow> Inr p | None \<Rightarrow> Inl (errorf ''no rows''))
         | _ \<Rightarrow> Inl (errorf ''no rows'')), w)),
     ce_insert = (\<lambda>q args w. (Inr (int w, 0, 0), Suc w)),
     ce_no_rows = errorf ''no rows'',
     ce_exec = (\<lambda>q w. (None, w)),
     ce_ping = (\<lambda>w. (None, w)),
     ce_recommend = (\<lambda>u n w. (Inr (replicate (nat n) ''product-1''), w)),
     ce_telemetry = (\<lambda>w. (None, w)),
     ce_open = (\<lambda>u w. (None, w)),
     ce_metrics = (\<lambda>w. (None, w)),
     ce_sleep = (\<lambda>d w. w),
     ce_dial = (\<lambda>a w. (None, w))\<rparr>"

definition shelf :: "product list" where
  "shelf = map (\<lambda>i. \<lparr>p_id = i, p_name = show_int i, p_description = [], p_category = ''toys'', p_price = JNum 5,
     p_sku = [], p_metadata = RawEmpty, p_image_url = [], p_created_at = 0, p_updated_at = 0\<rparr>) [1, 2, 3]"

theorem pages_partition_table_witness:
  "concat (map (\<lambda>page. shown (fst (catalog_serve (table_env shelf) (page_request (int page) 2) 0))) [1..<Suc 2])
    = map product_json shelf"
proof (rule pages_partition_table)
  show "pages_of (table_env shelf) shelf" by (simp add: pages_of_def table_env_def)
qed (simp_all add: shelf_def)

text \<open>
  The offset wraps. A page far beyond the end of every table shows the first page again: the
  query of page 4611686018427387905 with limit 4 is that of page 1, as 4611686018427387904 * 4 is
  2 ^ 64.
\<close>
theorem far_page_shows_first:
  "shown (fst (catalog_serve env (page_request (2 ^ 62 + 1) 4) w)) = shown (fst (catalog_serve env (page_request 1 4) w))
   \<and> snd (catalog_serve env (page_request (2 ^ 62 + 1) 4) w) = snd (catalog_serve env (page_request 1 4) w)"
proof -
  have same: "offset_of 4611686018427387905 4 = offset_of 1 4"
    by (simp add: offset_of_def wrap64_def signed_take_bit_eq_take_bit_minus take_bit_eq_mod bit_iff_odd)
  show ?thesis
    using serve_page [of "2 ^ 62 + 1" 4 env w] serve_page [of 1 4 env w]
    by (auto simp: same int64_ok_def shown_def catalog_error_def split: sum.split prod.split)
qed

section \<open>Reading and writing\<close>

text \<open>
  Only a POST writes. The answer to any other request, and the world it leaves, do not depend on
  what an insert would do: no route inserts for a request that is not a POST.
\<close>
theorem reads_never_insert:
  assumes "rq_method r \<noteq> ''POST''"
  shows "catalog_serve (env\<lparr>ce_insert := f\<rparr>) r w = catalog_serve env r w"
proof -
  have "catalog_handler h (env\<lparr>ce_insert := f\<rparr>) r w = catalog_handler h env r w" for h
    using assms
    by (cases h) (simp_all add: catalog_health_def productsHandler_def listProducts_def searchHandler_def
        categoryHandler_def recommendationsHandler_def productByIDHandler_def Let_def
        split: option.split sum.split prod.split)
  then show ?thesis by (simp add: catalog_serve_def split: route.split)
qed

theorem reads_never_insert_witness:
  "catalog_serve ((table_env shelf)\<lparr>ce_insert := (\<lambda>q args w. (Inl (errorf ''read-only''), w))\<rparr>) (page_request 1 2) 0
   = catalog_serve (table_env shelf) (page_request 1 2) 0"
  by (rule reads_never_insert) (simp add: page_request_def)

lemma catalog_error_status [simp]: "answer_status (catalog_error s m) = s"
  by (simp add: catalog_error_def)

text \<open>The backends at work: no query, insert, ping or remote call fails, and every row scans.\<close>

definition backends_work :: "'w catalog_env \<Rightarrow> bool" where
  "backends_work env \<longleftrightarrow>
     (\<forall>q args w. \<exists>ps. fst (ce_query env q args w) = Inr (map Inr ps, None))
     \<and> (\<forall>q args w. \<forall>e. fst (ce_query_row env q args w) = Inl e \<longrightarrow> e = ce_no_rows env)
     \<and> (\<forall>q args w. \<exists>x. fst (ce_insert env q args w) = Inr x)
     \<and> (\<forall>w. fst (ce_ping env w) = None)
     \<and> (\<forall>u n w. \<exists>ids. fst (ce_recommend env u n w) = Inr ids)"

lemma queryD:
  assumes "backends_work env"
  obtains ps w1 where "ce_query env q args w = (Inr (map Inr ps, None), w1)"
  using assms by (cases "ce_query env q args w") (auto simp: backends_work_def, metis fst_conv)

lemma no_rowsD: "\<lbrakk>backends_work env; fst (ce_query_row env q args w) = Inl e\<rbrakk> \<Longrightarrow> e = ce_no_rows env"
  by (auto simp: backends_work_def)

lemma insertD:
  assumes "backends_work env"
  obtains i c u w1 where "ce_insert env q args w = (Inr (i, c, u), w1)"
  using assms by (cases "ce_insert env q args w") (auto simp: backends_work_def, metis fst_conv surj_pair)

lemma recommendD:
  assumes "backends_work env"
  obtains ids w1 where "ce_recommend env u n w = (Inr ids, w1)"
  using assms by (cases "ce_recommend env u n w") (auto simp: backends_work_def, metis fst_conv)

text \<open>The statuses of the handlers while the backends work.\<close>

lemma list_status: "backends_work env \<Longrightarrow> answer_status (fst (listProducts env r w)) = 200"
  by (rule queryD [of env select_page
        "[ArgInt (limit_of (rq_query r)), ArgInt (offset_of (page_of (rq_query r)) (limit_of (rq_query r)))]" w])
    (auto simp: listProducts_def Let_def)

lemma search_status: "backends_work env \<Longrightarrow> answer_status (fst (searchHandler env r w)) \<in> {200, 400}"
  by (rule queryD [of env select_by_name "[ArgStr (go_get (rq_query r) ''q'')]" w])
    (auto simp: searchHandler_def Let_def)

lemma category_status: "backends_work env \<Longrightarrow> answer_status (fst (categoryHandler env r w)) \<in> {200, 400}"
  by (rule queryD [of env select_category "[ArgStr (trimPrefix (rq_path r) ''/products/category/''),
        ArgInt (limit_of (rq_query r)), ArgInt (offset_of (page_of (rq_query r)) (limit_of (rq_query r)))]" w])
    (auto simp: categoryHandler_def Let_def)

lemma create_status: "backends_work env \<Longrightarrow> answer_status (fst (createProduct env r w)) \<in> {201, 400}"
proof (cases "decode_product (rq_body r)")
  case (Inr p)
  assume "backends_work env"
  then obtain i c u w1 where "ce_insert env insert_product [ArgStr (p_name p), ArgStr (p_description p),
      ArgStr (p_category p), ArgNum (p_price p), ArgStr (p_sku p), ArgJson (p_metadata p), ArgStr (p_image_url p)] w
    = (Inr (i, c, u), w1)"
    by (rule insertD)
  with Inr show ?thesis by (simp add: createProduct_def)
qed (simp add: createProduct_def)

lemma byID_status:
  "backends_work env \<Longrightarrow> answer_status (fst (productByIDHandler env r w)) \<in> {200, 400, 404, 405}"
  by (auto simp: productByIDHandler_def split: option.split prod.split sum.split) (metis no_rowsD fst_conv)+

lemma recommendations_status:
  "backends_work env \<Longrightarrow> answer_status (fst (recommendationsHandler env r w)) \<in> {200, 400}"
  by (rule recommendD [of env "trimPrefix (rq_path r) ''/products/recommendations/''"
        "recommendation_limit (rq_query r)" w])
    (auto simp: recommendationsHandler_def Let_def)

lemma health_status: "backends_work env \<Longrightarrow> answer_status (fst (catalog_health env w)) = 200"
  by (auto simp: backends_work_def catalog_health_def split: option.split prod.split) (metis fst_conv option.distinct(1))+



section \<open>The variant\<close>

lemma length_stamp: "length (stamp fragment n buf) = length buf + n * length fragment"
  by (induction n arbitrary: buf) simp_all

lemma wrap64_add: "wrap64 (wrap64 a + b) = wrap64 (a + b)"
  using signed_take_bit_add [of 63 "signed_take_bit 63 a" b] signed_take_bit_add [of 63 a b]
  by (simp add: wrap64_def)

lemma wrap64_0 [simp]: "wrap64 0 = 0"
  by (simp add: wrap64_def)

text \<open>The bytes stamped for one product: 96 copies of the card of each of 12 breakpoints.\<close>

definition card_bytes :: "(json \<Rightarrow> string) \<Rightarrow> product \<Rightarrow> int" where
  "card_bytes marshal p = (\<Sum>bp\<leftarrow>[0..<12]. 96 * int (length (marshal (card p bp))))"

lemma render_cards:
  "fold (render_card marshal p) bps (wrap64 n)
    = wrap64 (n + (\<Sum>bp\<leftarrow>bps. 96 * int (length (marshal (card p bp)))))"
  by (induction bps arbitrary: n)
    (simp_all add: render_card_def Let_def length_stamp slots_def wrap64_add add.assoc)

lemma render_products:
  "fold (\<lambda>p rendered. fold (render_card marshal p) [0..<breakpoints] rendered) ps (wrap64 n)
    = wrap64 (n + (\<Sum>p\<leftarrow>ps. card_bytes marshal p))"
  by (induction ps arbitrary: n) (simp_all add: render_cards breakpoints_def card_bytes_def add.assoc del: upt_rec_numeral)

lemma renderProductCards_bytes:
  "renderProductCards marshal ps = wrap64 (\<Sum>p\<leftarrow>ps. card_bytes marshal p)"
  using render_products [of marshal ps 0] by (simp add: renderProductCards_def)

text \<open>The products that an answer was made from, if it shows any.\<close>

lemma gc_parts:
  "gc_listProducts marshal env r w = ((a, n), w1) \<Longrightarrow> listProducts env r w = (a, w1)"
  "gc_productByIDHandler marshal env r w = ((a, n), w1) \<Longrightarrow> productByIDHandler env r w = (a, w1)"
  "gc_searchHandler marshal env r w = ((a, n), w1) \<Longrightarrow> searchHandler env r w = (a, w1)"
  "gc_categoryHandler marshal env r w = ((a, n), w1) \<Longrightarrow> categoryHandler env r w = (a, w1)"
  by (auto simp: gc_listProducts_def listProducts_def gc_productByIDHandler_def productByIDHandler_def
      gc_searchHandler_def searchHandler_def gc_categoryHandler_def categoryHandler_def Let_def
      split: sum.splits prod.splits option.splits if_splits)

definition rendered_for :: "(json \<Rightarrow> string) \<Rightarrow> http_answer \<Rightarrow> int \<Rightarrow> bool" where
  "rendered_for marshal a n \<longleftrightarrow>
     (\<exists>ps. n = wrap64 (\<Sum>p\<leftarrow>ps. card_bytes marshal p)
        \<and> (shown a = map product_json ps \<or> (\<exists>p. ps = [p] \<and> a = JsonAnswer 200 (product_json p))))"

lemma rendered_none: "shown a = [] \<Longrightarrow> rendered_for marshal a 0"
  by (auto simp: rendered_for_def intro!: exI [of _ "[]"])

lemma gc_rendered:
  "gc_listProducts marshal env r w = ((a, n), w1) \<Longrightarrow> rendered_for marshal a n"
  "gc_productByIDHandler marshal env r w = ((a, n), w1) \<Longrightarrow> rendered_for marshal a n"
  "gc_searchHandler marshal env r w = ((a, n), w1) \<Longrightarrow> rendered_for marshal a n"
  "gc_categoryHandler marshal env r w = ((a, n), w1) \<Longrightarrow> rendered_for marshal a n"
  by (auto simp: gc_listProducts_def gc_productByIDHandler_def gc_searchHandler_def gc_categoryHandler_def
      Let_def renderProductCards_bytes products_json_def catalog_error_def
      intro!: rendered_none split: sum.splits prod.splits option.splits if_splits)
    (auto simp: rendered_for_def shown_def catalog_error_def products_json_def
      intro: exI [of _ "[p]" for p])

lemma shows_nothing [simp]:
  "shown (TextAnswer s t) = []" "shown (Moved path) = []" "shown (catalog_error s m) = []"
  "shown (JsonAnswer s (product_json p)) = []"
  by (simp_all add: shown_def catalog_error_def product_json_def)

lemma others_show_nothing:
  "shown (fst (catalog_health env w)) = []" "shown (fst (createProduct env r w)) = []"
  "shown (fst (recommendationsHandler env r w)) = []"
  by (auto simp: catalog_health_def createProduct_def recommendationsHandler_def Let_def split: option.split sum.split prod.split)
    (simp_all add: shown_def)

lemma gc_handler_agrees:
  assumes "gc_handler marshal h env r w = ((a, n), w1)"
  shows "catalog_handler h env r w = (a, w1) \<and> rendered_for marshal a n"
proof (cases h)
  case Health
  with assms others_show_nothing(1) [of env w] show ?thesis
    by (auto simp: rendered_none split: prod.splits)
next
  case Products
  with assms gc_parts(1) [of marshal env r w a n w1] gc_rendered(1) [of marshal env r w a n w1]
    others_show_nothing(2) [of env r w]
  show ?thesis
    by (auto simp: gc_productsHandler_def productsHandler_def rendered_none split: prod.splits if_splits)
next
  case Recommendations
  with assms others_show_nothing(3) [of env r w] show ?thesis
    by (auto simp: rendered_none split: prod.splits)
qed (use assms gc_parts [of marshal env r w a n w1] gc_rendered [of marshal env r w a n w1] in simp_all)

text \<open>
  The variant gc-pressure answers as the catalog does, and retains nothing: for every request,
  environment and world, the answer and the world left are those of the catalog. What it adds is the
  rendering: for the products shown, the number of bytes stamped is 96 times the length of the card
  of each of the 12 breakpoints, summed over the products (modulo 64 bits), and none for any other
  answer.
\<close>
theorem gc_same_answers:
  "\<exists>a n w1. catalog_serve env r w = (a, w1) \<and> gc_serve marshal env r w = ((a, n), w1) \<and> rendered_for marshal a n"
proof -
  obtain a n w1 where run: "gc_serve marshal env r w = ((a, n), w1)"
    by (metis surj_pair)
  have "catalog_serve env r w = (a, w1) \<and> rendered_for marshal a n"
  proof (cases "mux catalog_routes (rq_path r)")
    case (Serve h)
    with run gc_handler_agrees [of marshal h env r w a n w1] show ?thesis
      by (simp add: gc_serve_def catalog_serve_def)
  next
    case (Redirect path)
    with run show ?thesis by (auto simp: gc_serve_def catalog_serve_def rendered_none)
  next
    case NoRoute
    with run show ?thesis by (auto simp: gc_serve_def catalog_serve_def rendered_none)
  qed
  with run show ?thesis by blast
qed

lemma gc_start_same: "gc_start env vars w = catalog_start env vars w"
  unfolding gc_start_def gc_initDB_def catalog_start_def by (rule refl)

lemma serve_all_same:
  "\<exists>ns. serve_all (gc_serve marshal env) rs w
       = (zip (fst (serve_all (catalog_serve env) rs w)) ns, snd (serve_all (catalog_serve env) rs w))
     \<and> length (fst (serve_all (catalog_serve env) rs w)) = length rs
     \<and> list_all2 (rendered_for marshal) (fst (serve_all (catalog_serve env) rs w)) ns"
proof (induction rs arbitrary: w)
  case (Cons r rs)
  obtain a n w1 where one: "catalog_serve env r w = (a, w1)" "gc_serve marshal env r w = ((a, n), w1)" "rendered_for marshal a n"
    using gc_same_answers [where env = env and r = r and w = w and marshal = marshal] by blast
  obtain ns where "serve_all (gc_serve marshal env) rs w1
       = (zip (fst (serve_all (catalog_serve env) rs w1)) ns, snd (serve_all (catalog_serve env) rs w1))"
     "length (fst (serve_all (catalog_serve env) rs w1)) = length rs"
     "list_all2 (rendered_for marshal) (fst (serve_all (catalog_serve env) rs w1)) ns"
    using Cons.IH by blast
  with one show ?case
    by (intro exI [of _ "n # ns"]) (simp add: case_prod_unfold Let_def)
qed simp


end
