(* ===== verification/Recommendation.thy ===== *)
theory Recommendation
  imports CatalogProps
begin

text \<open>
  The recommendation service (services/recommendation-service/main.go), its variant memory-leak
  (variants/memory-leak/src/main.go), and their composition with the product catalog, whose remote
  call they answer. The random source, the clock and the listener are a record of functions over an
  arbitrary world; the transport (gRPC) is not modelled.
\<close>

section \<open>The service\<close>

record 'w rec_env =
  re_intn :: "int \<Rightarrow> 'w \<Rightarrow> int \<times> 'w"
  re_bytes :: "nat \<Rightarrow> 'w \<Rightarrow> string \<times> 'w"
  re_now :: "'w \<Rightarrow> int"
  re_telemetry :: "'w \<Rightarrow> go_error option \<times> 'w"
  re_listen :: "string \<Rightarrow> 'w \<Rightarrow> go_error option \<times> 'w"

record rec_request =
  rr_user :: string
  rr_limit :: int

definition product_ref :: "int \<Rightarrow> string" where
  "product_ref n = ''product-'' @ show_int n"

fun fill_ids :: "'w rec_env \<Rightarrow> nat \<Rightarrow> 'w \<Rightarrow> string list \<times> 'w" where
  "fill_ids env 0 w = ([], w)"
| "fill_ids env (Suc n) w =
     (let (k, w1) = re_intn env 100000 w; (ids, w2) = fill_ids env n w1 in (product_ref k # ids, w2))"

definition server_limit :: "int \<Rightarrow> int" where
  "server_limit limit = (if limit \<le> 0 \<or> limit > 50 then 10 else limit)"

definition GetRecommendations :: "'w rec_env \<Rightarrow> rec_request \<Rightarrow> 'w \<Rightarrow> string list \<times> 'w" where
  "GetRecommendations env req w = fill_ids env (nat (server_limit (rr_limit req))) w"

text \<open>The program up to its serving: whether it serves, or has exited with status 1.\<close>

definition rec_start :: "'w rec_env \<Rightarrow> (string \<rightharpoonup> string) \<Rightarrow> 'w \<Rightarrow> bool \<times> 'w" where
  "rec_start env vars w =
     (case re_telemetry env w of
        (Some e, w1) \<Rightarrow> (False, w1)
      | (None, w1) \<Rightarrow>
          (let a = go_get vars ''LISTEN_ADDR''; addr = (if a = [] then '':9000'' else a) in
           case re_listen env addr w1 of (Some e, w2) \<Rightarrow> (False, w2) | (None, w2) \<Rightarrow> (True, w2)))"

section \<open>The variant memory-leak\<close>

text \<open>The second part of the world is the map of leaked profiles; its lock makes the update one step.\<close>

definition profile_size :: nat where "profile_size = 256 * 1024"

definition profile_key :: "string \<Rightarrow> int \<Rightarrow> string" where
  "profile_key user nanos = user @ ''-'' @ show_int nanos"

definition leak_GetRecommendations ::
  "'w rec_env \<Rightarrow> rec_request \<Rightarrow> 'w \<times> (string \<rightharpoonup> string) \<Rightarrow> string list \<times> 'w \<times> (string \<rightharpoonup> string)" where
  "leak_GetRecommendations env req s =
     (let (w, leaked) = s;
          limit = server_limit (rr_limit req);
          (profile, w1) = re_bytes env profile_size w;
          key = profile_key (rr_user req) (re_now env w1);
          leaked' = leaked(key \<mapsto> profile);
          (ids, w2) = fill_ids env (nat limit) w1
      in (ids, (w2, leaked')))"

text \<open>The variant's start is the service's text.\<close>

definition leak_start :: "'w rec_env \<Rightarrow> (string \<rightharpoonup> string) \<Rightarrow> 'w \<Rightarrow> bool \<times> 'w" where
  "leak_start env vars w =
     (case re_telemetry env w of
        (Some e, w1) \<Rightarrow> (False, w1)
      | (None, w1) \<Rightarrow>
          (let a = go_get vars ''LISTEN_ADDR''; addr = (if a = [] then '':9000'' else a) in
           case re_listen env addr w1 of (Some e, w2) \<Rightarrow> (False, w2) | (None, w2) \<Rightarrow> (True, w2)))"

lemma leak_start_same: "leak_start = rec_start"
  unfolding leak_start_def rec_start_def by (rule refl)

section \<open>Answering the catalog\<close>

text \<open>The catalog with the service behind its remote call.\<close>

definition recommended_by :: "'w rec_env \<Rightarrow> 'w catalog_env \<Rightarrow> 'w catalog_env" where
  "recommended_by renv env =
     env\<lparr>ce_recommend := (\<lambda>user limit w.
       let (ids, w1) = GetRecommendations renv \<lparr>rr_user = user, rr_limit = limit\<rparr> w in (Inr ids, w1))\<rparr>"

text \<open>A random source that stays in its range, as \<^verbatim>\<open>rand.Intn\<close> does.\<close>

definition in_range :: "'w rec_env \<Rightarrow> bool" where
  "in_range env \<longleftrightarrow> (\<forall>n w. 0 < n \<longrightarrow> 0 \<le> fst (re_intn env n w) \<and> fst (re_intn env n w) < n)"

definition is_product_ref :: "string \<Rightarrow> bool" where
  "is_product_ref s \<longleftrightarrow> (\<exists>k. 0 \<le> k \<and> k < 100000 \<and> s = product_ref k)"

lemma fill_ids_spec:
  "length (fst (fill_ids env n w)) = n
   \<and> (in_range env \<longrightarrow> list_all is_product_ref (fst (fill_ids env n w)))"
proof (induction n arbitrary: w)
  case (Suc n)
  have "0 \<le> fst (re_intn env 100000 w) \<and> fst (re_intn env 100000 w) < 100000" if "in_range env"
    using that by (simp add: in_range_def)
  with Suc.IH [of "snd (re_intn env 100000 w)"] show ?case
    by (auto simp: case_prod_unfold Let_def is_product_ref_def)
qed simp

lemma recommendation_limit_range:
  "1 \<le> recommendation_limit q" "recommendation_limit q \<le> 50"
  by (auto simp: recommendation_limit_def split: option.split)

lemma server_keeps_limit [simp]: "server_limit (recommendation_limit q) = recommendation_limit q"
  using recommendation_limit_range [of q] by (simp add: server_limit_def)

definition recommendation_request :: "string \<Rightarrow> (string \<rightharpoonup> string) \<Rightarrow> http_request" where
  "recommendation_request user query = \<lparr>rq_method = ''GET'', rq_path = ''/products/recommendations/'' @ user,
     rq_query = query, rq_body = RawEmpty\<rparr>"

lemma serve_recommendations:
  "catalog_serve env (recommendation_request user query) w
    = recommendationsHandler env (recommendation_request user query) w"
proof -
  have "mux catalog_routes (rq_path (recommendation_request user query)) = Serve Recommendations"
    by (simp add: mux_def catalog_routes_def pattern_matches_def ends_in_slash_def recommendation_request_def)
  then show ?thesis by (simp add: catalog_serve_def)
qed

lemma asked_user: "trimPrefix (rq_path (recommendation_request user query)) ''/products/recommendations/'' = user"
  by (simp add: recommendation_request_def trimPrefix_def hasPrefix_def)

lemma query_asked: "rq_query (recommendation_request user query) = query"
  by (simp add: recommendation_request_def)

section \<open>The contract of the remote call\<close>

text \<open>
  What the catalog relies on: a call with a limit between 1 and 50 is answered, with that many ids.
  The catalog's lemma is proved from this law alone.
\<close>

locale recommender =
  fixes recommend :: "string \<Rightarrow> int \<Rightarrow> 'w \<Rightarrow> (go_error + string list) \<times> 'w"
  assumes answers: "\<lbrakk>1 \<le> limit; limit \<le> 50\<rbrakk> \<Longrightarrow>
    \<exists>ids w1. recommend user limit w = (Inr ids, w1) \<and> int (length ids) = limit"
begin

lemma shown_as_asked:
  assumes "user \<noteq> []" "CHR ''/'' \<notin> set user"
  shows "\<exists>ids w1. catalog_serve (env\<lparr>ce_recommend := recommend\<rparr>) (recommendation_request user query) w
      = (JsonAnswer 200 (JObj [(''product_ids'', JArr (map JStr ids)), (''user_id'', JStr user)]), w1)
    \<and> recommend user (recommendation_limit query) w = (Inr ids, w1)
    \<and> int (length ids) = recommendation_limit query"
proof -
  obtain ids w1 where ids: "recommend user (recommendation_limit query) w = (Inr ids, w1)"
    "int (length ids) = recommendation_limit query"
    using answers recommendation_limit_range by blast
  have "ids \<noteq> []" using ids(2) recommendation_limit_range(1) [of query] by auto
  with ids assms show ?thesis
    by (intro exI [of _ ids] exI [of _ w1])
      (simp add: serve_recommendations recommendationsHandler_def asked_user query_asked ids_json_def)
qed

end

text \<open>The service and its variant keep the contract.\<close>

definition service_call :: "'w rec_env \<Rightarrow> string \<Rightarrow> int \<Rightarrow> 'w \<Rightarrow> (go_error + string list) \<times> 'w" where
  "service_call renv user limit w =
     (let (ids, w1) = GetRecommendations renv \<lparr>rr_user = user, rr_limit = limit\<rparr> w in (Inr ids, w1))"

definition leak_call ::
  "'w rec_env \<Rightarrow> string \<Rightarrow> int \<Rightarrow> 'w \<times> (string \<rightharpoonup> string) \<Rightarrow> (go_error + string list) \<times> 'w \<times> (string \<rightharpoonup> string)" where
  "leak_call renv user limit s =
     (let (ids, s1) = leak_GetRecommendations renv \<lparr>rr_user = user, rr_limit = limit\<rparr> s in (Inr ids, s1))"

interpretation service: recommender "service_call renv"
proof
  fix limit :: int and user w
  assume "1 \<le> limit" "limit \<le> 50"
  with fill_ids_spec [of renv "nat limit" w]
  show "\<exists>ids w1. service_call renv user limit w = (Inr ids, w1) \<and> int (length ids) = limit"
    by (simp add: service_call_def GetRecommendations_def server_limit_def case_prod_unfold Let_def)
qed

interpretation leaking: recommender "leak_call renv"
proof
  fix limit :: int and user and s :: "'a \<times> (string \<rightharpoonup> string)"
  assume "1 \<le> limit" "limit \<le> 50"
  with fill_ids_spec [of renv "nat limit" "snd (re_bytes renv profile_size (fst s))"]
  show "\<exists>ids w1. leak_call renv user limit s = (Inr ids, w1) \<and> int (length ids) = limit"
    by (simp add: leak_call_def leak_GetRecommendations_def server_limit_def case_prod_unfold Let_def)
qed

lemma recommended_by_call: "recommended_by renv env = env\<lparr>ce_recommend := service_call renv\<rparr>"
  by (simp add: recommended_by_def service_call_def fun_eq_iff)

text \<open>With the variant behind the call, the catalog's answer has as many ids; what differs is the leak.\<close>

lemma leaking_as_asked:
  "\<lbrakk>user \<noteq> []; CHR ''/'' \<notin> set user\<rbrakk> \<Longrightarrow>
   \<exists>ids w1. catalog_serve (env\<lparr>ce_recommend := leak_call renv\<rparr>) (recommendation_request user query) w
      = (JsonAnswer 200 (JObj [(''product_ids'', JArr (map JStr ids)), (''user_id'', JStr user)]), w1)
    \<and> int (length ids) = recommendation_limit query"
  using leaking.shown_as_asked [of user renv env query w] by blast

text \<open>
  The catalog and the recommendation service agree on the limit. With the service behind the
  remote call, a request for the recommendations of a user without a slash in the name is answered
  with exactly as many ids as the limit that the catalog asks for (the query's, if it is between 1
  and 50, or 10), each the reference of a product below 100000: the service never replaces that limit
  by its own.
\<close>
theorem recommendations_as_asked:
  assumes "in_range renv" and "user \<noteq> []" "CHR ''/'' \<notin> set user"
  shows "\<exists>ids. fst (catalog_serve (recommended_by renv env) (recommendation_request user query) w)
      = JsonAnswer 200 (JObj [(''product_ids'', JArr (map JStr ids)), (''user_id'', JStr user)])
    \<and> int (length ids) = recommendation_limit query \<and> list_all is_product_ref ids"
proof -
  obtain ids w1 where ids: "catalog_serve (recommended_by renv env) (recommendation_request user query) w
      = (JsonAnswer 200 (JObj [(''product_ids'', JArr (map JStr ids)), (''user_id'', JStr user)]), w1)"
    "service_call renv user (recommendation_limit query) w = (Inr ids, w1)"
    "int (length ids) = recommendation_limit query"
    using service.shown_as_asked [OF assms(2,3), of renv env query w] by (auto simp: recommended_by_call)
  have "ids = fst (fill_ids renv (nat (recommendation_limit query)) w)"
    using ids(2) by (simp add: service_call_def GetRecommendations_def case_prod_unfold Let_def)
  then have "list_all is_product_ref ids"
    using fill_ids_spec [of renv "nat (recommendation_limit query)" w] assms(1) by simp
  with ids show ?thesis by auto
qed

text \<open>A source that counts: its world is the next number, which is also the time.\<close>

definition counting :: "nat rec_env" where
  "counting = \<lparr>re_intn = (\<lambda>n w. (int w mod n, Suc w)), re_bytes = (\<lambda>n w. (replicate n (CHR ''x''), Suc w)),
     re_now = int, re_telemetry = (\<lambda>w. (None, w)), re_listen = (\<lambda>a w. (None, w))\<rparr>"

theorem recommendations_as_asked_witness:
  "\<exists>ids. fst (catalog_serve (recommended_by counting (table_env shelf))
        (recommendation_request ''u7'' [''limit'' \<mapsto> show_int 3]) 5)
      = JsonAnswer 200 (JObj [(''product_ids'', JArr (map JStr ids)), (''user_id'', JStr ''u7'')])
    \<and> length ids = 3"
proof -
  have "in_range counting" by (simp add: in_range_def counting_def)
  moreover have "recommendation_limit [''limit'' \<mapsto> show_int 3] = 3"
    using atoi_show_int [of 3] by (simp add: recommendation_limit_def go_get_def int64_ok_def)
  ultimately show ?thesis
    using recommendations_as_asked [of counting "''u7''" "table_env shelf" "[''limit'' \<mapsto> show_int 3]" 5] by force
qed

section \<open>The leak\<close>

text \<open>A clock that does not go back, and that moves on while a profile is filled.\<close>

definition clock_moves :: "'w rec_env \<Rightarrow> bool" where
  "clock_moves env \<longleftrightarrow>
     (\<forall>n w. re_now env w \<le> re_now env (snd (re_intn env n w)))
     \<and> (\<forall>n w. re_now env w < re_now env (snd (re_bytes env n w)))
     \<and> (\<forall>w. 0 \<le> re_now env w)"

definition fills :: "'w rec_env \<Rightarrow> bool" where
  "fills env \<longleftrightarrow> (\<forall>n w. length (fst (re_bytes env n w)) = n)"

text \<open>The world after requests, and the bytes of the profiles that it retains.\<close>

definition leak_run :: "'w rec_env \<Rightarrow> rec_request list \<Rightarrow> 'w \<times> (string \<rightharpoonup> string) \<Rightarrow> 'w \<times> (string \<rightharpoonup> string)" where
  "leak_run env reqs s = fold (\<lambda>req s. snd (leak_GetRecommendations env req s)) reqs s"

definition retained :: "(string \<rightharpoonup> string) \<Rightarrow> nat" where
  "retained m = (\<Sum>k\<in>dom m. length (the (m k)))"

lemma fill_ids_clock:
  "clock_moves env \<Longrightarrow> re_now env w \<le> re_now env (snd (fill_ids env n w))"
  by (induction n arbitrary: w)
    (auto simp: Let_def clock_moves_def split: prod.split, metis order_trans snd_conv)

lemma digits_after_dash:
  assumes "u @ ''-'' @ s = v @ ''-'' @ t" "CHR ''-'' \<notin> set s" "CHR ''-'' \<notin> set t"
  shows "s = t"
proof -
  have "rev s @ ''-'' @ rev u = rev t @ ''-'' @ rev v"
    using assms(1) by (metis append.assoc rev_append rev_singleton_conv)
  then have "takeWhile (\<lambda>c. c \<noteq> CHR ''-'') (rev s @ CHR ''-'' # rev u)
      = takeWhile (\<lambda>c. c \<noteq> CHR ''-'') (rev t @ CHR ''-'' # rev v)" by simp
  then have "rev s = rev t" using assms(2,3) by (simp add: takeWhile_sep)
  then show ?thesis by simp
qed

lemma profile_key_time:
  assumes "profile_key u i = profile_key v j" "0 \<le> i" "0 \<le> j"
  shows "i = j"
proof -
  have digits: "CHR ''-'' \<notin> set (show_nat n)" for n
    by (metis show_nat_digits is_digit_not_sign)
  have "u @ ''-'' @ show_nat (nat i) = v @ ''-'' @ show_nat (nat j)"
    using assms by (simp only: profile_key_def show_int_def not_less [symmetric] if_False)
  from digits_after_dash [OF this digits digits] have "show_nat (nat i) = show_nat (nat j)" .
  then have "nat i = nat j" by (metis digits_val_show_nat)
  with assms show ?thesis by simp
qed

text \<open>Every key was made no later than now.\<close>

definition past_keys :: "'w rec_env \<Rightarrow> 'w \<Rightarrow> (string \<rightharpoonup> string) \<Rightarrow> bool" where
  "past_keys env w m \<longleftrightarrow>
     finite (dom m) \<and> (\<forall>k\<in>dom m. \<exists>u t. k = profile_key u t \<and> 0 \<le> t \<and> t \<le> re_now env w)"

lemma retained_new: "\<lbrakk>finite (dom m); k \<notin> dom m\<rbrakk> \<Longrightarrow> retained (m(k \<mapsto> v)) = retained m + length v"
  by (simp add: retained_def) (rule sum.cong, auto)

lemma leak_step:
  assumes "clock_moves env" "fills env" "past_keys env w m"
  obtains ids w2 k v where "leak_GetRecommendations env req (w, m) = (ids, (w2, m(k \<mapsto> v)))"
    "k \<notin> dom m" "length v = profile_size" "past_keys env w2 (m(k \<mapsto> v))"
proof -
  obtain v w1 where b: "re_bytes env profile_size w = (v, w1)" by (cases "re_bytes env profile_size w")
  obtain ids w2 where f: "fill_ids env (nat (server_limit (rr_limit req))) w1 = (ids, w2)"
    by (cases "fill_ids env (nat (server_limit (rr_limit req))) w1")
  let ?k = "profile_key (rr_user req) (re_now env w1)"
  have now: "re_now env w < re_now env w1" "0 \<le> re_now env w1"
    using assms(1) b by (auto simp: clock_moves_def) (metis snd_conv)
  have later: "re_now env w1 \<le> re_now env w2"
    using fill_ids_clock [OF assms(1), of w1] f by (metis snd_conv)
  have fresh: "?k \<notin> dom m"
  proof
    assume "?k \<in> dom m"
    then obtain u t where t: "?k = profile_key u t" "0 \<le> t" "t \<le> re_now env w"
      using assms(3) unfolding past_keys_def by blast
    with now profile_key_time [OF t(1)] show False by simp
  qed
  have "leak_GetRecommendations env req (w, m) = (ids, (w2, m(?k \<mapsto> v)))"
    using b f by (simp add: leak_GetRecommendations_def Let_def)
  moreover have "length v = profile_size" using assms(2) b by (simp add: fills_def) (metis fst_conv)
  moreover have "past_keys env w2 (m(?k \<mapsto> v))"
    unfolding past_keys_def
  proof (intro conjI ballI)
    show "finite (dom (m(?k \<mapsto> v)))" using assms(3) by (simp add: past_keys_def)
  next
    fix k
    assume "k \<in> dom (m(?k \<mapsto> v))"
    then consider "k = ?k" | "k \<in> dom m" by (auto split: if_splits)
    then show "\<exists>u t. k = profile_key u t \<and> 0 \<le> t \<and> t \<le> re_now env w2"
    proof cases
      case 1
      with now later show ?thesis by blast
    next
      case 2
      then obtain u t where "k = profile_key u t" "0 \<le> t" "t \<le> re_now env w"
        using assms(3) unfolding past_keys_def by blast
      moreover from this now later have "t \<le> re_now env w2" by linarith
      ultimately show ?thesis by blast
    qed
  qed
  ultimately show ?thesis using that fresh by blast
qed

lemma leak_run_grows:
  assumes "clock_moves env" "fills env" "past_keys env w m"
  shows "retained (snd (leak_run env reqs (w, m))) = retained m + profile_size * length reqs
    \<and> m \<subseteq>\<^sub>m snd (leak_run env reqs (w, m))"
  using assms(3)
proof (induction reqs arbitrary: w m)
  case Nil
  then show ?case by (simp add: leak_run_def)
next
  case (Cons req reqs)
  obtain ids w2 k v where step: "leak_GetRecommendations env req (w, m) = (ids, (w2, m(k \<mapsto> v)))"
    "k \<notin> dom m" "length v = profile_size" "past_keys env w2 (m(k \<mapsto> v))"
    using leak_step [OF assms(1,2) Cons.prems] by blast
  have "m \<subseteq>\<^sub>m m(k \<mapsto> v)" using step(2) by (auto simp: map_le_def)
  moreover have "leak_run env (req # reqs) (w, m) = leak_run env reqs (w2, m(k \<mapsto> v))"
    using step(1) by (simp add: leak_run_def)
  moreover have "retained (m(k \<mapsto> v)) = retained m + profile_size"
    using retained_new [of m k v] step(2,3) Cons.prems by (simp add: past_keys_def)
  ultimately show ?case
    using Cons.IH [OF step(4)] by (simp add: algebra_simps del: fun_upd_apply) (metis map_le_trans)
qed

text \<open>
  The variant memory-leak retains 256 KiB for every request and never gives any back. With a
  clock that moves on and a random source that fills the profile, the map after n requests to a fresh
  service holds exactly 262144 * n bytes: the keys never collide, and no step removes one.
\<close>
theorem leak_retains_every_profile:
  assumes "clock_moves env" and "fills env"
  shows "retained (snd (leak_run env reqs (w, Map.empty))) = 262144 * length reqs"
  using leak_run_grows [OF assms, of w Map.empty reqs] by (simp add: past_keys_def retained_def profile_size_def)

theorem leak_retains_every_profile_witness:
  "retained (snd (leak_run counting
     [\<lparr>rr_user = ''u1'', rr_limit = 2\<rparr>, \<lparr>rr_user = ''u1'', rr_limit = 2\<rparr>, \<lparr>rr_user = ''u2'', rr_limit = 0\<rparr>] (0, Map.empty))) = 786432"
proof -
  have "clock_moves counting" "fills counting"
    by (simp_all add: clock_moves_def fills_def counting_def)
  from leak_retains_every_profile [OF this, of
      "[\<lparr>rr_user = ''u1'', rr_limit = 2\<rparr>, \<lparr>rr_user = ''u1'', rr_limit = 2\<rparr>, \<lparr>rr_user = ''u2'', rr_limit = 0\<rparr>]" 0]
  show ?thesis by simp
qed

end
