(* ===== verification/Telemetry.thy ===== *)
theory Telemetry
  imports Json
begin

text \<open>
  The telemetry of the Go services (telemetry.go, one text for all of them): the setup of the
  OpenTelemetry providers, their shutdown, and the log handler that fans every record out. A
  \<^verbatim>\<open>slog.Handler\<close> is a value of an arbitrary type with its four operations in a record; the
  exporters and providers of OpenTelemetry are parameters.
\<close>

section \<open>Joined errors\<close>

text \<open>\<^verbatim>\<open>errors.Join\<close>: nothing for no error, else one with the texts on lines of their own.\<close>

fun lines_of :: "string list \<Rightarrow> string" where
  "lines_of [] = []"
| "lines_of [s] = s"
| "lines_of (s # t # ss) = s @ [CHR 0x0A] @ lines_of (t # ss)"

definition join_errors :: "go_error list \<Rightarrow> go_error option" where
  "join_errors errs = (if errs = [] then None else Some (errorf (lines_of (map err_text errs))))"

section \<open>The log handler\<close>

record log_record =
  lr_level :: int
  lr_message :: string
  lr_attrs :: "(string \<times> string) list"

record ('h, 'w) slog =
  h_enabled :: "'h \<Rightarrow> int \<Rightarrow> 'w \<Rightarrow> bool"
  h_handle :: "'h \<Rightarrow> log_record \<Rightarrow> 'w \<Rightarrow> go_error option \<times> 'w"
  h_with_attrs :: "'h \<Rightarrow> (string \<times> string) list \<Rightarrow> 'h"
  h_with_group :: "'h \<Rightarrow> string \<Rightarrow> 'h"

fun multi_enabled :: "('h, 'w) slog \<Rightarrow> 'h list \<Rightarrow> int \<Rightarrow> 'w \<Rightarrow> bool" where
  "multi_enabled ops [] level w = False"
| "multi_enabled ops (h # hs) level w = (if h_enabled ops h level w then True else multi_enabled ops hs level w)"

text \<open>The loop over the handlers, with the errors so far.\<close>

fun handle_loop :: "('h, 'w) slog \<Rightarrow> log_record \<Rightarrow> 'h list \<Rightarrow> go_error list \<Rightarrow> 'w \<Rightarrow> go_error list \<times> 'w" where
  "handle_loop ops rec [] errs w = (errs, w)"
| "handle_loop ops rec (h # hs) errs w =
     (if h_enabled ops h (lr_level rec) w
      then (case h_handle ops h rec w of
              (None, w1) \<Rightarrow> handle_loop ops rec hs errs w1
            | (Some e, w1) \<Rightarrow> handle_loop ops rec hs (errs @ [e]) w1)
      else handle_loop ops rec hs errs w)"

definition multi_handle :: "('h, 'w) slog \<Rightarrow> 'h list \<Rightarrow> log_record \<Rightarrow> 'w \<Rightarrow> go_error option \<times> 'w" where
  "multi_handle ops hs rec w = (let (errs, w1) = handle_loop ops rec hs [] w in (join_errors errs, w1))"

text \<open>A slice of the same length, filled by index; the loop writes every index.\<close>

definition multi_with_attrs :: "('h, 'w) slog \<Rightarrow> 'h list \<Rightarrow> (string \<times> string) list \<Rightarrow> 'h list" where
  "multi_with_attrs ops hs attrs = map (\<lambda>h. h_with_attrs ops h attrs) hs"

definition multi_with_group :: "('h, 'w) slog \<Rightarrow> 'h list \<Rightarrow> string \<Rightarrow> 'h list" where
  "multi_with_group ops hs name = map (\<lambda>h. h_with_group ops h name) hs"

text \<open>A \<^verbatim>\<open>multiHandler\<close> is itself a handler.\<close>

definition multiHandler :: "('h, 'w) slog \<Rightarrow> ('h list, 'w) slog" where
  "multiHandler ops = \<lparr>h_enabled = multi_enabled ops, h_handle = multi_handle ops,
     h_with_attrs = multi_with_attrs ops, h_with_group = multi_with_group ops\<rparr>"

section \<open>Setup and shutdown\<close>

text \<open>The process-wide state: which providers are installed, the propagator and the default logger.\<close>

datatype provider = TracerProvider | MeterProvider | LoggerProvider

record otel_globals =
  og_providers :: "provider list"
  og_propagator :: bool
  og_logger :: "string option"

record 'w otel_env =
  oe_resource :: "'w \<Rightarrow> go_error option \<times> 'w"
  oe_exporter :: "provider \<Rightarrow> 'w \<Rightarrow> go_error option \<times> 'w"
  oe_runtime :: "'w \<Rightarrow> go_error option \<times> 'w"
  oe_shutdown :: "provider \<Rightarrow> 'w \<Rightarrow> go_error option \<times> 'w"

text \<open>An exporter for a provider, and the provider installed; an error installs nothing.\<close>

definition install :: "'w otel_env \<Rightarrow> provider \<Rightarrow> 'w \<times> otel_globals \<Rightarrow> go_error option \<times> 'w \<times> otel_globals" where
  "install env p s =
     (case oe_exporter env p (fst s) of
        (Some e, w1) \<Rightarrow> (Some e, (w1, snd s))
      | (None, w1) \<Rightarrow> (None, (w1, (snd s)\<lparr>og_providers := og_providers (snd s) @ [p]\<rparr>)))"

definition initTelemetry_setup :: "'w otel_env \<Rightarrow> string \<Rightarrow> 'w \<times> otel_globals \<Rightarrow> go_error option \<times> 'w \<times> otel_globals" where
  "initTelemetry_setup env serviceName s =
     (case oe_resource env (fst s) of (Some e, w1) \<Rightarrow> (Some e, (w1, snd s)) | (None, w1) \<Rightarrow>
      (case install env TracerProvider (w1, snd s) of (Some e, s2) \<Rightarrow> (Some e, s2) | (None, s2) \<Rightarrow>
      (case install env MeterProvider s2 of (Some e, s3) \<Rightarrow> (Some e, s3) | (None, s3) \<Rightarrow>
      (case install env LoggerProvider s3 of (Some e, s4) \<Rightarrow> (Some e, s4) | (None, (w4, g4)) \<Rightarrow>
      (let g5 = g4\<lparr>og_propagator := True\<rparr> in
       case oe_runtime env w4 of
         (Some e, w5) \<Rightarrow> (Some e, (w5, g5))
       | (None, w5) \<Rightarrow> (None, (w5, g5\<lparr>og_logger := Some serviceName\<rparr>)))))))"

text \<open>The function returned: it shuts down all three, whatever fails, and joins the errors.\<close>

definition shutdown_all :: "'w otel_env \<Rightarrow> 'w \<Rightarrow> go_error option \<times> 'w" where
  "shutdown_all env w =
     (let (a, w1) = oe_shutdown env TracerProvider w;
          (b, w2) = oe_shutdown env MeterProvider w1;
          (c, w3) = oe_shutdown env LoggerProvider w2
      in (join_errors (List.map_filter (\<lambda>e. e) [a, b, c]), w3))"

end
