(* ===== verification/TelemetryProps.thy ===== *)
theory TelemetryProps
  imports Telemetry
begin

text \<open>
  What the fan-out of the log promises: a record reaches exactly the enabled handlers, no error of one
  keeps it from the others, and handlers of handlers are the flat list. And what is installed when the
  setup fails.
\<close>

section \<open>Delivery\<close>

text \<open>Handling with the list of handlers reached, in order.\<close>

definition noting :: "('h, 'w) slog \<Rightarrow> ('h, 'w \<times> 'h list) slog" where
  "noting ops = \<lparr>h_enabled = (\<lambda>h level wl. h_enabled ops h level (fst wl)),
     h_handle = (\<lambda>h rec wl. let (e, w) = h_handle ops h rec (fst wl) in (e, (w, snd wl @ [h]))),
     h_with_attrs = h_with_attrs ops, h_with_group = h_with_group ops\<rparr>"

text \<open>Handlers that do not change what is enabled.\<close>

definition stable :: "('h, 'w) slog \<Rightarrow> bool" where
  "stable ops \<longleftrightarrow> (\<forall>h h' level rec w. h_enabled ops h level (snd (h_handle ops h' rec w)) = h_enabled ops h level w)"

definition reaches :: "('h, 'w) slog \<Rightarrow> 'h list \<Rightarrow> int \<Rightarrow> 'w \<Rightarrow> 'h list" where
  "reaches ops hs level w = filter (\<lambda>h. h_enabled ops h level w) hs"

lemma noting_simps [simp]:
  "h_enabled (noting ops) h level (w, l) = h_enabled ops h level w"
  "h_handle (noting ops) h rec (w, l) = (fst (h_handle ops h rec w), (snd (h_handle ops h rec w), l @ [h]))"
  by (simp_all add: noting_def case_prod_unfold Let_def)

lemma handle_loop_noting:
  assumes "stable ops"
  shows "handle_loop (noting ops) rec hs errs (w, l) =
    (fst (handle_loop ops rec hs errs w), (snd (handle_loop ops rec hs errs w), l @ reaches ops hs (lr_level rec) w))"
proof (induction hs arbitrary: errs w l)
  case (Cons h hs)
  have "reaches ops hs (lr_level rec) (snd (h_handle ops h rec w)) = reaches ops hs (lr_level rec) w"
    using assms by (simp add: reaches_def stable_def)
  then show ?case
    using Cons.IH by (auto simp: reaches_def case_prod_unfold split: option.split)
qed (simp add: reaches_def)

lemma multi_enabled_iff: "multi_enabled ops hs level w \<longleftrightarrow> reaches ops hs level w \<noteq> []"
  by (induction hs) (auto simp: reaches_def)

text \<open>
  A log record reaches exactly the enabled handlers, each once and in order, whatever errors they
  return; the fan-out reports itself enabled exactly if some handler would be reached. For handlers
  that do not change what is enabled.
\<close>
theorem record_reaches_enabled:
  assumes "stable ops"
  shows "snd (snd (multi_handle (noting ops) hs rec (w, []))) = reaches ops hs (lr_level rec) w
    \<and> fst (multi_handle (noting ops) hs rec (w, [])) = fst (multi_handle ops hs rec w)
    \<and> (multi_enabled ops hs (lr_level rec) w \<longleftrightarrow> reaches ops hs (lr_level rec) w \<noteq> [])"
  using handle_loop_noting [OF assms, of rec hs "[]" w "[]"]
  by (simp add: multi_handle_def multi_enabled_iff case_prod_unfold Let_def)

text \<open>Handlers with a level each; a handler of an odd level fails.\<close>

definition level_ops :: "(int, unit) slog" where
  "level_ops = \<lparr>h_enabled = (\<lambda>h level w. h \<le> level),
     h_handle = (\<lambda>h rec w. (if odd h then Some (errorf (show_int h)) else None, w)),
     h_with_attrs = (\<lambda>h as. h), h_with_group = (\<lambda>h n. h)\<rparr>"

theorem record_reaches_enabled_witness:
  "snd (snd (multi_handle (noting level_ops) [3, 9, 4, 1] \<lparr>lr_level = 5, lr_message = ''m'', lr_attrs = []\<rparr> ((), [])))
    = [3, 4, 1]"
proof -
  have "stable level_ops" by (simp add: stable_def level_ops_def)
  from record_reaches_enabled [OF this, of "[3, 9, 4, 1]" "\<lparr>lr_level = 5, lr_message = ''m'', lr_attrs = []\<rparr>" "()"]
  show ?thesis by (simp add: reaches_def level_ops_def)
qed

section \<open>Handlers of handlers\<close>

lemma handle_loop_errs:
  "handle_loop ops rec hs errs w = (errs @ fst (handle_loop ops rec hs [] w), snd (handle_loop ops rec hs [] w))"
proof (induction hs arbitrary: errs w)
  case (Cons h hs)
  show ?case
    using Cons.IH [of errs] Cons.IH [of "[]"] Cons.IH [of "errs @ [e]" for e] Cons.IH [of "[e]" for e]
    by (auto simp: case_prod_unfold split: option.split)
qed simp

lemma handle_loop_append:
  "handle_loop ops rec (hs @ hs') errs w =
     (let (errs1, w1) = handle_loop ops rec hs errs w in handle_loop ops rec hs' errs1 w1)"
  by (induction hs arbitrary: errs w) (auto simp: case_prod_unfold Let_def split: option.split)

lemma handle_loop_disabled:
  "\<not> multi_enabled ops hs (lr_level rec) w \<Longrightarrow> handle_loop ops rec hs errs w = (errs, w)"
  by (induction hs) (simp_all split: if_splits)

lemma lines_of_append:
  "\<lbrakk>ss \<noteq> []; ts \<noteq> []\<rbrakk> \<Longrightarrow> lines_of (ss @ ts) = lines_of ss @ [CHR 0x0A] @ lines_of ts"
proof (induction ss rule: lines_of.induct)
  case (2 s)
  then show ?case by (cases ts) simp_all
qed simp_all

definition joined :: "go_error list \<Rightarrow> go_error" where
  "joined errs = errorf (lines_of (map err_text errs))"

lemma join_errors_eq: "join_errors errs = (if errs = [] then None else Some (joined errs))"
  by (simp add: join_errors_def joined_def)

lemma lines_of_groups:
  "list_all (\<lambda>g. g \<noteq> []) gs \<Longrightarrow> lines_of (map (\<lambda>g. lines_of (map err_text g)) gs) = lines_of (map err_text (concat gs))"
proof (induction gs)
  case (Cons g gs)
  show ?case
  proof (cases gs)
    case (Cons g' gs')
    with \<open>list_all (\<lambda>g. g \<noteq> []) (g # gs)\<close> have "map err_text g \<noteq> []" "map err_text (concat gs) \<noteq> []"
      by simp_all
    from lines_of_append [OF this] Cons.IH Cons.prems Cons show ?thesis by simp
  qed simp
qed simp

lemma join_groups:
  "list_all (\<lambda>g. g \<noteq> []) gs \<Longrightarrow> join_errors (map joined gs) = join_errors (concat gs)"
  using lines_of_groups [of gs]
  by (cases gs) (auto simp: join_errors_def joined_def errorf_def o_def)

text \<open>The errors of nested handlers are those of the flat list, in groups.\<close>

lemma handle_loop_nested:
  "\<exists>gs. handle_loop (multiHandler ops) rec hss errs w =
      (errs @ map joined gs, snd (handle_loop ops rec (concat hss) [] w))
    \<and> fst (handle_loop ops rec (concat hss) [] w) = concat gs \<and> list_all (\<lambda>g. g \<noteq> []) gs"
proof (induction hss arbitrary: errs w)
  case Nil
  show ?case by (intro exI [of _ "[]"]) simp
next
  case (Cons hs hss)
  obtain es w1 where run: "handle_loop ops rec hs [] w = (es, w1)" by (cases "handle_loop ops rec hs [] w")
  have flat: "handle_loop ops rec (concat (hs # hss)) [] w
      = (es @ fst (handle_loop ops rec (concat hss) [] w1), snd (handle_loop ops rec (concat hss) [] w1))"
    using handle_loop_errs [of ops rec "concat hss" es w1] by (simp add: handle_loop_append run)
  let ?errs = "if es = [] then errs else errs @ [joined es]"
  have step: "handle_loop (multiHandler ops) rec (hs # hss) errs w = handle_loop (multiHandler ops) rec hss ?errs w1"
  proof (cases "multi_enabled ops hs (lr_level rec) w")
    case True
    with run show ?thesis by (simp add: multiHandler_def multi_handle_def join_errors_eq)
  next
    case False
    with handle_loop_disabled [OF False, of "[]"] run show ?thesis by (simp add: multiHandler_def)
  qed
  obtain gs where gs: "handle_loop (multiHandler ops) rec hss ?errs w1 =
      (?errs @ map joined gs, snd (handle_loop ops rec (concat hss) [] w1))"
    "fst (handle_loop ops rec (concat hss) [] w1) = concat gs" "list_all (\<lambda>g. g \<noteq> []) gs"
    using Cons.IH [of ?errs w1] by (elim exE conjE) (rule that)
  show ?case
  proof (cases "es = []")
    case True
    with step gs flat show ?thesis by (intro exI [of _ gs]) simp
  next
    case False
    with step gs flat show ?thesis by (intro exI [of _ "es # gs"]) simp
  qed
qed


section \<open>Setup\<close>

text \<open>
  The setup installs the providers in the order tracer, meter, logger, and an error stops it: what
  is installed then is a prefix of them, and the process keeps its old logger. If it succeeds, all
  three, the propagator and the logger of the service are installed.
\<close>
theorem setup_installs_prefix:
  "let (e, w1, g1) = initTelemetry_setup env service (w, \<lparr>og_providers = [], og_propagator = False, og_logger = old\<rparr>);
       k = length (og_providers g1)
   in og_providers g1 = take k [TracerProvider, MeterProvider, LoggerProvider]
      \<and> (og_propagator g1 \<longleftrightarrow> k = 3)
      \<and> (if e = None then k = 3 \<and> og_logger g1 = Some service else og_logger g1 = old)"
  by (auto simp: initTelemetry_setup_def install_def Let_def split: prod.split option.split)

end
