(* ===== verification/Memory.thy ===== *)
theory Memory
  imports Prelude "HOL-Library.Sublist" "HOL-Library.State_Monad"
begin

text \<open>
  Go's memory, for the code that copies objects behind pointers: cells in the order they were
  allocated, the address of a cell its position. A copy is an action of the state monad. The
  contract of a deep copy (locale \<open>deep_copier\<close>) says what the copy means and that no cell
  is shared, in a form that composes: over the fields of a struct (\<open>builds_bind\<close>), over a
  pointer (\<open>new_of\<close>, \<open>optional\<close>) and over the elements of a slice (\<open>slice_of\<close>).
\<close>

type_synonym 'c memory = "'c list"

type_synonym ('c, 's) copier = "'s \<Rightarrow> ('c memory, 's) state"

text \<open>The part of a memory from address \<open>n\<close> on is kept, whatever is allocated later.\<close>

definition same_from :: "nat \<Rightarrow> 'c memory \<Rightarrow> 'c memory \<Rightarrow> bool" where
  "same_from n h h' \<longleftrightarrow> length h \<le> length h' \<and> (\<forall>i. n \<le> i \<longrightarrow> i < length h \<longrightarrow> h' ! i = h ! i)"

lemma same_from_refl [simp]: "same_from n h h"
  by (simp add: same_from_def)

lemma same_from_mono: "same_from n h h' \<Longrightarrow> n \<le> m \<Longrightarrow> same_from m h h'"
  by (simp add: same_from_def)

lemma same_from_prefix: "same_from n h1 h' \<Longrightarrow> prefix h h1 \<Longrightarrow> same_from n h h'"
  by (fastforce simp: same_from_def prefix_def nth_append)

lemma prefix_iff_nth: "prefix h h' \<longleftrightarrow> length h \<le> length h' \<and> (\<forall>i < length h. h' ! i = h ! i)"
proof
  assume "length h \<le> length h' \<and> (\<forall>i < length h. h' ! i = h ! i)"
  then have "take (length h) h' = h" by (intro nth_equalityI) auto
  then show "prefix h h'" by (metis take_is_prefix)
qed (auto simp: prefix_def nth_append)

lemma prefix_update_new: "prefix h h' \<Longrightarrow> length h \<le> i \<Longrightarrow> prefix h (h'[i := c])"
  by (simp add: prefix_iff_nth)

section \<open>What an action builds\<close>

text \<open>
  \<open>builds h m Q\<close>: run in memory \<open>h\<close>, the action only allocates, and its result satisfies \<open>Q\<close>
  in every memory that has the cells it allocated, the older cells being as they may.
\<close>

definition builds :: "'c memory \<Rightarrow> ('c memory, 'a) state \<Rightarrow> ('c memory \<Rightarrow> 'a \<Rightarrow> bool) \<Rightarrow> bool" where
  "builds h m Q \<longleftrightarrow> (\<forall>y h1. run_state m h = (y, h1) \<longrightarrow>
     prefix h h1 \<and> (\<forall>h2. same_from (length h) h1 h2 \<longrightarrow> Q h2 y))"

lemma builds_return: "(\<And>h2. Q h2 y) \<Longrightarrow> builds h (State_Monad.return y) Q"
  by (simp add: builds_def)

lemma builds_mono: "builds h m Q \<Longrightarrow> (\<And>h2 y. Q h2 y \<Longrightarrow> R h2 y) \<Longrightarrow> builds h m R"
  unfolding builds_def by blast

lemma builds_seq:
  assumes "builds h m Q" and "\<And>y h1. prefix h h1 \<Longrightarrow> builds h1 (f y) (\<lambda>h2 z. Q h2 y \<longrightarrow> R h2 z)"
  shows "builds h (m \<bind> f) R"
  unfolding builds_def
proof (intro allI impI)
  fix z h2 assume run: "run_state (m \<bind> f) h = (z, h2)"
  obtain y h1 where m: "run_state m h = (y, h1)" by fastforce
  then have f: "run_state (f y) h1 = (z, h2)" using run by (simp add: State_Monad.bind_def)
  have p1: "prefix h h1" and Q: "\<And>h3. same_from (length h) h1 h3 \<Longrightarrow> Q h3 y"
    using assms(1) m unfolding builds_def by blast+
  have p2: "prefix h1 h2" and R: "\<And>h3. same_from (length h1) h2 h3 \<Longrightarrow> Q h3 y \<Longrightarrow> R h3 z"
    using assms(2) [OF p1] f unfolding builds_def by blast+
  show "prefix h h2 \<and> (\<forall>h3. same_from (length h) h2 h3 \<longrightarrow> R h3 z)"
    using p1 p2 Q R by (blast intro: prefix_order.trans same_from_prefix same_from_mono prefix_length_le)
qed

section \<open>The contract of a deep copy\<close>

text \<open>
  \<open>den h x\<close> is what the Go value \<open>x\<close> means in memory \<open>h\<close>, or None when \<open>x\<close> is not well formed there.
  It does not change when memory grows (\<open>grows\<close>). A copy only allocates and means the same, in
  every memory that keeps the cells the copy allocated (\<open>copied\<close>): a write to any older cell does
  not reach it.
\<close>

locale deep_copier =
  fixes copy :: "('c, 's) copier" and den :: "'c memory \<Rightarrow> 's \<Rightarrow> 'v option"
  assumes grows: "den h x = Some v \<Longrightarrow> prefix h h' \<Longrightarrow> den h' x = Some v"
    and copied: "den h x = Some v \<Longrightarrow> builds h (copy x) (\<lambda>h2 y. den h2 y = Some v)"
begin

lemma builds_bind:
  assumes "den h0 x = Some v" and "prefix h0 h"
    and "\<And>y h1. prefix h0 h1 \<Longrightarrow> builds h1 (f y) (\<lambda>h2 z. den h2 y = Some v \<longrightarrow> R h2 z)"
  shows "builds h (copy x \<bind> f) R"
  using assms(3) prefix_order.trans [OF assms(2)]
  by (auto intro!: builds_seq copied grows [OF assms(1,2)])

text \<open>The original keeps its meaning while the cells that were there before are kept.\<close>

lemma original_kept:
  assumes "den h x = Some v" and "length h \<le> length h2" and "\<forall>i < length h. h2 ! i = h ! i"
  shows "den h2 x = Some v"
  using grows [OF assms(1)] assms(2,3) by (simp add: prefix_iff_nth)

lemma copy_separate:
  assumes "den h x = Some v" and "run_state (copy x) h = (y, h1)"
  shows "prefix h h1" and "same_from (length h) h1 h2 \<Longrightarrow> den h2 y = Some v"
  using copied [OF assms(1)] assms(2) unfolding builds_def by blast+

end

section \<open>Copies of values, pointers and slices\<close>

text \<open>An assignment \<^verbatim>\<open>*out = *in\<close> of a value without pointers.\<close>

definition plain :: "('c, 's) copier" where
  "plain x = State_Monad.return x"

interpretation plain: deep_copier plain "\<lambda>h x. Some (f x)"
  by unfold_locales (simp_all add: plain_def builds_return)

text \<open>\<^verbatim>\<open>new(T)\<close> and \<^verbatim>\<open>make\<close>: a new cell, at first zero; then the store through a pointer, and the load.\<close>

definition alloc :: "'c \<Rightarrow> ('c memory, nat) state" where
  "alloc zero = State (\<lambda>h. (length h, h @ [zero]))"

definition store :: "nat \<Rightarrow> 'c \<Rightarrow> ('c memory, unit) state" where
  "store p c = State (\<lambda>h. ((), h[p := c]))"

definition load :: "('c \<Rightarrow> 's option) \<Rightarrow> nat \<Rightarrow> ('c memory, 's) state" where
  "load view p = State (\<lambda>h. (the (view (h ! p)), h))"

text \<open>\<open>view\<close> reads a cell as a value of the pointer's type; \<open>cell\<close> is the cell that holds the value.\<close>

definition new_of :: "'c \<Rightarrow> ('c \<Rightarrow> 's option) \<Rightarrow> ('s \<Rightarrow> 'c) \<Rightarrow> ('c, 's) copier \<Rightarrow> ('c, nat) copier" where
  "new_of zero view cell copy p = do {
     q \<leftarrow> alloc zero;
     x \<leftarrow> load view p;
     y \<leftarrow> copy x;
     _ \<leftarrow> store q (cell y);
     State_Monad.return q}"

definition target :: "('c \<Rightarrow> 's option) \<Rightarrow> ('c memory \<Rightarrow> 's \<Rightarrow> 'v option) \<Rightarrow> 'c memory \<Rightarrow> nat \<Rightarrow> 'v option" where
  "target view den h p =
     (if p < length h then (case view (h ! p) of None \<Rightarrow> None | Some x \<Rightarrow> den h x) else None)"

text \<open>A field that is copied only \<^verbatim>\<open>if in.F != nil\<close>.\<close>

definition optional :: "('c, 'p) copier \<Rightarrow> ('c, 'p option) copier" where
  "optional copy p =
     (case p of None \<Rightarrow> State_Monad.return None
      | Some a \<Rightarrow> do { b \<leftarrow> copy a; State_Monad.return (Some b) })"

definition maybe :: "('c memory \<Rightarrow> 'p \<Rightarrow> 'v option) \<Rightarrow> 'c memory \<Rightarrow> 'p option \<Rightarrow> 'v option option" where
  "maybe den h p = (case p of None \<Rightarrow> Some None | Some a \<Rightarrow> map_option Some (den h a))"

text \<open>The loop \<^verbatim>\<open>for i := range *in\<close> copies element by element: the library's \<open>traverse_list\<close>.\<close>

fun all_of :: "('c memory \<Rightarrow> 's \<Rightarrow> 'v option) \<Rightarrow> 'c memory \<Rightarrow> 's list \<Rightarrow> 'v list option" where
  "all_of den h [] = Some []"
| "all_of den h (x # xs) =
     (case den h x of None \<Rightarrow> None
      | Some v \<Rightarrow> (case all_of den h xs of None \<Rightarrow> None | Some vs \<Rightarrow> Some (v # vs)))"

text \<open>A slice that is not nil: a window of an array. Its copy has an array of just its length.\<close>

record slice =
  sl_base :: nat
  sl_off :: nat
  sl_len :: nat

definition window :: "slice \<Rightarrow> 's list \<Rightarrow> 's list" where
  "window s xs = take (sl_len s) (drop (sl_off s) xs)"

definition slice_of :: "'c \<Rightarrow> ('c \<Rightarrow> 's list option) \<Rightarrow> ('s list \<Rightarrow> 'c) \<Rightarrow> ('c, 's) copier \<Rightarrow> ('c, slice) copier" where
  "slice_of zero view cell copy s = do {
     q \<leftarrow> alloc zero;
     xs \<leftarrow> load view (sl_base s);
     ys \<leftarrow> State_Monad.traverse_list copy (window s xs);
     _ \<leftarrow> store q (cell ys);
     State_Monad.return \<lparr>sl_base = q, sl_off = 0, sl_len = length ys\<rparr>}"

definition elements ::
  "('c \<Rightarrow> 's list option) \<Rightarrow> ('c memory \<Rightarrow> 's \<Rightarrow> 'v option) \<Rightarrow> 'c memory \<Rightarrow> slice \<Rightarrow> 'v list option" where
  "elements view den h s =
     (if sl_base s < length h
      then (case view (h ! sl_base s) of
              None \<Rightarrow> None
            | Some xs \<Rightarrow> if sl_off s + sl_len s \<le> length xs then all_of den h (window s xs) else None)
      else None)"

text \<open>A cell allocated first and filled last: the common shape of \<open>new_of\<close> and \<open>slice_of\<close>.\<close>

lemma builds_filled:
  assumes "builds (h @ [zero]) m Q"
    and "\<And>h2 y. length h < length h2 \<Longrightarrow> h2 ! length h = cell y \<Longrightarrow> Q h2 y \<Longrightarrow> R h2 (f (length h) y)"
  shows "builds h (alloc zero \<bind> (\<lambda>q. m \<bind> (\<lambda>y. store q (cell y) \<bind> (\<lambda>_. State_Monad.return (f q y))))) R"
  unfolding builds_def
proof (intro allI impI)
  fix z h3 assume run: "run_state (alloc zero \<bind> (\<lambda>q. m \<bind> (\<lambda>y. store q (cell y)
      \<bind> (\<lambda>_. State_Monad.return (f q y))))) h = (z, h3)"
  obtain y h1 where m: "run_state m (h @ [zero]) = (y, h1)" by fastforce
  then have z: "z = f (length h) y" and h3: "h3 = h1[length h := cell y]"
    using run by (simp_all add: State_Monad.bind_def alloc_def store_def)
  have pre: "prefix (h @ [zero]) h1" and Q: "\<And>h2. same_from (Suc (length h)) h1 h2 \<Longrightarrow> Q h2 y"
    using assms(1) m unfolding builds_def by auto
  have long: "length h < length h1" using prefix_length_le [OF pre] by simp
  have "R h2 z" if same: "same_from (length h) h3 h2" for h2
    unfolding z
  proof (rule assms(2))
    show "length h < length h2" "h2 ! length h = cell y"
      using same long by (simp_all add: same_from_def h3)
    show "Q h2 y" using same by (intro Q) (auto simp: same_from_def h3)
  qed
  moreover have "prefix h h3"
    unfolding h3 using pre by (intro prefix_update_new) (auto dest: append_prefixD)
  ultimately show "prefix h h3 \<and> (\<forall>h2. same_from (length h) h3 h2 \<longrightarrow> R h2 z)" by blast
qed

lemma builds_load: "builds h (f (the (view (h ! p)))) Q \<Longrightarrow> builds h (load view p \<bind> f) Q"
  by (simp add: builds_def load_def State_Monad.bind_def)

section \<open>The contract carries over\<close>

context deep_copier
begin

lemma target_contract:
  assumes "\<And>x. view (cell x) = Some x"
  shows "deep_copier (new_of zero view cell copy) (target view den)"
proof
  show "target view den h' p = Some v" if "target view den h p = Some v" "prefix h h'" for h h' p v
    using that by (auto simp: target_def prefix_iff_nth intro: grows split: if_splits option.splits)
next
  fix h p v assume "target view den h p = Some v"
  then obtain x where x: "p < length h" "view (h ! p) = Some x" "den h x = Some v"
    by (auto simp: target_def split: if_splits option.splits)
  have "builds (h @ [zero]) (load view p \<bind> copy) (\<lambda>h2 y. den h2 y = Some v)"
    using copied [OF grows [OF x(3), of "h @ [zero]"]] x by (intro builds_load) (simp add: nth_append)
  from builds_filled [OF this, of cell _ "\<lambda>q y. q"]
  show "builds h (new_of zero view cell copy p) (\<lambda>h2 y. target view den h2 y = Some v)"
    by (simp add: new_of_def target_def assms)
qed

lemma optional_contract: "deep_copier (optional copy) (maybe den)"
proof
  show "maybe den h' p = Some v" if "maybe den h p = Some v" "prefix h h'" for h h' p v
    using that by (auto simp: maybe_def intro: grows split: option.splits)
next
  show "builds h (optional copy p) (\<lambda>h2 y. maybe den h2 y = Some v)" if "maybe den h p = Some v" for h p v
    using that unfolding optional_def
    by (auto simp: maybe_def intro!: builds_return builds_bind [of h] split: option.splits)
qed

lemma all_of_grows: "all_of den h xs = Some vs \<Longrightarrow> prefix h h' \<Longrightarrow> all_of den h' xs = Some vs"
  by (induction xs arbitrary: vs) (auto dest: grows split: option.splits)

lemma traverse_copied:
  "all_of den h0 xs = Some vs \<Longrightarrow> prefix h0 h \<Longrightarrow>
   builds h (State_Monad.traverse_list copy xs) (\<lambda>h2 ys. all_of den h2 ys = Some vs)"
proof (induction xs arbitrary: h vs)
  case Nil
  then show ?case by (auto intro: builds_return)
next
  case (Cons x xs)
  then obtain v ws where vs: "vs = v # ws" and x: "den h0 x = Some v" and xs: "all_of den h0 xs = Some ws"
    by (auto split: option.splits)
  have tail: "builds h1 (State_Monad.traverse_list copy xs) (\<lambda>h2 ys. all_of den h2 ys = Some ws)"
    if "prefix h0 h1" for h1
    using Cons.IH [OF xs that] .
  show ?case
    unfolding State_Monad.traverse_list.simps vs
    by (intro builds_bind [OF x Cons.prems(2)] builds_seq [OF tail] builds_return) (auto split: option.splits)
qed

lemma elements_contract:
  assumes "\<And>xs. view (cell xs) = Some xs"
  shows "deep_copier (slice_of zero view cell copy) (elements view den)"
proof
  show "elements view den h' s = Some vs" if "elements view den h s = Some vs" "prefix h h'" for h h' s vs
    using that by (auto simp: elements_def prefix_iff_nth intro: all_of_grows split: if_splits option.splits)
next
  fix h s vs assume "elements view den h s = Some vs"
  then obtain xs where xs: "sl_base s < length h" "view (h ! sl_base s) = Some xs" "all_of den h (window s xs) = Some vs"
    by (auto simp: elements_def split: if_splits option.splits)
  have "builds (h @ [zero]) (load view (sl_base s) \<bind> (\<lambda>xs. State_Monad.traverse_list copy (window s xs)))
      (\<lambda>h2 ys. all_of den h2 ys = Some vs)"
    using traverse_copied [OF xs(3), of "h @ [zero]"] xs by (intro builds_load) (simp add: nth_append)
  from builds_filled [OF this, of cell _ "\<lambda>q ys. \<lparr>sl_base = q, sl_off = 0, sl_len = length ys\<rparr>"]
  show "builds h (slice_of zero view cell copy s) (\<lambda>h2 y. elements view den h2 y = Some vs)"
    by (simp add: slice_of_def elements_def window_def assms)
qed

end

text \<open>A copy whose result does not mention memory, such as \<^verbatim>\<open>copy(*out, *in)\<close> of strings.\<close>

lemma all_of_plain [simp]: "all_of (\<lambda>h x. Some (f x)) h xs = Some (map f xs)"
  by (induction xs) auto

end
