(* ===== verification/DeepCopy.thy ===== *)
theory DeepCopy
  imports Types Memory
begin

text \<open>
  The generated deep copies of the API types (operator/api/v1alpha1/zz_generated.deepcopy.go), on
  Go's memory. The structs of Types are values; here they are as memory holds them: a pointer field
  is an address or nil, a slice field a window of an array or nil. Each type has its
  \<^verbatim>\<open>DeepCopyInto\<close> (the value stored into \<^verbatim>\<open>*out\<close>), its \<^verbatim>\<open>DeepCopy\<close> (a pointer to a new object, or nil
  for nil), and its meaning as a value of Types.

  Times, environment variables, raw JSON, conditions and object metadata are structs of the
  Kubernetes libraries, of an arbitrary type \<open>'x\<close>; their own deep copies are the record \<open>library\<close>.
\<close>

section \<open>The structs in memory\<close>

record trigger_struct =
  tg_run_id :: string
  tg_duration :: "nat option"

record workload_struct =
  wo_name :: string
  wo_image :: string
  wo_command :: "slice option"
  wo_engine :: string
  wo_queries :: "slice option"
  wo_concurrency :: int
  wo_interval :: "nat option"
  wo_env :: "slice option"
  wo_deadline_margin :: "nat option"
  wo_colocate_with_app :: string
  wo_cpu_burn :: int

record deploy_image_struct =
  di_target_ref :: scale_target_ref
  di_container :: string
  di_image :: string
  di_known_good_image :: string
  di_rollout_timeout :: "nat option"

record dbexec_struct =
  db_name :: string
  db_engine :: string
  db_env :: "slice option"
  db_ensure :: "slice option"
  db_revert :: "slice option"

record 'x chaos_mesh_struct =
  cs_kind :: string
  cs_name :: string
  cs_spec :: 'x

record action_struct =
  ac_name :: string
  ac_type :: action_type
  ac_delay :: "nat option"
  ac_workload :: "nat option"
  ac_scale :: "nat option"
  ac_deploy_image :: "nat option"
  ac_chaos_mesh :: "nat option"
  ac_dbexec :: "nat option"

record spec_struct =
  ss_display_name :: string
  ss_description :: string
  ss_category :: string
  ss_icon :: string
  ss_expected_symptoms :: "slice option"
  ss_enabled :: bool
  ss_trigger :: "nat option"
  ss_duration :: "nat option"
  ss_actions :: "slice option"

record 'x run_struct =
  ru_id :: string
  ru_trigger :: run_trigger
  ru_started_at :: 'x
  ru_expires_at :: "nat option"

record 'x active_struct =
  at_name :: string
  at_type :: action_type
  at_phase :: action_phase
  at_applied_at :: "nat option"
  at_attempts :: int
  at_last_error :: string
  at_revert :: 'x

record 'x history_struct =
  hs_id :: string
  hs_trigger :: run_trigger
  hs_started_at :: 'x
  hs_ended_at :: "nat option"
  hs_result :: run_result
  hs_message :: string

record status_struct =
  us_phase :: phase
  us_current_run :: "nat option"
  us_active_actions :: "slice option"
  us_last_completed_run_id :: string
  us_history :: "slice option"
  us_conditions :: "slice option"
  us_observed_generation :: int

record type_meta =
  tm_kind :: string
  tm_api_version :: string

record 'x job_struct =
  mo_type_meta :: type_meta
  mo_meta :: 'x
  mo_spec :: spec_struct
  mo_status :: status_struct

record 'x list_struct =
  ml_type_meta :: type_meta
  ml_meta :: 'x
  ml_items :: "slice option"

datatype 'x cell =
    Zero
  | CDuration int
  | CTime 'x
  | CForeign 'x
  | CStrings "string list"
  | CEnvs "'x list"
  | CTrigger trigger_struct
  | CWorkload workload_struct
  | CScaleRef scale_target_ref
  | CScale scale_action
  | CDeployImage deploy_image_struct
  | CDBExec dbexec_struct
  | CChaosMesh "'x chaos_mesh_struct"
  | CAction action_struct
  | CActions "action_struct list"
  | CSpec spec_struct
  | CRun "'x run_struct"
  | CActive "'x active_struct"
  | CActives "'x active_struct list"
  | CEntry "'x history_struct"
  | CHistory "'x history_struct list"
  | CConditions "'x list"
  | CStatus status_struct
  | CJob "'x job_struct"
  | CJobs "'x job_struct list"
  | CList "'x list_struct"

text \<open>The cells of a pointer's or slice's type.\<close>

definition as_duration :: "'x cell \<Rightarrow> int option" where
  "as_duration c = (case c of CDuration d \<Rightarrow> Some d | _ \<Rightarrow> None)"
definition as_time :: "'x cell \<Rightarrow> 'x option" where
  "as_time c = (case c of CTime t \<Rightarrow> Some t | _ \<Rightarrow> None)"
definition as_strings :: "'x cell \<Rightarrow> string list option" where
  "as_strings c = (case c of CStrings x \<Rightarrow> Some x | _ \<Rightarrow> None)"
definition as_envs :: "'x cell \<Rightarrow> 'x list option" where
  "as_envs c = (case c of CEnvs x \<Rightarrow> Some x | _ \<Rightarrow> None)"
definition as_trigger :: "'x cell \<Rightarrow> trigger_struct option" where
  "as_trigger c = (case c of CTrigger x \<Rightarrow> Some x | _ \<Rightarrow> None)"
definition as_workload :: "'x cell \<Rightarrow> workload_struct option" where
  "as_workload c = (case c of CWorkload x \<Rightarrow> Some x | _ \<Rightarrow> None)"
definition as_scale_ref :: "'x cell \<Rightarrow> scale_target_ref option" where
  "as_scale_ref c = (case c of CScaleRef x \<Rightarrow> Some x | _ \<Rightarrow> None)"
definition as_scale :: "'x cell \<Rightarrow> scale_action option" where
  "as_scale c = (case c of CScale x \<Rightarrow> Some x | _ \<Rightarrow> None)"
definition as_deploy_image :: "'x cell \<Rightarrow> deploy_image_struct option" where
  "as_deploy_image c = (case c of CDeployImage x \<Rightarrow> Some x | _ \<Rightarrow> None)"
definition as_dbexec :: "'x cell \<Rightarrow> dbexec_struct option" where
  "as_dbexec c = (case c of CDBExec x \<Rightarrow> Some x | _ \<Rightarrow> None)"
definition as_chaos_mesh :: "'x cell \<Rightarrow> 'x chaos_mesh_struct option" where
  "as_chaos_mesh c = (case c of CChaosMesh x \<Rightarrow> Some x | _ \<Rightarrow> None)"
definition as_action :: "'x cell \<Rightarrow> action_struct option" where
  "as_action c = (case c of CAction x \<Rightarrow> Some x | _ \<Rightarrow> None)"
definition as_actions :: "'x cell \<Rightarrow> action_struct list option" where
  "as_actions c = (case c of CActions x \<Rightarrow> Some x | _ \<Rightarrow> None)"
definition as_spec :: "'x cell \<Rightarrow> spec_struct option" where
  "as_spec c = (case c of CSpec x \<Rightarrow> Some x | _ \<Rightarrow> None)"
definition as_run :: "'x cell \<Rightarrow> 'x run_struct option" where
  "as_run c = (case c of CRun x \<Rightarrow> Some x | _ \<Rightarrow> None)"
definition as_active :: "'x cell \<Rightarrow> 'x active_struct option" where
  "as_active c = (case c of CActive x \<Rightarrow> Some x | _ \<Rightarrow> None)"
definition as_actives :: "'x cell \<Rightarrow> 'x active_struct list option" where
  "as_actives c = (case c of CActives x \<Rightarrow> Some x | _ \<Rightarrow> None)"
definition as_entry :: "'x cell \<Rightarrow> 'x history_struct option" where
  "as_entry c = (case c of CEntry x \<Rightarrow> Some x | _ \<Rightarrow> None)"
definition as_history :: "'x cell \<Rightarrow> 'x history_struct list option" where
  "as_history c = (case c of CHistory x \<Rightarrow> Some x | _ \<Rightarrow> None)"
definition as_conditions :: "'x cell \<Rightarrow> 'x list option" where
  "as_conditions c = (case c of CConditions x \<Rightarrow> Some x | _ \<Rightarrow> None)"
definition as_status :: "'x cell \<Rightarrow> status_struct option" where
  "as_status c = (case c of CStatus x \<Rightarrow> Some x | _ \<Rightarrow> None)"
definition as_job :: "'x cell \<Rightarrow> 'x job_struct option" where
  "as_job c = (case c of CJob x \<Rightarrow> Some x | _ \<Rightarrow> None)"
definition as_jobs :: "'x cell \<Rightarrow> 'x job_struct list option" where
  "as_jobs c = (case c of CJobs x \<Rightarrow> Some x | _ \<Rightarrow> None)"
definition as_list :: "'x cell \<Rightarrow> 'x list_struct option" where
  "as_list c = (case c of CList x \<Rightarrow> Some x | _ \<Rightarrow> None)"

lemma as_simps [simp]:
  "as_duration (CDuration d) = Some d" "as_time (CTime t) = Some t" "as_strings (CStrings ss) = Some ss"
  "as_envs (CEnvs es) = Some es" "as_trigger (CTrigger tg) = Some tg" "as_workload (CWorkload wo) = Some wo"
  "as_scale_ref (CScaleRef sr) = Some sr" "as_scale (CScale sc) = Some sc" "as_deploy_image (CDeployImage di) = Some di"
  "as_dbexec (CDBExec db) = Some db" "as_chaos_mesh (CChaosMesh ch) = Some ch" "as_action (CAction ac) = Some ac"
  "as_actions (CActions acs) = Some acs" "as_spec (CSpec sp) = Some sp" "as_run (CRun ru) = Some ru"
  "as_active (CActive aa) = Some aa" "as_actives (CActives aas) = Some aas" "as_entry (CEntry he) = Some he"
  "as_history (CHistory hes) = Some hes" "as_conditions (CConditions cs) = Some cs" "as_status (CStatus st) = Some st"
  "as_job (CJob mj) = Some mj" "as_jobs (CJobs mjs) = Some mjs" "as_list (CList ml) = Some ml"
  by (simp_all add: as_duration_def as_time_def as_strings_def as_envs_def as_trigger_def as_workload_def
      as_scale_ref_def as_scale_def as_deploy_image_def as_dbexec_def as_chaos_mesh_def as_action_def as_actions_def
      as_spec_def as_run_def as_active_def as_actives_def as_entry_def as_history_def as_conditions_def as_status_def
      as_job_def as_jobs_def as_list_def)

section \<open>The libraries' copies\<close>

text \<open>
  \<^verbatim>\<open>DeepCopyInto\<close> of \<^verbatim>\<open>metav1.Time\<close>, \<^verbatim>\<open>corev1.EnvVar\<close>, \<^verbatim>\<open>apiextensionsv1.JSON\<close>, \<^verbatim>\<open>metav1.Condition\<close>,
  \<^verbatim>\<open>ObjectMeta\<close> and \<^verbatim>\<open>ListMeta\<close>, and \<^verbatim>\<open>DeepCopy\<close> of a pointer to a time.
\<close>

record 'x library =
  lib_time :: "('x cell, 'x) copier"
  lib_time_ptr :: "('x cell, nat) copier"
  lib_env :: "('x cell, 'x) copier"
  lib_json :: "('x cell, 'x) copier"
  lib_condition :: "('x cell, 'x) copier"
  lib_meta :: "('x cell, 'x) copier"
  lib_list_meta :: "('x cell, 'x) copier"

section \<open>DeepCopyInto and DeepCopy\<close>

definition copy_duration :: "('x cell, nat option) copier" where
  "copy_duration = optional (new_of Zero as_duration CDuration plain)"

definition copy_strings :: "('x cell, slice option) copier" where
  "copy_strings = optional (slice_of Zero as_strings CStrings plain)"

definition copy_envs :: "'x library \<Rightarrow> ('x cell, slice option) copier" where
  "copy_envs l = optional (slice_of Zero as_envs CEnvs (lib_env l))"

definition DeepCopyInto_TriggerSpec :: "('x cell, trigger_struct) copier" where
  "DeepCopyInto_TriggerSpec x = do {
     duration \<leftarrow> copy_duration (tg_duration x);
     State_Monad.return (x\<lparr>tg_duration := duration\<rparr>)}"

definition DeepCopy_TriggerSpec :: "('x cell, nat option) copier" where
  "DeepCopy_TriggerSpec = optional (new_of Zero as_trigger CTrigger DeepCopyInto_TriggerSpec)"

definition DeepCopyInto_WorkloadAction :: "'x library \<Rightarrow> ('x cell, workload_struct) copier" where
  "DeepCopyInto_WorkloadAction l x = do {
     command \<leftarrow> copy_strings (wo_command x);
     queries \<leftarrow> copy_strings (wo_queries x);
     interval \<leftarrow> copy_duration (wo_interval x);
     env \<leftarrow> copy_envs l (wo_env x);
     margin \<leftarrow> copy_duration (wo_deadline_margin x);
     State_Monad.return (x\<lparr>wo_command := command, wo_queries := queries, wo_interval := interval,
       wo_env := env, wo_deadline_margin := margin\<rparr>)}"

definition DeepCopy_WorkloadAction :: "'x library \<Rightarrow> ('x cell, nat option) copier" where
  "DeepCopy_WorkloadAction l = optional (new_of Zero as_workload CWorkload (DeepCopyInto_WorkloadAction l))"

definition DeepCopyInto_ScaleTargetRef :: "('x cell, scale_target_ref) copier" where
  "DeepCopyInto_ScaleTargetRef = plain"

definition DeepCopy_ScaleTargetRef :: "('x cell, nat option) copier" where
  "DeepCopy_ScaleTargetRef = optional (new_of Zero as_scale_ref CScaleRef DeepCopyInto_ScaleTargetRef)"

definition DeepCopyInto_ScaleAction :: "('x cell, scale_action) copier" where
  "DeepCopyInto_ScaleAction x = State_Monad.return (x\<lparr>sa_target_ref := sa_target_ref x\<rparr>)"

definition DeepCopy_ScaleAction :: "('x cell, nat option) copier" where
  "DeepCopy_ScaleAction = optional (new_of Zero as_scale CScale DeepCopyInto_ScaleAction)"

definition DeepCopyInto_DeployImageAction :: "('x cell, deploy_image_struct) copier" where
  "DeepCopyInto_DeployImageAction x = do {
     timeout \<leftarrow> copy_duration (di_rollout_timeout x);
     State_Monad.return (x\<lparr>di_target_ref := di_target_ref x, di_rollout_timeout := timeout\<rparr>)}"

definition DeepCopy_DeployImageAction :: "('x cell, nat option) copier" where
  "DeepCopy_DeployImageAction = optional (new_of Zero as_deploy_image CDeployImage DeepCopyInto_DeployImageAction)"

definition DeepCopyInto_DBExecAction :: "'x library \<Rightarrow> ('x cell, dbexec_struct) copier" where
  "DeepCopyInto_DBExecAction l x = do {
     env \<leftarrow> copy_envs l (db_env x);
     ensure \<leftarrow> copy_strings (db_ensure x);
     revert \<leftarrow> copy_strings (db_revert x);
     State_Monad.return (x\<lparr>db_env := env, db_ensure := ensure, db_revert := revert\<rparr>)}"

definition DeepCopy_DBExecAction :: "'x library \<Rightarrow> ('x cell, nat option) copier" where
  "DeepCopy_DBExecAction l = optional (new_of Zero as_dbexec CDBExec (DeepCopyInto_DBExecAction l))"

definition DeepCopyInto_ChaosMeshAction :: "'x library \<Rightarrow> ('x cell, 'x chaos_mesh_struct) copier" where
  "DeepCopyInto_ChaosMeshAction l x = do {
     spec \<leftarrow> lib_json l (cs_spec x);
     State_Monad.return (x\<lparr>cs_spec := spec\<rparr>)}"

definition DeepCopy_ChaosMeshAction :: "'x library \<Rightarrow> ('x cell, nat option) copier" where
  "DeepCopy_ChaosMeshAction l = optional (new_of Zero as_chaos_mesh CChaosMesh (DeepCopyInto_ChaosMeshAction l))"

definition DeepCopyInto_Action :: "'x library \<Rightarrow> ('x cell, action_struct) copier" where
  "DeepCopyInto_Action l x = do {
     delay \<leftarrow> copy_duration (ac_delay x);
     workload \<leftarrow> optional (new_of Zero as_workload CWorkload (DeepCopyInto_WorkloadAction l)) (ac_workload x);
     scale \<leftarrow> optional (new_of Zero as_scale CScale plain) (ac_scale x);
     image \<leftarrow> optional (new_of Zero as_deploy_image CDeployImage DeepCopyInto_DeployImageAction) (ac_deploy_image x);
     chaos \<leftarrow> optional (new_of Zero as_chaos_mesh CChaosMesh (DeepCopyInto_ChaosMeshAction l)) (ac_chaos_mesh x);
     exec \<leftarrow> optional (new_of Zero as_dbexec CDBExec (DeepCopyInto_DBExecAction l)) (ac_dbexec x);
     State_Monad.return (x\<lparr>ac_delay := delay, ac_workload := workload, ac_scale := scale,
       ac_deploy_image := image, ac_chaos_mesh := chaos, ac_dbexec := exec\<rparr>)}"

definition DeepCopy_Action :: "'x library \<Rightarrow> ('x cell, nat option) copier" where
  "DeepCopy_Action l = optional (new_of Zero as_action CAction (DeepCopyInto_Action l))"

definition DeepCopyInto_MaintenanceJobSpec :: "'x library \<Rightarrow> ('x cell, spec_struct) copier" where
  "DeepCopyInto_MaintenanceJobSpec l x = do {
     symptoms \<leftarrow> copy_strings (ss_expected_symptoms x);
     trigger \<leftarrow> optional (new_of Zero as_trigger CTrigger DeepCopyInto_TriggerSpec) (ss_trigger x);
     duration \<leftarrow> copy_duration (ss_duration x);
     actions \<leftarrow> optional (slice_of Zero as_actions CActions (DeepCopyInto_Action l)) (ss_actions x);
     State_Monad.return (x\<lparr>ss_expected_symptoms := symptoms, ss_trigger := trigger, ss_duration := duration,
       ss_actions := actions\<rparr>)}"

definition DeepCopy_MaintenanceJobSpec :: "'x library \<Rightarrow> ('x cell, nat option) copier" where
  "DeepCopy_MaintenanceJobSpec l = optional (new_of Zero as_spec CSpec (DeepCopyInto_MaintenanceJobSpec l))"

definition DeepCopyInto_CurrentRun :: "'x library \<Rightarrow> ('x cell, 'x run_struct) copier" where
  "DeepCopyInto_CurrentRun l x = do {
     started \<leftarrow> lib_time l (ru_started_at x);
     expires \<leftarrow> optional (lib_time_ptr l) (ru_expires_at x);
     State_Monad.return (x\<lparr>ru_started_at := started, ru_expires_at := expires\<rparr>)}"

definition DeepCopy_CurrentRun :: "'x library \<Rightarrow> ('x cell, nat option) copier" where
  "DeepCopy_CurrentRun l = optional (new_of Zero as_run CRun (DeepCopyInto_CurrentRun l))"

definition DeepCopyInto_ActiveAction :: "'x library \<Rightarrow> ('x cell, 'x active_struct) copier" where
  "DeepCopyInto_ActiveAction l x = do {
     applied \<leftarrow> optional (lib_time_ptr l) (at_applied_at x);
     revert \<leftarrow> lib_json l (at_revert x);
     State_Monad.return (x\<lparr>at_applied_at := applied, at_revert := revert\<rparr>)}"

definition DeepCopy_ActiveAction :: "'x library \<Rightarrow> ('x cell, nat option) copier" where
  "DeepCopy_ActiveAction l = optional (new_of Zero as_active CActive (DeepCopyInto_ActiveAction l))"

definition DeepCopyInto_RunHistoryEntry :: "'x library \<Rightarrow> ('x cell, 'x history_struct) copier" where
  "DeepCopyInto_RunHistoryEntry l x = do {
     started \<leftarrow> lib_time l (hs_started_at x);
     ended \<leftarrow> optional (lib_time_ptr l) (hs_ended_at x);
     State_Monad.return (x\<lparr>hs_started_at := started, hs_ended_at := ended\<rparr>)}"

definition DeepCopy_RunHistoryEntry :: "'x library \<Rightarrow> ('x cell, nat option) copier" where
  "DeepCopy_RunHistoryEntry l = optional (new_of Zero as_entry CEntry (DeepCopyInto_RunHistoryEntry l))"

definition DeepCopyInto_MaintenanceJobStatus :: "'x library \<Rightarrow> ('x cell, status_struct) copier" where
  "DeepCopyInto_MaintenanceJobStatus l x = do {
     run \<leftarrow> optional (new_of Zero as_run CRun (DeepCopyInto_CurrentRun l)) (us_current_run x);
     actives \<leftarrow> optional (slice_of Zero as_actives CActives (DeepCopyInto_ActiveAction l)) (us_active_actions x);
     history \<leftarrow> optional (slice_of Zero as_history CHistory (DeepCopyInto_RunHistoryEntry l)) (us_history x);
     conditions \<leftarrow> optional (slice_of Zero as_conditions CConditions (lib_condition l)) (us_conditions x);
     State_Monad.return (x\<lparr>us_current_run := run, us_active_actions := actives, us_history := history,
       us_conditions := conditions\<rparr>)}"

definition DeepCopy_MaintenanceJobStatus :: "'x library \<Rightarrow> ('x cell, nat option) copier" where
  "DeepCopy_MaintenanceJobStatus l = optional (new_of Zero as_status CStatus (DeepCopyInto_MaintenanceJobStatus l))"

definition DeepCopyInto_MaintenanceJob :: "'x library \<Rightarrow> ('x cell, 'x job_struct) copier" where
  "DeepCopyInto_MaintenanceJob l x = do {
     meta \<leftarrow> lib_meta l (mo_meta x);
     spec \<leftarrow> DeepCopyInto_MaintenanceJobSpec l (mo_spec x);
     status \<leftarrow> DeepCopyInto_MaintenanceJobStatus l (mo_status x);
     State_Monad.return (x\<lparr>mo_type_meta := mo_type_meta x, mo_meta := meta, mo_spec := spec, mo_status := status\<rparr>)}"

definition DeepCopy_MaintenanceJob :: "'x library \<Rightarrow> ('x cell, nat option) copier" where
  "DeepCopy_MaintenanceJob l = optional (new_of Zero as_job CJob (DeepCopyInto_MaintenanceJob l))"

definition DeepCopyInto_MaintenanceJobList :: "'x library \<Rightarrow> ('x cell, 'x list_struct) copier" where
  "DeepCopyInto_MaintenanceJobList l x = do {
     meta \<leftarrow> lib_list_meta l (ml_meta x);
     items \<leftarrow> optional (slice_of Zero as_jobs CJobs (DeepCopyInto_MaintenanceJob l)) (ml_items x);
     State_Monad.return (x\<lparr>ml_type_meta := ml_type_meta x, ml_meta := meta, ml_items := items\<rparr>)}"

definition DeepCopy_MaintenanceJobList :: "'x library \<Rightarrow> ('x cell, nat option) copier" where
  "DeepCopy_MaintenanceJobList l = optional (new_of Zero as_list CList (DeepCopyInto_MaintenanceJobList l))"

text \<open>
  A value of the interface \<^verbatim>\<open>runtime.Object\<close>: nil, or a typed pointer, which may itself be nil. An
  interface that holds a nil pointer is not nil.
\<close>

datatype runtime_object = NilObject | JobObject "nat option" | ListObject "nat option"

definition DeepCopyObject_MaintenanceJob :: "'x library \<Rightarrow> nat option \<Rightarrow> ('x cell memory, runtime_object) state" where
  "DeepCopyObject_MaintenanceJob l p = do {
     c \<leftarrow> DeepCopy_MaintenanceJob l p;
     State_Monad.return (if c \<noteq> None then JobObject c else NilObject)}"

definition DeepCopyObject_MaintenanceJobList :: "'x library \<Rightarrow> nat option \<Rightarrow> ('x cell memory, runtime_object) state" where
  "DeepCopyObject_MaintenanceJobList l p = do {
     c \<leftarrow> DeepCopy_MaintenanceJobList l p;
     State_Monad.return (if c \<noteq> None then ListObject c else NilObject)}"

end
