(* ===== verification/DeepCopyProps.thy ===== *)
theory DeepCopyProps
  imports DeepCopy
begin

text \<open>
  Deep copies share nothing with their originals. What a struct in memory means is a value of
  Types; the contract of Memory carries over from the libraries' copies (locale
  \<open>apimachinery\<close>) to every type of the API, field by field.
\<close>

section \<open>What the structs mean\<close>

record object_meta =
  om_name :: string
  om_namespace :: string
  om_uid :: string
  om_generation :: int
  om_resource_version :: nat
  om_deletion_timestamp :: "int option"
  om_finalizers :: "string list"
  om_annotations :: str_map

text \<open>What the libraries' structs mean in a memory.\<close>

record 'x meaning =
  den_time :: "'x cell memory \<Rightarrow> 'x \<Rightarrow> int option"
  den_env :: "'x cell memory \<Rightarrow> 'x \<Rightarrow> env_var option"
  den_json :: "'x cell memory \<Rightarrow> 'x \<Rightarrow> raw_json option"
  den_condition :: "'x cell memory \<Rightarrow> 'x \<Rightarrow> condition option"
  den_meta :: "'x cell memory \<Rightarrow> 'x \<Rightarrow> object_meta option"
  den_list_meta :: "'x cell memory \<Rightarrow> 'x \<Rightarrow> string option"

definition no_nil :: "'v list option \<Rightarrow> 'v list" where
  "no_nil vs = (case vs of None \<Rightarrow> [] | Some xs \<Rightarrow> xs)"

definition den_duration :: "'x cell memory \<Rightarrow> nat option \<Rightarrow> int option option" where
  "den_duration = maybe (target as_duration (\<lambda>h. Some))"

definition den_strings :: "'x cell memory \<Rightarrow> slice option \<Rightarrow> string list option option" where
  "den_strings = maybe (elements as_strings (\<lambda>h. Some))"

definition den_envs :: "'x meaning \<Rightarrow> 'x cell memory \<Rightarrow> slice option \<Rightarrow> env_var list option option" where
  "den_envs d = maybe (elements as_envs (den_env d))"

definition den_time_ptr :: "'x meaning \<Rightarrow> 'x cell memory \<Rightarrow> nat option \<Rightarrow> int option option" where
  "den_time_ptr d = maybe (target as_time (den_time d))"

definition den_trigger :: "'x cell memory \<Rightarrow> trigger_struct \<Rightarrow> trigger_spec option" where
  "den_trigger h x = do {
     duration \<leftarrow> den_duration h (tg_duration x);
     Some \<lparr>ts_run_id = tg_run_id x, ts_duration = duration\<rparr>}"

definition den_workload :: "'x meaning \<Rightarrow> 'x cell memory \<Rightarrow> workload_struct \<Rightarrow> workload_action option" where
  "den_workload d h x = do {
     command \<leftarrow> den_strings h (wo_command x);
     queries \<leftarrow> den_strings h (wo_queries x);
     interval \<leftarrow> den_duration h (wo_interval x);
     env \<leftarrow> den_envs d h (wo_env x);
     margin \<leftarrow> den_duration h (wo_deadline_margin x);
     Some \<lparr>wa_name = wo_name x, wa_image = wo_image x, wa_command = no_nil command, wa_engine = wo_engine x,
       wa_queries = no_nil queries, wa_concurrency = wo_concurrency x, wa_interval = interval, wa_env = no_nil env,
       wa_deadline_margin = margin, wa_colocate_with_app = wo_colocate_with_app x, wa_cpu_burn = wo_cpu_burn x\<rparr>}"

definition den_deploy_image :: "'x cell memory \<Rightarrow> deploy_image_struct \<Rightarrow> deploy_image_action option" where
  "den_deploy_image h x = do {
     timeout \<leftarrow> den_duration h (di_rollout_timeout x);
     Some \<lparr>da_target_ref = di_target_ref x, da_container = di_container x, da_image = di_image x,
       da_known_good_image = di_known_good_image x, da_rollout_timeout = timeout\<rparr>}"

definition den_dbexec :: "'x meaning \<Rightarrow> 'x cell memory \<Rightarrow> dbexec_struct \<Rightarrow> dbexec_action option" where
  "den_dbexec d h x = do {
     env \<leftarrow> den_envs d h (db_env x);
     ensure \<leftarrow> den_strings h (db_ensure x);
     revert \<leftarrow> den_strings h (db_revert x);
     Some \<lparr>de_name = db_name x, de_engine = db_engine x, de_env = no_nil env, de_ensure = no_nil ensure,
       de_revert = no_nil revert\<rparr>}"

definition den_chaos_mesh :: "'x meaning \<Rightarrow> 'x cell memory \<Rightarrow> 'x chaos_mesh_struct \<Rightarrow> chaos_mesh_action option" where
  "den_chaos_mesh d h x = do {
     spec \<leftarrow> den_json d h (cs_spec x);
     Some \<lparr>ca_kind = cs_kind x, ca_name = cs_name x, ca_spec = spec\<rparr>}"

definition den_action :: "'x meaning \<Rightarrow> 'x cell memory \<Rightarrow> action_struct \<Rightarrow> action option" where
  "den_action d h x = do {
     delay \<leftarrow> den_duration h (ac_delay x);
     workload \<leftarrow> maybe (target as_workload (den_workload d)) h (ac_workload x);
     scale \<leftarrow> maybe (target as_scale (\<lambda>h. Some)) h (ac_scale x);
     image \<leftarrow> maybe (target as_deploy_image den_deploy_image) h (ac_deploy_image x);
     chaos \<leftarrow> maybe (target as_chaos_mesh (den_chaos_mesh d)) h (ac_chaos_mesh x);
     exec \<leftarrow> maybe (target as_dbexec (den_dbexec d)) h (ac_dbexec x);
     Some \<lparr>act_name = ac_name x, act_type = ac_type x, act_delay = delay, act_workload = workload, act_scale = scale,
       act_deploy_image = image, act_chaos_mesh = chaos, act_dbexec = exec\<rparr>}"

definition den_spec :: "'x meaning \<Rightarrow> 'x cell memory \<Rightarrow> spec_struct \<Rightarrow> mj_spec option" where
  "den_spec d h x = do {
     symptoms \<leftarrow> den_strings h (ss_expected_symptoms x);
     trigger \<leftarrow> maybe (target as_trigger den_trigger) h (ss_trigger x);
     duration \<leftarrow> den_duration h (ss_duration x);
     actions \<leftarrow> maybe (elements as_actions (den_action d)) h (ss_actions x);
     Some \<lparr>sp_display_name = ss_display_name x, sp_description = ss_description x, sp_category = ss_category x,
       sp_icon = ss_icon x, sp_expected_symptoms = no_nil symptoms, sp_enabled = ss_enabled x, sp_trigger = trigger,
       sp_duration = duration, sp_actions = no_nil actions\<rparr>}"

definition den_run :: "'x meaning \<Rightarrow> 'x cell memory \<Rightarrow> 'x run_struct \<Rightarrow> current_run option" where
  "den_run d h x = do {
     started \<leftarrow> den_time d h (ru_started_at x);
     expires \<leftarrow> den_time_ptr d h (ru_expires_at x);
     Some \<lparr>cr_id = ru_id x, cr_trigger = ru_trigger x, cr_started_at = started, cr_expires_at = expires\<rparr>}"

definition den_active :: "'x meaning \<Rightarrow> 'x cell memory \<Rightarrow> 'x active_struct \<Rightarrow> active_action option" where
  "den_active d h x = do {
     applied \<leftarrow> den_time_ptr d h (at_applied_at x);
     revert \<leftarrow> den_json d h (at_revert x);
     Some \<lparr>aa_name = at_name x, aa_type = at_type x, aa_phase = at_phase x, aa_applied_at = applied,
       aa_attempts = at_attempts x, aa_last_error = at_last_error x, aa_revert = revert\<rparr>}"

definition den_entry :: "'x meaning \<Rightarrow> 'x cell memory \<Rightarrow> 'x history_struct \<Rightarrow> run_history_entry option" where
  "den_entry d h x = do {
     started \<leftarrow> den_time d h (hs_started_at x);
     ended \<leftarrow> den_time_ptr d h (hs_ended_at x);
     Some \<lparr>he_id = hs_id x, he_trigger = hs_trigger x, he_started_at = started, he_ended_at = ended,
       he_result = hs_result x, he_message = hs_message x\<rparr>}"

definition den_status :: "'x meaning \<Rightarrow> 'x cell memory \<Rightarrow> status_struct \<Rightarrow> mj_status option" where
  "den_status d h x = do {
     run \<leftarrow> maybe (target as_run (den_run d)) h (us_current_run x);
     actives \<leftarrow> maybe (elements as_actives (den_active d)) h (us_active_actions x);
     history \<leftarrow> maybe (elements as_history (den_entry d)) h (us_history x);
     conditions \<leftarrow> maybe (elements as_conditions (den_condition d)) h (us_conditions x);
     Some \<lparr>st_phase = us_phase x, st_current_run = run, st_active_actions = no_nil actives,
       st_last_completed_run_id = us_last_completed_run_id x, st_history = no_nil history,
       st_conditions = no_nil conditions, st_observed_generation = us_observed_generation x\<rparr>}"

definition den_job :: "'x meaning \<Rightarrow> 'x cell memory \<Rightarrow> 'x job_struct \<Rightarrow> (type_meta \<times> maintenance_job) option" where
  "den_job d h x = do {
     meta \<leftarrow> den_meta d h (mo_meta x);
     spec \<leftarrow> den_spec d h (mo_spec x);
     status \<leftarrow> den_status d h (mo_status x);
     Some (mo_type_meta x, \<lparr>mj_name = om_name meta, mj_namespace = om_namespace meta, mj_uid = om_uid meta,
       mj_generation = om_generation meta, mj_resource_version = om_resource_version meta,
       mj_deletion_timestamp = om_deletion_timestamp meta, mj_finalizers = om_finalizers meta,
       mj_annotations = om_annotations meta, mj_spec_of = spec, mj_status_of = status\<rparr>)}"

definition den_list ::
  "'x meaning \<Rightarrow> 'x cell memory \<Rightarrow> 'x list_struct \<Rightarrow> (type_meta \<times> string \<times> (type_meta \<times> maintenance_job) list option) option" where
  "den_list d h x = do {
     meta \<leftarrow> den_list_meta d h (ml_meta x);
     items \<leftarrow> maybe (elements as_jobs (den_job d)) h (ml_items x);
     Some (ml_type_meta x, meta, items)}"

lemma bind_grows:
  "a \<bind> f = Some v \<Longrightarrow> (\<And>x. a = Some x \<Longrightarrow> a' = Some x) \<Longrightarrow>
   (\<And>x. f x = Some v \<Longrightarrow> f' x = Some v) \<Longrightarrow> a' \<bind> f' = (Some v :: 'v option)"
  by (cases a) auto

section \<open>The types without foreign parts\<close>

interpretation duration: deep_copier copy_duration den_duration
  unfolding copy_duration_def den_duration_def
  by (intro deep_copier.optional_contract plain.target_contract) simp

interpretation strings: deep_copier copy_strings den_strings
  unfolding copy_strings_def den_strings_def
  by (intro deep_copier.optional_contract plain.elements_contract) simp

interpretation trigger: deep_copier DeepCopyInto_TriggerSpec den_trigger
proof
  show "den_trigger h' x = Some v" if "den_trigger h x = Some v" "prefix h h'" for h h' :: "'x cell memory" and x v
    using that by (auto simp: den_trigger_def bind_eq_Some_conv intro: duration.grows)
next
  fix h :: "'x cell memory" and x v assume "den_trigger h x = Some v"
  then show "builds h (DeepCopyInto_TriggerSpec x) (\<lambda>h2 y. den_trigger h2 y = Some v)"
    unfolding DeepCopyInto_TriggerSpec_def
    by (auto simp: den_trigger_def bind_eq_Some_conv intro!: duration.builds_bind [of h] builds_return)
qed

interpretation deploy_image: deep_copier DeepCopyInto_DeployImageAction den_deploy_image
proof
  show "den_deploy_image h' x = Some v" if "den_deploy_image h x = Some v" "prefix h h'"
    for h h' :: "'x cell memory" and x v
    using that by (auto simp: den_deploy_image_def bind_eq_Some_conv intro: duration.grows)
next
  fix h :: "'x cell memory" and x v assume "den_deploy_image h x = Some v"
  then show "builds h (DeepCopyInto_DeployImageAction x) (\<lambda>h2 y. den_deploy_image h2 y = Some v)"
    unfolding DeepCopyInto_DeployImageAction_def
    by (auto simp: den_deploy_image_def bind_eq_Some_conv intro!: duration.builds_bind [of h] builds_return)
qed

interpretation scale_ref: deep_copier DeepCopyInto_ScaleTargetRef "\<lambda>h. Some"
  unfolding DeepCopyInto_ScaleTargetRef_def by (rule plain.deep_copier_axioms [of "\<lambda>x. x"])

interpretation scale: deep_copier DeepCopyInto_ScaleAction "\<lambda>h. Some"
  by unfold_locales (simp_all add: DeepCopyInto_ScaleAction_def builds_return)

section \<open>The types with foreign parts\<close>

text \<open>What the Kubernetes libraries document of their own deep copies.\<close>

locale apimachinery =
  fixes l :: "'x library" and d :: "'x meaning"
  assumes time_copy: "deep_copier (lib_time l) (den_time d)"
    and time_ptr_copy: "deep_copier (lib_time_ptr l) (target as_time (den_time d))"
    and env_copy: "deep_copier (lib_env l) (den_env d)"
    and json_copy: "deep_copier (lib_json l) (den_json d)"
    and condition_copy: "deep_copier (lib_condition l) (den_condition d)"
    and meta_copy: "deep_copier (lib_meta l) (den_meta d)"
    and list_meta_copy: "deep_copier (lib_list_meta l) (den_list_meta d)"
begin

sublocale time: deep_copier "lib_time l" "den_time d"
  by (rule time_copy)

sublocale json: deep_copier "lib_json l" "den_json d"
  by (rule json_copy)

sublocale meta: deep_copier "lib_meta l" "den_meta d"
  by (rule meta_copy)

sublocale list_meta: deep_copier "lib_list_meta l" "den_list_meta d"
  by (rule list_meta_copy)

sublocale time_ptr: deep_copier "optional (lib_time_ptr l)" "den_time_ptr d"
  unfolding den_time_ptr_def by (intro deep_copier.optional_contract time_ptr_copy)

sublocale envs: deep_copier "copy_envs l" "den_envs d"
  unfolding copy_envs_def den_envs_def
  by (intro deep_copier.optional_contract deep_copier.elements_contract env_copy) simp

sublocale conditions: deep_copier
  "optional (slice_of Zero as_conditions CConditions (lib_condition l))" "maybe (elements as_conditions (den_condition d))"
  by (intro deep_copier.optional_contract deep_copier.elements_contract condition_copy) simp

sublocale workload: deep_copier "DeepCopyInto_WorkloadAction l" "den_workload d"
proof
  show "den_workload d h' x = Some v" if "den_workload d h x = Some v" "prefix h h'" for h h' x v
    using that unfolding den_workload_def by (auto elim!: bind_grows intro: strings.grows duration.grows envs.grows)
next
  show "builds h (DeepCopyInto_WorkloadAction l x) (\<lambda>h2 y. den_workload d h2 y = Some v)"
    if "den_workload d h x = Some v" for h x v
    using that unfolding DeepCopyInto_WorkloadAction_def
    by (auto simp: den_workload_def bind_eq_Some_conv
        intro!: strings.builds_bind [of h] duration.builds_bind [of h] envs.builds_bind [of h] builds_return)
qed

sublocale dbexec: deep_copier "DeepCopyInto_DBExecAction l" "den_dbexec d"
proof
  show "den_dbexec d h' x = Some v" if "den_dbexec d h x = Some v" "prefix h h'" for h h' x v
    using that unfolding den_dbexec_def by (auto elim!: bind_grows intro: strings.grows envs.grows)
next
  show "builds h (DeepCopyInto_DBExecAction l x) (\<lambda>h2 y. den_dbexec d h2 y = Some v)"
    if "den_dbexec d h x = Some v" for h x v
    using that unfolding DeepCopyInto_DBExecAction_def
    by (auto simp: den_dbexec_def bind_eq_Some_conv
        intro!: strings.builds_bind [of h] envs.builds_bind [of h] builds_return)
qed

sublocale chaos_mesh: deep_copier "DeepCopyInto_ChaosMeshAction l" "den_chaos_mesh d"
proof
  show "den_chaos_mesh d h' x = Some v" if "den_chaos_mesh d h x = Some v" "prefix h h'" for h h' x v
    using that unfolding den_chaos_mesh_def by (auto elim!: bind_grows intro: json.grows)
next
  show "builds h (DeepCopyInto_ChaosMeshAction l x) (\<lambda>h2 y. den_chaos_mesh d h2 y = Some v)"
    if "den_chaos_mesh d h x = Some v" for h x v
    using that unfolding DeepCopyInto_ChaosMeshAction_def
    by (auto simp: den_chaos_mesh_def bind_eq_Some_conv intro!: json.builds_bind [of h] builds_return)
qed

text \<open>A pointer to a struct, and a slice of structs.\<close>

lemma pointer_contract:
  assumes "deep_copier copy den" and "\<And>x. view (cell x) = Some x"
  shows "deep_copier (optional (new_of Zero view cell copy)) (maybe (target view den))"
  using assms by (intro deep_copier.optional_contract deep_copier.target_contract)

lemma slice_contract:
  assumes "deep_copier copy den" and "\<And>xs. view (cell xs) = Some xs"
  shows "deep_copier (optional (slice_of Zero view cell copy)) (maybe (elements view den))"
  using assms by (intro deep_copier.optional_contract deep_copier.elements_contract)

lemmas workload_ptr = pointer_contract [OF workload.deep_copier_axioms as_simps(6)]
lemmas scale_ptr = pointer_contract [OF plain.deep_copier_axioms [of "\<lambda>x. x"] as_simps(8)]
lemmas deploy_image_ptr = pointer_contract [OF deploy_image.deep_copier_axioms as_simps(9)]
lemmas dbexec_ptr = pointer_contract [OF dbexec.deep_copier_axioms as_simps(10)]
lemmas chaos_mesh_ptr = pointer_contract [OF chaos_mesh.deep_copier_axioms as_simps(11)]
lemmas trigger_ptr = pointer_contract [OF trigger.deep_copier_axioms as_simps(5)]

lemmas action_field_grows = duration.grows workload_ptr [THEN deep_copier.grows] scale_ptr [THEN deep_copier.grows]
  deploy_image_ptr [THEN deep_copier.grows] dbexec_ptr [THEN deep_copier.grows] chaos_mesh_ptr [THEN deep_copier.grows]

lemmas action_field_binds = duration.builds_bind workload_ptr [THEN deep_copier.builds_bind]
  scale_ptr [THEN deep_copier.builds_bind] deploy_image_ptr [THEN deep_copier.builds_bind]
  dbexec_ptr [THEN deep_copier.builds_bind] chaos_mesh_ptr [THEN deep_copier.builds_bind]

sublocale action: deep_copier "DeepCopyInto_Action l" "den_action d"
proof
  show "den_action d h' x = Some v" if "den_action d h x = Some v" "prefix h h'" for h h' x v
    using that unfolding den_action_def by (auto elim!: bind_grows intro: action_field_grows)
next
  show "builds h (DeepCopyInto_Action l x) (\<lambda>h2 y. den_action d h2 y = Some v)"
    if "den_action d h x = Some v" for h x v
    using that unfolding DeepCopyInto_Action_def
    by (auto simp: den_action_def bind_eq_Some_conv intro!: action_field_binds [of h] builds_return)
qed

lemmas actions_slice = slice_contract [OF action.deep_copier_axioms as_simps(13)]
lemmas spec_field_grows = duration.grows strings.grows trigger_ptr [THEN deep_copier.grows] actions_slice [THEN deep_copier.grows]
lemmas spec_field_binds = duration.builds_bind strings.builds_bind trigger_ptr [THEN deep_copier.builds_bind]
  actions_slice [THEN deep_copier.builds_bind]

sublocale spec: deep_copier "DeepCopyInto_MaintenanceJobSpec l" "den_spec d"
proof
  show "den_spec d h' x = Some v" if "den_spec d h x = Some v" "prefix h h'" for h h' x v
    using that unfolding den_spec_def by (auto elim!: bind_grows intro: spec_field_grows)
next
  show "builds h (DeepCopyInto_MaintenanceJobSpec l x) (\<lambda>h2 y. den_spec d h2 y = Some v)"
    if "den_spec d h x = Some v" for h x v
    using that unfolding DeepCopyInto_MaintenanceJobSpec_def
    by (auto simp: den_spec_def bind_eq_Some_conv intro!: spec_field_binds [of h] builds_return)
qed

sublocale run: deep_copier "DeepCopyInto_CurrentRun l" "den_run d"
proof
  show "den_run d h' x = Some v" if "den_run d h x = Some v" "prefix h h'" for h h' x v
    using that unfolding den_run_def by (auto elim!: bind_grows intro: time.grows time_ptr.grows)
next
  show "builds h (DeepCopyInto_CurrentRun l x) (\<lambda>h2 y. den_run d h2 y = Some v)" if "den_run d h x = Some v" for h x v
    using that unfolding DeepCopyInto_CurrentRun_def
    by (auto simp: den_run_def bind_eq_Some_conv
        intro!: time.builds_bind [of h] time_ptr.builds_bind [of h] builds_return)
qed

sublocale active: deep_copier "DeepCopyInto_ActiveAction l" "den_active d"
proof
  show "den_active d h' x = Some v" if "den_active d h x = Some v" "prefix h h'" for h h' x v
    using that unfolding den_active_def by (auto elim!: bind_grows intro: json.grows time_ptr.grows)
next
  show "builds h (DeepCopyInto_ActiveAction l x) (\<lambda>h2 y. den_active d h2 y = Some v)"
    if "den_active d h x = Some v" for h x v
    using that unfolding DeepCopyInto_ActiveAction_def
    by (auto simp: den_active_def bind_eq_Some_conv
        intro!: json.builds_bind [of h] time_ptr.builds_bind [of h] builds_return)
qed

sublocale entry: deep_copier "DeepCopyInto_RunHistoryEntry l" "den_entry d"
proof
  show "den_entry d h' x = Some v" if "den_entry d h x = Some v" "prefix h h'" for h h' x v
    using that unfolding den_entry_def by (auto elim!: bind_grows intro: time.grows time_ptr.grows)
next
  show "builds h (DeepCopyInto_RunHistoryEntry l x) (\<lambda>h2 y. den_entry d h2 y = Some v)"
    if "den_entry d h x = Some v" for h x v
    using that unfolding DeepCopyInto_RunHistoryEntry_def
    by (auto simp: den_entry_def bind_eq_Some_conv
        intro!: time.builds_bind [of h] time_ptr.builds_bind [of h] builds_return)
qed

lemmas run_ptr = pointer_contract [OF run.deep_copier_axioms as_simps(15)]
lemmas actives_slice = slice_contract [OF active.deep_copier_axioms as_simps(17)]
lemmas history_slice = slice_contract [OF entry.deep_copier_axioms as_simps(19)]
lemmas status_field_grows = run_ptr [THEN deep_copier.grows] actives_slice [THEN deep_copier.grows]
  history_slice [THEN deep_copier.grows] conditions.grows
lemmas status_field_binds = run_ptr [THEN deep_copier.builds_bind] actives_slice [THEN deep_copier.builds_bind]
  history_slice [THEN deep_copier.builds_bind] conditions.builds_bind

sublocale status: deep_copier "DeepCopyInto_MaintenanceJobStatus l" "den_status d"
proof
  show "den_status d h' x = Some v" if "den_status d h x = Some v" "prefix h h'" for h h' x v
    using that unfolding den_status_def by (auto elim!: bind_grows intro: status_field_grows)
next
  show "builds h (DeepCopyInto_MaintenanceJobStatus l x) (\<lambda>h2 y. den_status d h2 y = Some v)"
    if "den_status d h x = Some v" for h x v
    using that unfolding DeepCopyInto_MaintenanceJobStatus_def
    by (auto simp: den_status_def bind_eq_Some_conv intro!: status_field_binds [of h] builds_return)
qed

sublocale job: deep_copier "DeepCopyInto_MaintenanceJob l" "den_job d"
proof
  show "den_job d h' x = Some v" if "den_job d h x = Some v" "prefix h h'" for h h' x v
    using that unfolding den_job_def by (auto elim!: bind_grows intro: meta.grows spec.grows status.grows)
next
  show "builds h (DeepCopyInto_MaintenanceJob l x) (\<lambda>h2 y. den_job d h2 y = Some v)"
    if "den_job d h x = Some v" for h x v
    using that unfolding DeepCopyInto_MaintenanceJob_def
    by (auto simp: den_job_def bind_eq_Some_conv
        intro!: meta.builds_bind [of h] spec.builds_bind [of h] status.builds_bind [of h] builds_return)
qed

lemmas jobs_slice = slice_contract [OF job.deep_copier_axioms as_simps(23)]

sublocale job_list: deep_copier "DeepCopyInto_MaintenanceJobList l" "den_list d"
proof
  show "den_list d h' x = Some v" if "den_list d h x = Some v" "prefix h h'" for h h' x v
    using that unfolding den_list_def
    by (auto elim!: bind_grows intro: list_meta.grows jobs_slice [THEN deep_copier.grows])
next
  show "builds h (DeepCopyInto_MaintenanceJobList l x) (\<lambda>h2 y. den_list d h2 y = Some v)"
    if "den_list d h x = Some v" for h x v
    using that unfolding DeepCopyInto_MaintenanceJobList_def
    by (auto simp: den_list_def bind_eq_Some_conv
        intro!: list_meta.builds_bind [of h] jobs_slice [THEN deep_copier.builds_bind, of h] builds_return)
qed

sublocale job_ptr: deep_copier "DeepCopy_MaintenanceJob l" "maybe (target as_job (den_job d))"
  unfolding DeepCopy_MaintenanceJob_def by (rule pointer_contract [OF job.deep_copier_axioms as_simps(22)])

sublocale list_ptr: deep_copier "DeepCopy_MaintenanceJobList l" "maybe (target as_list (den_list d))"
  unfolding DeepCopy_MaintenanceJobList_def by (rule pointer_contract [OF job_list.deep_copier_axioms as_simps(24)])

lemma job_pointer: "deep_copier (DeepCopy_MaintenanceJob l) (maybe (target as_job (den_job d)))"
  by (rule job_ptr.deep_copier_axioms)

lemma list_pointer: "deep_copier (DeepCopy_MaintenanceJobList l) (maybe (target as_list (den_list d)))"
  by (rule list_ptr.deep_copier_axioms)

end

section \<open>A library in memory\<close>

text \<open>
  Library structs for the witnesses: raw JSON is a pointer to its bytes, as \<^verbatim>\<open>JSON.Raw\<close> is; the
  others are values.
\<close>

datatype foreign =
    FTime int | FEnv env_var | FJson nat | FBytes raw_json | FCondition condition | FMeta object_meta | FListMeta string

definition as_bytes :: "foreign cell \<Rightarrow> raw_json option" where
  "as_bytes c = (case c of CForeign (FBytes r) \<Rightarrow> Some r | _ \<Rightarrow> None)"

definition foreign_json :: "(foreign cell, foreign) copier" where
  "foreign_json x =
     (case x of
        FJson a \<Rightarrow> do { b \<leftarrow> new_of Zero as_bytes (\<lambda>r. CForeign (FBytes r)) plain a; State_Monad.return (FJson b) }
      | _ \<Rightarrow> State_Monad.return x)"

definition foreign_library :: "foreign library" where
  "foreign_library = \<lparr>lib_time = plain, lib_time_ptr = new_of Zero as_time CTime plain, lib_env = plain,
     lib_json = foreign_json, lib_condition = plain, lib_meta = plain, lib_list_meta = plain\<rparr>"

definition foreign_meaning :: "foreign meaning" where
  "foreign_meaning = \<lparr>
     den_time = (\<lambda>h x. case x of FTime t \<Rightarrow> Some t | _ \<Rightarrow> None),
     den_env = (\<lambda>h x. case x of FEnv e \<Rightarrow> Some e | _ \<Rightarrow> None),
     den_json = (\<lambda>h x. case x of FJson a \<Rightarrow> target as_bytes (\<lambda>h. Some) h a | _ \<Rightarrow> None),
     den_condition = (\<lambda>h x. case x of FCondition c \<Rightarrow> Some c | _ \<Rightarrow> None),
     den_meta = (\<lambda>h x. case x of FMeta m \<Rightarrow> Some m | _ \<Rightarrow> None),
     den_list_meta = (\<lambda>h x. case x of FListMeta m \<Rightarrow> Some m | _ \<Rightarrow> None)\<rparr>"

lemma foreign_meaning_simps [simp]:
  "den_json foreign_meaning h (FJson a) = target as_bytes (\<lambda>h. Some) h a"
  "den_meta foreign_meaning h (FMeta m) = Some m"
  by (simp_all add: foreign_meaning_def)

lemma plain_copier: "deep_copier plain (\<lambda>h. den)"
  by unfold_locales (simp_all add: plain_def builds_return)

lemma bytes_copier: "deep_copier (new_of Zero as_bytes (\<lambda>r. CForeign (FBytes r)) plain) (target as_bytes (\<lambda>h. Some))"
  by (intro deep_copier.target_contract plain_copier) (simp add: as_bytes_def)

lemma foreign_json_copier:
  "deep_copier foreign_json (\<lambda>h x. case x of FJson a \<Rightarrow> target as_bytes (\<lambda>h. Some) h a | _ \<Rightarrow> None)"
proof
  show "(case x of FJson a \<Rightarrow> target as_bytes (\<lambda>h. Some) h' a | _ \<Rightarrow> None) = Some v"
    if "(case x of FJson a \<Rightarrow> target as_bytes (\<lambda>h. Some) h a | _ \<Rightarrow> None) = Some v" "prefix h h'" for h h' x v
    using that by (auto intro: deep_copier.grows [OF bytes_copier] split: foreign.splits)
next
  fix h x v assume "(case x of FJson a \<Rightarrow> target as_bytes (\<lambda>h. Some) h a | _ \<Rightarrow> None) = Some v"
  then show "builds h (foreign_json x)
      (\<lambda>h2 y. (case y of FJson a \<Rightarrow> target as_bytes (\<lambda>h. Some) h2 a | _ \<Rightarrow> None) = Some v)"
    by (auto simp: foreign_json_def intro!: deep_copier.builds_bind [OF bytes_copier, of h] builds_return
        split: foreign.splits)
qed

lemma foreign_apimachinery: "apimachinery foreign_library foreign_meaning"
proof (rule apimachinery.intro)
  show "deep_copier (lib_time_ptr foreign_library) (target as_time (den_time foreign_meaning))"
    unfolding foreign_library_def foreign_meaning_def library.simps meaning.simps
    by (intro deep_copier.target_contract plain_copier) simp
  show "deep_copier (lib_json foreign_library) (den_json foreign_meaning)"
    by (simp add: foreign_library_def foreign_meaning_def foreign_json_copier)
qed (simp_all add: foreign_library_def foreign_meaning_def plain_copier)

interpretation foreign: apimachinery foreign_library foreign_meaning
  by (rule foreign_apimachinery)

section \<open>The properties\<close>

lemma optional_nil_iff: "fst (run_state (optional copy p) h) = None \<longleftrightarrow> p = None"
  by (cases p) (simp_all add: optional_def State_Monad.bind_def split: prod.splits)


text \<open>C18. A deep copy of a MaintenanceJob behind a pointer: it writes to no cell that was there before;
  nil gives nil; whatever is written later to the new cells, the original means what it meant; and
  whatever is written later to the old cells, the copy means what the original meant.\<close>

theorem deep_copy_separate:
  assumes "apimachinery l d" and "maybe (target as_job (den_job d)) h p = Some v"
    and "run_state (DeepCopy_MaintenanceJob l p) h = (q, h1)"
  shows "take (length h) h1 = h \<and> (q = None \<longleftrightarrow> p = None)
    \<and> (\<forall>h2. length h \<le> length h2 \<and> (\<forall>i < length h. h2 ! i = h ! i)
         \<longrightarrow> maybe (target as_job (den_job d)) h2 p = Some v)
    \<and> (\<forall>h2. length h1 \<le> length h2 \<and> (\<forall>i. length h \<le> i \<and> i < length h1 \<longrightarrow> h2 ! i = h1 ! i)
         \<longrightarrow> maybe (target as_job (den_job d)) h2 q = Some v)"
proof -
  note copier = apimachinery.job_pointer [OF assms(1)]
  have "take (length h) h1 = h"
    using deep_copier.copy_separate(1) [OF copier assms(2,3)] by (auto simp: prefix_def)
  moreover have "q = None \<longleftrightarrow> p = None"
    using assms(3) optional_nil_iff [of "new_of Zero as_job CJob (DeepCopyInto_MaintenanceJob l)" p h]
    by (simp add: DeepCopy_MaintenanceJob_def)
  moreover have "maybe (target as_job (den_job d)) h2 p = Some v"
    if "length h \<le> length h2 \<and> (\<forall>i < length h. h2 ! i = h ! i)" for h2
    using deep_copier.original_kept [OF copier assms(2)] that by blast
  moreover have "maybe (target as_job (den_job d)) h2 q = Some v"
    if "length h1 \<le> length h2 \<and> (\<forall>i. length h \<le> i \<and> i < length h1 \<longrightarrow> h2 ! i = h1 ! i)" for h2
    using deep_copier.copy_separate(2) [OF copier assms(2,3)] that by (simp add: same_from_def)
  ultimately show ?thesis by blast
qed

definition sample_meta :: object_meta where
  "sample_meta = \<lparr>om_name = ''outage'', om_namespace = ''shop'', om_uid = ''u1'', om_generation = 1,
     om_resource_version = 7, om_deletion_timestamp = None, om_finalizers = [], om_annotations = Map.empty\<rparr>"

definition sample_job :: "foreign job_struct" where
  "sample_job = \<lparr>mo_type_meta = \<lparr>tm_kind = ''MaintenanceJob'', tm_api_version = ''v1alpha1''\<rparr>,
     mo_meta = FMeta sample_meta,
     mo_spec = \<lparr>ss_display_name = ''Outage'', ss_description = [], ss_category = ''app'', ss_icon = [],
       ss_expected_symptoms = None, ss_enabled = True, ss_trigger = None, ss_duration = None,
       ss_actions = Some \<lparr>sl_base = 2, sl_off = 0, sl_len = 1\<rparr>\<rparr>,
     mo_status = \<lparr>us_phase = PhaseActive, us_current_run = None,
       us_active_actions = Some \<lparr>sl_base = 4, sl_off = 1, sl_len = 1\<rparr>, us_last_completed_run_id = [],
       us_history = None, us_conditions = None, us_observed_generation = 1\<rparr>\<rparr>"

text \<open>A memory with a MaintenanceJob at address 5; the active action is the second of its array.\<close>

definition sample_memory :: "foreign cell memory" where
  "sample_memory =
     [CDuration 5,
      CScale \<lparr>sa_target_ref = \<lparr>tr_kind = ''Deployment'', tr_name = ''cart''\<rparr>, sa_replicas = 0\<rparr>,
      CActions [\<lparr>ac_name = ''down'', ac_type = ActionTypeScale, ac_delay = Some 0, ac_workload = None,
        ac_scale = Some 1, ac_deploy_image = None, ac_chaos_mesh = None, ac_dbexec = None\<rparr>],
      CForeign (FBytes (Raw (JNum 3))),
      (let aa = \<lparr>at_name = ''down'', at_type = ActionTypeScale, at_phase = ActionPhaseApplied,
         at_applied_at = None, at_attempts = 0, at_last_error = [], at_revert = FJson 3\<rparr> in CActives [aa, aa]),
      CJob sample_job]"

lemma sample_means:
  "\<exists>v. maybe (target as_job (den_job foreign_meaning)) sample_memory (Some 5) = Some (Some v)
     \<and> map act_delay (sp_actions (mj_spec_of (snd v))) = [Some 5]
     \<and> map aa_revert (st_active_actions (mj_status_of (snd v))) = [Raw (JNum 3)]"
  by (simp add: sample_memory_def sample_job_def Let_def maybe_def target_def den_job_def den_spec_def
      den_status_def den_action_def den_active_def den_strings_def den_duration_def den_time_ptr_def elements_def
      window_def no_nil_def as_bytes_def)

theorem deep_copy_separate_witness:
  "\<exists>v q h1. run_state (DeepCopy_MaintenanceJob foreign_library (Some 5)) sample_memory = (Some q, h1)
     \<and> maybe (target as_job (den_job foreign_meaning)) (replicate 6 Zero @ drop 6 h1) (Some q) = Some (Some v)
     \<and> map act_delay (sp_actions (mj_spec_of (snd v))) = [Some 5]
     \<and> map aa_revert (st_active_actions (mj_status_of (snd v))) = [Raw (JNum 3)]"
proof -
  obtain v where v: "maybe (target as_job (den_job foreign_meaning)) sample_memory (Some 5) = Some (Some v)"
    "map act_delay (sp_actions (mj_spec_of (snd v))) = [Some 5]"
    "map aa_revert (st_active_actions (mj_status_of (snd v))) = [Raw (JNum 3)]"
    using sample_means by (elim exE conjE) (rule that)
  obtain q h1 where run: "run_state (DeepCopy_MaintenanceJob foreign_library (Some 5)) sample_memory = (q, h1)"
    by fastforce
  note separate = deep_copy_separate [OF foreign_apimachinery v(1) run]
  have six: "length sample_memory = 6" by (simp add: sample_memory_def)
  have "length (take 6 h1) = 6" using separate six by metis
  then have long: "6 \<le> length h1" by simp
  then have "maybe (target as_job (den_job foreign_meaning)) (replicate 6 Zero @ drop 6 h1) q = Some (Some v)"
    using separate six by (simp add: nth_append)
  moreover obtain q' where "q = Some q'" using separate by auto
  ultimately show ?thesis using run v(2,3) by (intro exI [of _ v] exI [of _ q'] exI [of _ h1] conjI) simp_all
qed

text \<open>\<^verbatim>\<open>DeepCopyObject\<close> of a nil pointer is the nil interface, never an interface that holds a nil
  pointer; of any other pointer it is a pointer to a new object of the same type.\<close>

theorem deep_copy_object:
  "fst (run_state (DeepCopyObject_MaintenanceJob l p) h)
     = (case p of None \<Rightarrow> NilObject | Some a \<Rightarrow> JobObject (Some (length h)))
   \<and> fst (run_state (DeepCopyObject_MaintenanceJobList l p) h)
     = (case p of None \<Rightarrow> NilObject | Some a \<Rightarrow> ListObject (Some (length h)))"
  by (cases p)
     (simp_all add: DeepCopyObject_MaintenanceJob_def DeepCopyObject_MaintenanceJobList_def DeepCopy_MaintenanceJob_def
       DeepCopy_MaintenanceJobList_def optional_def new_of_def alloc_def State_Monad.bind_def split: prod.splits)

end
