(* ===== verification/Lifecycle.thy ===== *)
theory Lifecycle
  imports Draining Invariant
begin

text \<open>
  The abstract life of a scenario, and what connects the reconciler to it. The abstract state is
  the run in progress and the tokens of what is injected, a stack; a run starts on the empty
  stack, tokens are pushed during a run, the top is popped when its revert is done, and a run
  ends on the empty stack. The contract \<open>single_writer\<close> says that nobody but the reconciler
  writes the status of the scenario, whatever others do to its spec or to the cluster.
\<close>

section \<open>The abstract life\<close>

type_synonym token_entry = "string \<times> action_type \<times> raw_json"

record life =
  lf_run :: "current_run option"
  lf_tokens :: "token_entry list"

inductive push :: "life \<Rightarrow> life \<Rightarrow> bool" where
  push: "n \<notin> fst ` set ts \<Longrightarrow>
     push \<lparr>lf_run = Some run, lf_tokens = ts\<rparr> \<lparr>lf_run = Some run, lf_tokens = ts @ [(n, ty, token)]\<rparr>"

inductive life_step :: "life \<Rightarrow> life \<Rightarrow> bool" where
  start: "life_step \<lparr>lf_run = None, lf_tokens = []\<rparr> \<lparr>lf_run = Some run, lf_tokens = []\<rparr>"
| pushed: "push l l' \<Longrightarrow> life_step l l'"
| pop: "life_step \<lparr>lf_run = run, lf_tokens = ts @ [t]\<rparr> \<lparr>lf_run = run, lf_tokens = ts\<rparr>"
| finish: "life_step \<lparr>lf_run = Some run, lf_tokens = []\<rparr> \<lparr>lf_run = None, lf_tokens = []\<rparr>"

inductive_cases push_cases: "push l l'"
inductive_cases life_step_cases: "life_step l l'"

text \<open>What one call of Reconcile may do: push some tokens, or take one of the other steps.\<close>

definition pass :: "life \<Rightarrow> life \<Rightarrow> bool" where
  "pass l l' \<longleftrightarrow> push\<^sup>*\<^sup>* l l' \<or> life_step l l'"

definition life_ok :: "life \<Rightarrow> bool" where
  "life_ok l \<longleftrightarrow> distinct (map fst (lf_tokens l)) \<and> (lf_run l = None \<longrightarrow> lf_tokens l = [])"

lemma life_step_ok: "life_step l l' \<Longrightarrow> life_ok l \<Longrightarrow> life_ok l'"
  by (auto simp: life_ok_def elim!: life_step_cases push_cases)

lemma push_path: "push\<^sup>*\<^sup>* l l' \<Longrightarrow> life_step\<^sup>*\<^sup>* l l'"
  by (induction rule: rtranclp.induct) (auto intro: rtranclp.rtrancl_into_rtrancl life_step.pushed)

lemma pass_path: "pass l l' \<Longrightarrow> life_step\<^sup>*\<^sup>* l l'"
  by (auto simp: pass_def push_path)

lemma path_ok: "life_step\<^sup>*\<^sup>* l l' \<Longrightarrow> life_ok l \<Longrightarrow> life_ok l'"
  by (induction rule: rtranclp.induct) (auto intro: life_step_ok)

lemma pass_ok: "pass l l' \<Longrightarrow> life_ok l \<Longrightarrow> life_ok l'"
  using path_ok pass_path by blast

lemma pass_refl [simp]: "pass l l"
  by (simp add: pass_def)

text \<open>The tokens are a stack: one call only adds on top, or removes one from the top.\<close>

lemma push_prefix: "push\<^sup>*\<^sup>* l l' \<Longrightarrow> lf_run l' = lf_run l \<and> prefix (lf_tokens l) (lf_tokens l')"
  by (induction rule: rtranclp.induct) (auto elim!: push_cases simp: prefix_def)

lemma pass_stack:
  "pass l l' \<Longrightarrow> (prefix (lf_tokens l) (lf_tokens l') \<and> (lf_tokens l \<noteq> [] \<longrightarrow> lf_run l' = lf_run l))
     \<or> lf_tokens l' = butlast (lf_tokens l)"
  by (auto simp: pass_def dest: push_prefix elim!: life_step_cases push_cases)

section \<open>The life of a stored status\<close>

definition entry_of :: "active_action \<Rightarrow> token_entry" where
  "entry_of a = (aa_name a, aa_type a, aa_revert a)"

definition life_of :: "mj_status \<Rightarrow> life" where
  "life_of s = \<lparr>lf_run = st_current_run s, lf_tokens = map entry_of (st_active_actions s)\<rparr>"

lemma entry_name [simp]: "fst (entry_of a) = aa_name a"
  by (simp add: entry_of_def)

lemma life_of_simps [simp]:
  "lf_run (life_of s) = st_current_run s" "lf_tokens (life_of s) = map entry_of (st_active_actions s)"
  "life_of (s\<lparr>st_phase := p\<rparr>) = life_of s" "life_of (s\<lparr>st_conditions := cs\<rparr>) = life_of s"
  "life_of (s\<lparr>st_observed_generation := n\<rparr>) = life_of s" "life_of (setCondition c g ty b re m v s) = life_of s"
  by (simp_all add: life_of_def setCondition_def)

lemma update_active_entries:
  "(\<And>a. entry_of (f a) = entry_of a) \<Longrightarrow> map entry_of (update_active n f xs) = map entry_of xs"
  by (auto simp: update_active_def map_update list_update_id split: option.splits
      dest!: findActiveAction_Some) (metis list_update_id nth_map)

lemma life_of_mutation [simp]:
  "(\<And>a. entry_of (f a) = entry_of a) \<Longrightarrow> life_of (statusMutation n f v s) = life_of s"
  by (simp add: life_of_def statusMutation_def update_active_entries)

lemma marks_entry [simp]:
  "entry_of (mark_failed e a) = entry_of a" "entry_of (mark_applied now a) = entry_of a"
  "entry_of (mark_reverting a) = entry_of a" "entry_of (mark_revert_failed n e a) = entry_of a"
  by (simp_all add: entry_of_def mark_failed_def mark_applied_def mark_reverting_def mark_revert_failed_def Let_def)

lemma life_of_revert_failed [simp]: "life_of (revert_failed c g aa n e v s) = life_of s"
  by (simp add: revert_failed_def Let_def)

lemma life_of_record:
  assumes "st_current_run s = Some run"
  shows "push\<^sup>*\<^sup>* (life_of s) (life_of (record_token aa v s))"
proof (cases "findActiveAction (st_active_actions s) (aa_name aa) = None")
  case True
  then have "push (life_of s) (life_of (record_token aa v s))"
    using assms push.push [of "aa_name aa" "map entry_of (st_active_actions s)" run "aa_type aa" "aa_revert aa"]
    by (auto simp: life_of_def record_token_def findActiveAction_None image_image) (simp add: entry_of_def)
  then show ?thesis by blast
qed (auto simp: record_token_def)

lemma life_of_drop:
  assumes "distinct (map aa_name (st_active_actions s))" and "st_active_actions s \<noteq> []"
  shows "life_step (life_of s) (life_of (drop_active (aa_name (last (st_active_actions s))) v s))"
proof -
  obtain xs aa where eq: "st_active_actions s = xs @ [aa]"
    using assms(2) by (meson rev_exhaust)
  then have "st_active_actions (drop_active (aa_name aa) v s) = xs"
    using assms(1) by (intro drop_last_active) auto
  then show ?thesis
    using eq life_step.pop [of "st_current_run s" "map entry_of xs" "entry_of aa"] by (simp add: life_of_def)
qed

lemma life_of_close:
  "st_active_actions s = [] \<Longrightarrow> st_current_run s = Some run \<Longrightarrow>
   life_step (life_of s) (life_of (close_run c g entry i v s))"
  by (simp add: life_of_def close_run_def setCondition_def life_step.finish)

lemma life_of_start:
  "st_active_actions s = [] \<Longrightarrow> st_current_run s = None \<Longrightarrow>
   life_step (life_of s) (life_of (s\<lparr>st_current_run := Some run, st_phase := p\<rparr>))"
  by (simp add: life_of_def life_step.start)

section \<open>The only writer of the status\<close>

text \<open>
  \<open>stored w\<close> is the status stored for the scenario \<open>k\<close>, None when the resource is gone. Others may
  change all else at any time, and may delete the resource.
\<close>

definition keeps :: "('w \<Rightarrow> mj_status option) \<Rightarrow> 'w \<Rightarrow> 'w \<Rightarrow> bool" where
  "keeps stored w w' \<longleftrightarrow> stored w' = stored w \<or> stored w' = None"

definition synced :: "('w \<Rightarrow> mj_status option) \<Rightarrow> nsname \<Rightarrow> 'w \<Rightarrow> maintenance_job \<Rightarrow> bool" where
  "synced stored k w fs \<longleftrightarrow> mj_key fs = k \<and> (stored w = None \<or> stored w = Some (mj_status_of fs))"

definition follows :: "(life \<Rightarrow> life \<Rightarrow> bool) \<Rightarrow> ('w \<Rightarrow> mj_status option) \<Rightarrow> 'w \<Rightarrow> 'w \<Rightarrow> bool" where
  "follows R stored w w' \<longleftrightarrow>
     (\<forall>s'. stored w' = Some s' \<longrightarrow> (\<exists>s. stored w = Some s \<and> R (life_of s) (life_of s')))"

lemma keeps_refl [simp]: "keeps stored w w"
  by (simp add: keeps_def)

lemma keeps_trans: "keeps stored w w1 \<Longrightarrow> keeps stored w1 w2 \<Longrightarrow> keeps stored w w2"
  by (auto simp: keeps_def)

lemma keeps_follows: "keeps stored w w' \<Longrightarrow> (\<And>l. R l l) \<Longrightarrow> follows R stored w w'"
  by (auto simp: keeps_def follows_def)

lemma keeps_follows_trans: "keeps stored w w1 \<Longrightarrow> follows R stored w1 w2 \<Longrightarrow> follows R stored w w2"
  by (auto simp: keeps_def follows_def)

lemma follows_keeps_trans: "follows R stored w w1 \<Longrightarrow> keeps stored w1 w2 \<Longrightarrow> follows R stored w w2"
  by (auto simp: keeps_def follows_def)

lemma follows_trans:
  "follows R stored w w1 \<Longrightarrow> follows R stored w1 w2 \<Longrightarrow> (\<And>a b c. R a b \<Longrightarrow> R b c \<Longrightarrow> R a c) \<Longrightarrow> follows R stored w w2"
  unfolding follows_def by blast

lemma follows_mono: "follows R stored w w' \<Longrightarrow> (\<And>a b. R a b \<Longrightarrow> S a b) \<Longrightarrow> follows S stored w w'"
  unfolding follows_def by blast

lemma synced_keeps: "synced stored k w fs \<Longrightarrow> keeps stored w w' \<Longrightarrow> synced stored k w' fs"
  by (auto simp: synced_def keeps_def)

lemma synced_status: "synced stored k w fs \<Longrightarrow> mj_status_of fs' = mj_status_of fs \<Longrightarrow> mj_key fs' = mj_key fs \<Longrightarrow> synced stored k w fs'"
  by (simp add: synced_def)

locale single_writer =
  fixes c :: "'w client" and k :: nsname and stored :: "'w \<Rightarrow> mj_status option"
  assumes retry: "conflict_retry (retryOnConflict c)"
    and read: "getMJ c w k = Inr fs \<Longrightarrow> mj_key fs = k \<and> stored w = Some (mj_status_of fs)"
    and status_write: "updateMJStatus c w fs = (res, w') \<Longrightarrow> mj_key fs = k \<Longrightarrow>
      (case res of
         Inr fs' \<Rightarrow> synced stored k w' fs' \<and> mj_status_of fs' = mj_status_of fs
       | Inl e \<Rightarrow> keeps stored w w' \<or> \<not> isConflict e \<and> stored w' = Some (mj_status_of fs))"
    and spec_write: "updateMJ c w fs = (res, w') \<Longrightarrow>
      keeps stored w w' \<and> (\<forall>fs'. mj_key fs = k \<longrightarrow> res = Inr fs' \<longrightarrow> synced stored k w' fs' \<and> stored w = Some (mj_status_of fs'))"
    and finalizer_key: "mj_key (addFinalizer c fs f) = mj_key fs" "mj_key (removeFinalizer c fs f) = mj_key fs"
    and other_writes:
      "keeps stored w (snd (createJob c w j))" "keeps stored w (snd (deleteJob c w p j))"
      "keeps stored w (snd (patchDeployment c w d d'))" "keeps stored w (snd (createChaos c w x))"
      "keeps stored w (snd (deleteChaos c w p x))" "keeps stored w (snd (createConfigMap c w m))"
      "keeps stored w (snd (updateConfigMap c w m))" "keeps stored w (recordEvent c w e)"
      "keeps stored w (snd (newUUID c w))"
begin

lemma other_writes_eq:
  "createJob c w j = (r, w') \<Longrightarrow> keeps stored w w'" "deleteJob c w p j = (r, w') \<Longrightarrow> keeps stored w w'"
  "patchDeployment c w d d' = (r, w') \<Longrightarrow> keeps stored w w'" "createChaos c w x = (r, w') \<Longrightarrow> keeps stored w w'"
  "deleteChaos c w p x = (r, w') \<Longrightarrow> keeps stored w w'" "createConfigMap c w m = (r, w') \<Longrightarrow> keeps stored w w'"
  "updateConfigMap c w m = (r, w') \<Longrightarrow> keeps stored w w'"
  using other_writes by (metis snd_conv)+

lemma runJob_keeps: "runJob c rc n en env qs w = (out, w') \<Longrightarrow> keeps stored w w'"
  using other_writes by (fastforce simp: runJob_def Let_def dest: other_writes_eq split: sum.splits if_splits option.splits prod.splits)

lemma action_keeps:
  assumes "Get ty = Some impl"
  shows "ai_ensure impl c rc act token w = (out, w') \<Longrightarrow> keeps stored w w'"
    and "ai_revert impl c rc token w = (out, w') \<Longrightarrow> keeps stored w w'"
proof -
  show "keeps stored w w'" if "ai_ensure impl c rc act token w = (out, w')"
    using assms that
    by (cases ty; auto simp: Workload_Ensure_def Scale_Ensure_def DeployImage_Ensure_def ChaosMesh_Ensure_def
        DBExec_Ensure_def Let_def dest: other_writes_eq runJob_keeps
        split: sum.splits if_splits option.splits prod.splits)
  show "keeps stored w w'" if "ai_revert impl c rc token w = (out, w')"
    using assms that
    by (cases ty; auto simp: Workload_Revert_def Scale_Revert_def DeployImage_Revert_def ChaosMesh_Revert_def
        DBExec_Revert_def Let_def dest: other_writes_eq runJob_keeps
        split: sum.splits if_splits option.splits prod.splits)
qed

end

context single_writer
begin

section \<open>A status update\<close>

text \<open>The status the mutation makes of the one known to the reconciler.\<close>

lemma patch_once_follows:
  assumes "synced stored k w fs" and "patch_once c fs m w = (res, w')"
    and R: "\<And>v. R (life_of (mj_status_of fs)) (life_of (m v (mj_status_of fs)))" and refl: "\<And>l. R l l"
  shows "follows R stored w w'"
    and "res = Inr fs' \<Longrightarrow> synced stored k w' fs'
      \<and> (\<exists>v n. mj_status_of fs' = (m v (mj_status_of fs))\<lparr>st_observed_generation := n\<rparr>)"
    and "res = Inl e \<Longrightarrow> isConflict e \<Longrightarrow> keeps stored w w'"
proof -
  have key: "mj_key fs = k" using assms(1) by (simp add: synced_def)
  have "follows R stored w w'
    \<and> (\<forall>fs'. res = Inr fs' \<longrightarrow> synced stored k w' fs'
      \<and> (\<exists>v n. mj_status_of fs' = (m v (mj_status_of fs))\<lparr>st_observed_generation := n\<rparr>))
    \<and> (\<forall>e. res = Inl e \<longrightarrow> isConflict e \<longrightarrow> keeps stored w w')"
  proof (cases "getMJ c w k")
    case (Inl e)
    then show ?thesis using assms(2) key refl by (auto simp: patch_once_def keeps_follows)
  next
    case (Inr latest)
    let ?s = "(m w (mj_status_of latest))\<lparr>st_observed_generation := mj_generation latest\<rparr>"
    let ?new = "latest\<lparr>mj_status_of := ?s\<rparr>"
    have latest: "mj_key latest = k" "stored w = Some (mj_status_of latest)" using read [OF Inr] by auto
    then have same: "mj_status_of latest = mj_status_of fs" using assms(1) by (simp add: synced_def)
    have upd: "updateMJStatus c w ?new = (res, w')" using assms(2) Inr key by (simp add: patch_once_def)
    have "mj_key ?new = k" using latest by (simp add: mj_key_def)
    note law = status_write [OF upd this]
    have R': "R (life_of (mj_status_of latest)) (life_of ?s)" unfolding life_of_simps using R same by simp
    show ?thesis
    proof (cases res)
      case (Inl e)
      then show ?thesis using law R' refl latest(2) by (auto simp: follows_def keeps_def)
    next
      case (Inr fs')
      then have sync: "synced stored k w' fs'" and status: "mj_status_of fs' = ?s" using law by auto
      have "stored w' = None \<or> stored w' = Some ?s" using sync unfolding synced_def status by blast
      then have "follows R stored w w'" using R' latest(2) by (auto simp: follows_def)
      then show ?thesis using law Inr same by auto
    qed
  qed
  then show "follows R stored w w'"
    and "res = Inr fs' \<Longrightarrow> synced stored k w' fs'
      \<and> (\<exists>v n. mj_status_of fs' = (m v (mj_status_of fs))\<lparr>st_observed_generation := n\<rparr>)"
    and "res = Inl e \<Longrightarrow> isConflict e \<Longrightarrow> keeps stored w w'"
    by auto
qed

lemma patch_follows:
  assumes "r_client r = c" and "synced stored k w fs" and "patchStatus r fs m w = (res, w')"
    and R: "\<And>v. R (life_of (mj_status_of fs)) (life_of (m v (mj_status_of fs)))" and refl: "\<And>l. R l l"
  shows "follows R stored w w'"
    and "res = Inr fs' \<Longrightarrow> synced stored k w' fs'
      \<and> (\<exists>v n. mj_status_of fs' = (m v (mj_status_of fs))\<lparr>st_observed_generation := n\<rparr>)"
proof -
  have "retryOnConflict c (patch_once c fs m) w = (res, w')"
    using assms(1,3) by (simp add: patchStatus_def)
  have step: "keeps stored w w2" if "keeps stored w w1" "patch_once c fs m w1 = (Inl e, w2)" "isConflict e" for w1 e w2
    using patch_once_follows(3) [where R = R, OF synced_keeps [OF assms(2) that(1)] that(2) R refl _ that(3)]
      keeps_trans [OF that(1)] by blast
  have "\<exists>w0. keeps stored w w0 \<and> patch_once c fs m w0 = (res, w')"
    by (rule conflict_retry.last_run_from [OF retry \<open>retryOnConflict c (patch_once c fs m) w = (res, w')\<close> keeps_refl])
      (rule step)
  then obtain w0 where w0: "keeps stored w w0" "patch_once c fs m w0 = (res, w')" by blast
  have sync: "synced stored k w0 fs" by (rule synced_keeps [OF assms(2) w0(1)])
  show "follows R stored w w'"
    using keeps_follows_trans [OF w0(1)] patch_once_follows(1) [where R = R, OF sync w0(2) R refl] by blast
  show "res = Inr fs' \<Longrightarrow> synced stored k w' fs'
      \<and> (\<exists>v n. mj_status_of fs' = (m v (mj_status_of fs))\<lparr>st_observed_generation := n\<rparr>)"
    using patch_once_follows(2) [where R = R, OF sync w0(2) R refl] by blast
qed

lemma event_keeps: "r_client r = c \<Longrightarrow> keeps stored w (eventf r fs ty re m w)"
  using other_writes(8) by (simp add: eventf_def)

text \<open>An update that leaves the life alone, such as a phase, a condition or a mark.\<close>

lemma stutter:
  assumes "r_client r = c" and "synced stored k w fs" and "patchStatus r fs m w = (res, w')"
    and "\<And>v s. life_of (m v s) = life_of s" and "\<And>l. R l l"
  shows "follows R stored w w'"
    and "res = Inr fs' \<Longrightarrow> synced stored k w' fs' \<and> life_of (mj_status_of fs') = life_of (mj_status_of fs)"
  using patch_follows [where R = R, OF assms(1-3)] assms(4,5) by fastforce+

end

end
