(* ===== verification/LifecycleProps.thy ===== *)
theory LifecycleProps
  imports Lifecycle Api
begin

text \<open>
  Reconcile refines the abstract life of a scenario: every call, whatever fails on the way, does
  at most what \<open>pass\<close> allows, and so the invariant of the abstract life holds in every state that
  Reconcile, the API server and everybody else can reach.
\<close>

section \<open>The steps of Reconcile\<close>

text \<open>A turn of the activation pushes, and knows the status it has stored.\<close>

definition good_turn :: "('w \<Rightarrow> mj_status option) \<Rightarrow> nsname \<Rightarrow> 'w \<Rightarrow> 'w turn \<Rightarrow> bool" where
  "good_turn stored k w t \<longleftrightarrow>
     (case t of
        Next fs' rq all w' \<Rightarrow>
          follows push\<^sup>*\<^sup>* stored w w' \<and> synced stored k w' fs' \<and> st_current_run (mj_status_of fs') \<noteq> None
      | Stop out w' \<Rightarrow> follows push\<^sup>*\<^sup>* stored w w')"

lemma good_turn_simps [simp]:
  "good_turn stored k w (Next fs' rq all w') \<longleftrightarrow>
     follows push\<^sup>*\<^sup>* stored w w' \<and> synced stored k w' fs' \<and> st_current_run (mj_status_of fs') \<noteq> None"
  "good_turn stored k w (Stop out w') \<longleftrightarrow> follows push\<^sup>*\<^sup>* stored w w'"
  by (simp_all add: good_turn_def)

lemma good_turn_after:
  "follows push\<^sup>*\<^sup>* stored w w1 \<Longrightarrow> good_turn stored k w1 t \<Longrightarrow> good_turn stored k w t"
  by (auto simp: good_turn_def split: turn.splits intro: follows_trans)

lemma life_run: "life_of s = life_of s' \<Longrightarrow> st_current_run s = st_current_run s'"
  by (simp add: life_of_def)

context single_writer
begin

lemma keeps_push: "keeps stored w w' \<Longrightarrow> follows push\<^sup>*\<^sup>* stored w w'"
  by (rule keeps_follows) auto

lemma stutter_turn:
  assumes "r_client r = c" and "synced stored k w fs" and "st_current_run (mj_status_of fs) \<noteq> None"
    and "\<And>v s. life_of (m v s) = life_of s"
  shows "good_turn stored k w
    (case patchStatus r fs m w of (Inl e, w') \<Rightarrow> Stop (failing e) w' | (Inr fs', w') \<Rightarrow> Next fs' rq all w')"
proof -
  obtain res w' where patch: "patchStatus r fs m w = (res, w')" by fastforce
  note step = stutter [where R = "push\<^sup>*\<^sup>*", OF assms(1,2) patch assms(4) rtranclp.rtrancl_refl]
  show ?thesis
  proof (cases res)
    case (Inr fs')
    with step(2) [OF this] assms(3) have "synced stored k w' fs'" "st_current_run (mj_status_of fs') \<noteq> None"
      by (auto dest: life_run)
    with step(1) Inr show ?thesis by (simp add: patch)
  qed (use step(1) in \<open>simp add: patch\<close>)
qed

lemma ensure_turn_good:
  assumes r: "r_client r = c" and "Get ty = Some impl" and sync: "synced stored k w fs"
    and run: "st_current_run (mj_status_of fs) \<noteq> None"
  shows "good_turn stored k w (ensure_turn r impl rc now act fs rq all w)"
proof (cases "findActiveAction (st_active_actions (mj_status_of fs)) (act_name act)")
  case None
  then show ?thesis by (simp add: ensure_turn_def keeps_push)
next
  case (Some idx)
  let ?aa = "st_active_actions (mj_status_of fs) ! idx"
  obtain out w1 where ensure: "ai_ensure impl (r_client r) rc act (aa_revert ?aa) w = (out, w1)" by fastforce
  then have keep: "keeps stored w w1" using action_keeps(1) [OF assms(2)] r by simp
  note sync1 = synced_keeps [OF sync keep]
  have "good_turn stored k w1 (ensure_turn r impl rc now act fs rq all w)"
  proof (cases out)
    case (Failed e)
    with stutter_turn [OF r sync1 run, of "statusMutation (act_name act) (mark_failed e)"] Some ensure
    show ?thesis by (simp add: ensure_turn_def Let_def)
  next
    case (Returned ok ra)
    with stutter_turn [OF r sync1 run, of "statusMutation (act_name act) (mark_applied now)"] Some ensure sync1 run
    show ?thesis by (cases ok) (simp_all add: ensure_turn_def Let_def keeps_push)
  qed (use Some ensure in \<open>simp add: ensure_turn_def keeps_push\<close>)
  with keeps_push [OF keep] show ?thesis by (rule good_turn_after)
qed

lemma record_good:
  assumes r: "r_client r = c" and "Get ty = Some impl" and sync: "synced stored k w fs"
    and run: "st_current_run (mj_status_of fs) \<noteq> None"
  shows "good_turn stored k w
    (case patchStatus r fs (record_token aa) w of
       (Inl e, w1) \<Rightarrow> Stop (failing e) w1
     | (Inr fs', w1) \<Rightarrow> ensure_turn r impl rc now act fs' rq all w1)"
proof -
  obtain res w1 where patch: "patchStatus r fs (record_token aa) w = (res, w1)" by fastforce
  have push: "push\<^sup>*\<^sup>* (life_of (mj_status_of fs)) (life_of (record_token aa v (mj_status_of fs)))" for v :: 'w
    using run by (auto intro: life_of_record)
  note step = patch_follows [where R = "push\<^sup>*\<^sup>*", OF r sync patch push rtranclp.rtrancl_refl]
  show ?thesis
  proof (cases res)
    case (Inr fs')
    from step(2) [OF this] have sync': "synced stored k w1 fs'"
      and "\<exists>(v::'w) n. mj_status_of fs' = (record_token aa v (mj_status_of fs))\<lparr>st_observed_generation := n\<rparr>" by blast+
    then have "st_current_run (mj_status_of fs') \<noteq> None" using run by (auto simp: record_token_def)
    from ensure_turn_good [OF r assms(2) sync' this] step(1)
    show ?thesis by (simp add: patch Inr good_turn_after)
  qed (use step(1) in \<open>simp add: patch\<close>)
qed

lemma activate_turn_good:
  assumes r: "r_client r = c" and reg: "r_registry r = Get" and sync: "synced stored k w fs"
    and run: "st_current_run (mj_status_of fs) \<noteq> None"
  shows "good_turn stored k w (activate_turn r rc cr now i fs rq all w)"
proof (cases "length (sp_actions (mj_spec_of fs)) \<le> i \<or> Get (act_type (sp_actions (mj_spec_of fs) ! i)) = (None :: 'w action_impl option)")
  case True
  then show ?thesis by (auto simp: activate_turn_def reg Let_def keeps_push)
next
  case False
  let ?act = "sp_actions (mj_spec_of fs) ! i"
  obtain impl :: "'w action_impl" where impl: "Get (act_type ?act) = Some impl" using False by auto
  show ?thesis
  proof (cases "ai_plan impl (r_client r) rc ?act w")
    case (Inl e)
    let ?msg = "''action '' @ act_name ?act @ '': '' @ err_text e"
    let ?w1 = "eventf r fs EventWarning ''PlanFailed'' ?msg w"
    have keep: "keeps stored w ?w1" by (rule event_keeps [OF r])
    from stutter_turn [OF r synced_keeps [OF sync keep] run, of "setCondition c (mj_generation fs) ConditionReady False ''PlanFailed'' ?msg"
        "lowerRequeue rq (10 * second)" False]
    have "good_turn stored k w (case patchStatus r fs (setCondition c (mj_generation fs) ConditionReady False ''PlanFailed'' ?msg) ?w1 of
        (Inl e, w') \<Rightarrow> Stop (failing e) w' | (Inr fs', w') \<Rightarrow> Next fs' (lowerRequeue rq (10 * second)) False w')"
      using keeps_push [OF keep] good_turn_after by simp
    with False impl Inl ensure_turn_good [OF r impl sync run] sync run
    show ?thesis by (simp add: activate_turn_def reg r Let_def keeps_push)
  next
    case (Inr token)
    with False impl ensure_turn_good [OF r impl sync run] record_good [OF r impl sync run] sync run
    show ?thesis by (simp add: activate_turn_def reg Let_def keeps_push)
  qed
qed

end

context single_writer
begin

lemma activate_loop_good:
  assumes "r_client r = c" and "r_registry r = Get"
  shows "synced stored k w fs \<Longrightarrow> st_current_run (mj_status_of fs) \<noteq> None \<Longrightarrow>
    good_turn stored k w (activate_loop r rc cr now is fs rq all w)"
proof (induction "is" arbitrary: fs rq all w)
  case Nil
  then show ?case by (simp add: keeps_push)
next
  case (Cons i "is")
  have turn: "good_turn stored k w (activate_turn r rc cr now i fs rq all w)"
    by (rule activate_turn_good [OF assms Cons.prems])
  show ?case
  proof (cases "activate_turn r rc cr now i fs rq all w")
    case (Next fs' rq' all' w1)
    with turn Cons.IH [of w1 fs'] show ?thesis by (auto intro: good_turn_after)
  qed (use turn in simp)
qed

text \<open>A patch that ends the call: what follows it only touches events.\<close>

lemma patch_pass:
  assumes "r_client r = c" and "synced stored k w fs"
    and "\<And>v. pass (life_of (mj_status_of fs)) (life_of (m v (mj_status_of fs)))"
    and "\<And>res w1. keeps stored w1 (snd (after (res, w1)))"
  shows "follows pass stored w (snd (after (patchStatus r fs m w)))"
proof -
  obtain res w1 where patch: "patchStatus r fs m w = (res, w1)" by fastforce
  have "follows pass stored w w1"
    by (rule patch_follows(1) [OF assms(1,2) patch assms(3) pass_refl])
  then show ?thesis using assms(4) by (simp add: patch follows_keeps_trans)
qed

lemma activate_finish_push:
  assumes r: "r_client r = c" and sync: "synced stored k w fs"
  shows "follows push\<^sup>*\<^sup>* stored w (snd (activate_finish r cr fs rq all w))"
proof -
  let ?phase = "if all then PhaseActive else PhaseActivating"
  let ?m = "\<lambda>v s. let s1 = s\<lparr>st_phase := ?phase\<rparr> in
     if all then setCondition (r_client r) (mj_generation fs) ConditionReady True ''Active'' ''all actions applied'' v s1
     else s1"
  obtain res w1 where patch: "patchStatus r fs ?m w = (res, w1)" by fastforce
  have "follows push\<^sup>*\<^sup>* stored w w1"
    by (rule stutter(1) [OF r sync patch]) (auto simp: Let_def)
  then show ?thesis
    using patch keeps_push event_keeps [OF r]
    by (cases res) (auto simp: activate_finish_def Let_def intro: follows_keeps_trans)
qed

lemma reconcileActivate_push:
  assumes r: "r_client r = c" and reg: "r_registry r = Get" and sync: "synced stored k w fs"
    and run: "st_current_run (mj_status_of fs) = Some cr"
  shows "follows push\<^sup>*\<^sup>* stored w (snd (reconcileActivate r fs cr w))"
proof -
  define t where "t = activate_loop r (runContext r fs (Some cr)) cr (clock (r_client r) w)
    [0..<length (sp_actions (mj_spec_of fs))] fs 0 True w"
  have good: "good_turn stored k w t"
    using activate_loop_good [OF r reg sync] run by (simp add: t_def)
  show ?thesis
  proof (cases t)
    case (Next fs' rq all w1)
    then have "follows push\<^sup>*\<^sup>* stored w w1" and "synced stored k w1 fs'" using good by simp_all
    with activate_finish_push [OF r, of w1 fs' cr rq all] Next show ?thesis
      by (auto simp: reconcileActivate_def Let_def simp flip: t_def intro: follows_trans)
  qed (use good in \<open>simp add: reconcileActivate_def Let_def flip: t_def\<close>)
qed

lemma keeps_pass: "keeps stored w w' \<Longrightarrow> follows pass stored w w'"
  by (rule keeps_follows) simp_all

lemma maybeStartRun_pass:
  assumes r: "r_client r = c" and sync: "synced stored k w fs"
    and idle: "st_current_run (mj_status_of fs) = None" "st_active_actions (mj_status_of fs) = []"
  shows "follows pass stored w (snd (maybeStartRun r fs w))"
proof -
  obtain d w1 where d: "desiredRun (r_client r) fs w = (d, w1)" by fastforce
  have keep: "keeps stored w w1"
    using d other_writes(9) r by (auto simp: desiredRun_def Let_def split: if_splits option.splits prod.splits)
      (metis snd_conv)+
  note sync1 = synced_keeps [OF sync keep]
  have "follows pass stored w1 (snd (maybeStartRun r fs w))"
  proof (cases d)
    case None
    let ?m = "\<lambda>v s. setCondition (r_client r) (mj_generation fs) ConditionReady True ''Idle''
        ''scenario is idle'' v (s\<lparr>st_phase := PhaseIdle\<rparr>)"
    let ?after = "\<lambda>rw. case rw of (Inl e, w2) \<Rightarrow> (failing e, w2) | (Inr fs', w2) \<Rightarrow> (settled, w2)"
    have "follows pass stored w1 (snd (?after (patchStatus r fs ?m w1)))"
      by (rule patch_pass [OF r sync1]) (auto split: sum.splits)
    then show ?thesis using d None by (auto simp: maybeStartRun_def keeps_pass)
  next
    case (Some x)
    then obtain trigger runID duration where x: "d = Some (trigger, runID, duration)" by (cases x) auto
    let ?now = "clock (r_client r) w1"
    let ?cr = "\<lparr>cr_id = runID, cr_trigger = trigger, cr_started_at = ?now,
       cr_expires_at = (if duration > 0 then Some (?now + duration) else None)\<rparr>"
    let ?m = "\<lambda>v s. s\<lparr>st_current_run := Some ?cr, st_phase := PhaseActivating\<rparr>"
    obtain res w2 where patch: "patchStatus r fs ?m w1 = (res, w2)" by fastforce
    have "pass (life_of (mj_status_of fs)) (life_of (?m v (mj_status_of fs)))" for v :: 'w
      using life_of_start [OF idle(2,1)] by (simp add: pass_def)
    then have "follows pass stored w1 w2" by (intro patch_follows(1) [OF r sync1 patch]) auto
    then show ?thesis
      using d x patch event_keeps [OF r]
      by (cases res) (auto simp: maybeStartRun_def Let_def intro: follows_keeps_trans)
  qed
  then show ?thesis by (rule keeps_follows_trans [OF keep])
qed

end

lemma follows_same_trans: "follows (=) stored w w1 \<Longrightarrow> follows R stored w1 w2 \<Longrightarrow> follows R stored w w2"
  unfolding follows_def by fastforce

lemma same_life:
  assumes "life_of s' = life_of s"
  shows "st_active_actions s' = [] \<longleftrightarrow> st_active_actions s = []"
    and "distinct (map aa_name (st_active_actions s')) \<longleftrightarrow> distinct (map aa_name (st_active_actions s))"
proof -
  have same: "map entry_of (st_active_actions s') = map entry_of (st_active_actions s)"
    using arg_cong [OF assms, of lf_tokens] by simp
  then show "st_active_actions s' = [] \<longleftrightarrow> st_active_actions s = []" by (metis map_is_Nil_conv)
  have "map fst (map entry_of xs) = map aa_name xs" for xs :: "active_action list" by simp
  with same show "distinct (map aa_name (st_active_actions s')) \<longleftrightarrow> distinct (map aa_name (st_active_actions s))"
    by metis
qed

context single_writer
begin

lemma finishRun_pass:
  assumes r: "r_client r = c" and sync: "synced stored k w fs" and none: "st_active_actions (mj_status_of fs) = []"
    and run: "\<And>cr. run = Some cr \<Longrightarrow> st_current_run (mj_status_of fs) = Some cr"
  shows "follows pass stored w (snd (finishRun r fs run del result msg w))"
proof (cases del)
  case True
  obtain res w1 where upd: "updateMJ c w (removeFinalizer c fs FinalizerName) = (res, w1)" by fastforce
  have "keeps stored w w1" using spec_write [OF upd] by blast
  with True show ?thesis by (cases res) (simp_all add: finishRun_def r upd keeps_pass)
next
  case False
  show ?thesis
  proof (cases run)
    case None
    let ?m = "\<lambda>v s. s\<lparr>st_phase := PhaseIdle,
      st_conditions := removeStatusCondition (r_client r) (st_conditions s) ConditionRevertFailed\<rparr>"
    let ?after = "\<lambda>rw. case rw of (Inl e, w2) \<Rightarrow> (failing e, w2) | (Inr fs', w2) \<Rightarrow> (requeue_now, w2)"
    have "follows pass stored w (snd (?after (patchStatus r fs ?m w)))"
      by (rule patch_pass [OF r sync]) (auto split: sum.splits)
    with False None show ?thesis by (auto simp: finishRun_def keeps_pass)
  next
    case (Some cr)
    let ?entry = "\<lparr>he_id = cr_id cr, he_trigger = cr_trigger cr, he_started_at = cr_started_at cr,
      he_ended_at = Some (clock (r_client r) w), he_result = finished_result cr (clock (r_client r) w) result,
      he_message = msg\<rparr>"
    obtain res w1 where patch: "patchStatus r fs (close_run (r_client r) (mj_generation fs) ?entry (cr_id cr)) w = (res, w1)"
      by fastforce
    have "pass (life_of (mj_status_of fs)) (life_of (close_run (r_client r) (mj_generation fs) ?entry (cr_id cr) v (mj_status_of fs)))"
      for v :: 'w
      unfolding pass_def by (intro disjI2 life_of_close [OF none run [OF Some]])
    then have "follows pass stored w w1" by (intro patch_follows(1) [OF r sync patch]) auto
    with False Some patch event_keeps [OF r] show ?thesis
      by (cases res) (auto simp: finishRun_def Let_def intro: follows_keeps_trans)
  qed
qed

lemma revert_last_follows:
  assumes r: "r_client r = c" and reg: "r_registry r = Get" and sync: "synced stored k w fs"
    and dist: "distinct (map aa_name (st_active_actions (mj_status_of fs)))"
  shows "follows pass stored w (snd (revert_last r fs run w))"
proof (cases "st_active_actions (mj_status_of fs) = []")
  case True
  then show ?thesis by (simp add: revert_last_def keeps_pass)
next
  case False
  let ?aa = "last (st_active_actions (mj_status_of fs))"
  show ?thesis
  proof (cases "Get (aa_type ?aa) :: 'w action_impl option")
    case None
    with False reg show ?thesis by (simp add: revert_last_def Let_def keeps_pass)
  next
    case (Some impl)
    obtain out w1 where rev: "ai_revert impl (r_client r) (runContext r fs run) (aa_revert ?aa) w = (out, w1)" by fastforce
    then have keep: "keeps stored w w1" using action_keeps(2) [OF Some] r by simp
    note sync1 = synced_keeps [OF sync keep]
    have "follows pass stored w1 (snd (revert_last r fs run w))"
    proof (cases out)
      case (Failed e)
      let ?n = "wrap32 (aa_attempts ?aa + 1)"
      let ?w2 = "eventf r fs EventWarning ''RevertFailed'' (''action '' @ aa_name ?aa @ '': '' @ err_text e) w1"
      let ?after = "\<lambda>rw. case rw of (Inl pe, w3) \<Rightarrow> (failing pe, w3) | (Inr fs', w3) \<Rightarrow> (requeue_in (backoffFor ?n), w3)"
      have keep2: "keeps stored w1 ?w2" by (rule event_keeps [OF r])
      have "follows pass stored ?w2
          (snd (?after (patchStatus r fs (revert_failed (r_client r) (mj_generation fs) ?aa ?n e) ?w2)))"
        by (rule patch_pass [OF r synced_keeps [OF sync1 keep2]]) (auto split: sum.splits)
      with False Some reg rev Failed keeps_follows_trans [OF keep2] show ?thesis
        by (auto simp: revert_last_def Let_def)
    next
      case (Returned ok ra)
      let ?m = "if ok then drop_active (aa_name ?aa) else statusMutation (aa_name ?aa) mark_reverting"
      let ?after = "\<lambda>rw. case rw of (Inl e, w2) \<Rightarrow> (failing e, w2)
        | (Inr fs', w2) \<Rightarrow> (if ok then requeue_now else requeue_in (if ra \<le> 0 then 2 * second else ra), w2)"
      have "follows pass stored w1 (snd (?after (patchStatus r fs ?m w1)))"
        by (rule patch_pass [OF r sync1])
          (auto simp: pass_def split: sum.splits intro!: disjI2 life_of_drop [OF dist False])
      with False Some reg rev Returned show ?thesis
        by (cases ok) (simp_all add: revert_last_def Let_def cong: sum.case_cong)
    qed (use False Some reg rev in \<open>simp add: revert_last_def Let_def keeps_pass\<close>)
    then show ?thesis by (rule keeps_follows_trans [OF keep])
  qed
qed

lemma reconcileRevert_pass:
  assumes r: "r_client r = c" and reg: "r_registry r = Get" and sync: "synced stored k w fs"
    and dist: "distinct (map aa_name (st_active_actions (mj_status_of fs)))"
    and run: "\<And>cr. run = Some cr \<Longrightarrow> st_current_run (mj_status_of fs) = Some cr"
  shows "follows pass stored w (snd (reconcileRevert r fs run del w))"
proof (cases "st_active_actions (mj_status_of fs) = []")
  case True
  with finishRun_pass [OF r sync True run] show ?thesis by (simp add: reconcileRevert_def)
next
  case False
  obtain res w1 where patch: "patchStatus r fs (\<lambda>v s. s\<lparr>st_phase := PhaseReverting\<rparr>) w = (res, w1)" by fastforce
  have first: "follows (=) stored w w1"
    by (rule stutter(1) [OF r sync patch]) simp_all
  have then_last: "follows pass stored w1 (snd (revert_last r fs' run w1))" if "res = Inr fs'" for fs'
  proof -
    have "synced stored k w1 fs' \<and> life_of (mj_status_of fs') = life_of (mj_status_of fs)"
      by (rule stutter(2) [OF r sync patch _ refl that]) simp
    then show ?thesis using revert_last_follows [OF r reg] same_life dist by blast
  qed
  show ?thesis
    using False patch first then_last revert_last_follows [OF r reg sync dist] follows_mono [OF first, of pass]
    by (cases res) (auto simp: reconcileRevert_def intro: follows_same_trans)
qed

end

context single_writer
begin

lemma leakState_keeps: "r_client r = c \<Longrightarrow> leakState r fs w = (res, w') \<Longrightarrow> keeps stored w w'"
proof -
  assume r: "r_client r = c" and "leakState r fs w = (res, w')"
  then have leak: "retryOnConflict c (leak_once r fs) w = (res, w')" by (simp add: leakState_def)
  have step: "keeps stored w w2" if "keeps stored w w1" "leak_once r fs w1 = (x, w2)" for w1 x w2
  proof (rule keeps_trans [OF that(1)])
    show "keeps stored w1 w2"
      using that(2) unfolding leak_once_def r
      by (auto simp: Let_def dest: other_writes_eq split: sum.splits if_splits option.splits prod.splits)
  qed
  show "keeps stored w w'"
    by (rule conflict_retry.preserves [OF retry leak keeps_refl]) (rule step)
qed

lemma reconcileDelete_pass:
  assumes r: "r_client r = c" and reg: "r_registry r = Get" and sync: "synced stored k w fs"
    and dist: "distinct (map aa_name (st_active_actions (mj_status_of fs)))"
  shows "follows pass stored w (snd (reconcileDelete r fs w))"
proof -
  obtain res w1 where leak: "leakState r fs w = (res, w1)" by fastforce
  have keep: "keeps stored w w1" by (rule leakState_keeps [OF r leak])
  obtain res2 w2 where upd: "updateMJ c w1 (removeFinalizer c fs FinalizerName) = (res2, w2)" by fastforce
  have "keeps stored w1 w2" using spec_write [OF upd] by blast
  with keep have "keeps stored w w2" by (rule keeps_trans)
  with keep leak upd reconcileRevert_pass [OF r reg sync dist, of "st_current_run (mj_status_of fs)" True]
  show ?thesis by (cases res; cases res2) (simp_all add: reconcileDelete_def r keeps_pass)
qed

lemma reconcile_run_pass:
  assumes r: "r_client r = c" and reg: "r_registry r = Get" and sync: "synced stored k w fs"
    and dist: "distinct (map aa_name (st_active_actions (mj_status_of fs)))"
    and run: "st_current_run (mj_status_of fs) = Some cr"
  shows "follows pass stored w (snd (reconcile_run r fs cr w))"
proof -
  have go: "follows pass stored w' (snd (if over \<or> \<not> runStillWanted fs' cr then reconcileRevert r fs' (Some cr) False w'
      else reconcileActivate r fs' cr w'))"
    if "synced stored k w' fs'" "mj_status_of fs' = mj_status_of fs" for fs' w' over
    using reconcileRevert_pass [OF r reg that(1), of "Some cr" False] that(2) dist run
      follows_mono [OF reconcileActivate_push [OF r reg that(1), of cr], of pass] by (simp add: pass_def)
  let ?new = "fs\<lparr>mj_spec_of := (mj_spec_of fs)\<lparr>sp_enabled := False\<rparr>\<rparr>"
  obtain res w1 where upd: "updateMJ c w ?new = (res, w1)" by fastforce
  have "mj_key ?new = k" using sync by (simp add: synced_def mj_key_def)
  with spec_write [OF upd] have keep: "keeps stored w w1"
    and new: "res = Inr fs' \<Longrightarrow> synced stored k w1 fs' \<and> mj_status_of fs' = mj_status_of fs" for fs'
    using sync by (auto simp: synced_def)
  show ?thesis
  proof (cases res)
    case (Inl e)
    with go [OF sync refl] keeps_pass [OF keep] show ?thesis by (simp add: reconcile_run_def Let_def r upd)
  next
    case (Inr fs')
    then have "synced stored k w1 fs'" "mj_status_of fs' = mj_status_of fs" using new by blast+
    from go [OF sync refl] keeps_follows_trans [OF keep go [OF this, of True]] Inr show ?thesis
      by (simp add: reconcile_run_def Let_def r upd)
  qed
qed

lemma reconcile_live_pass:
  assumes r: "r_client r = c" and reg: "r_registry r = Get" and sync: "synced stored k w fs"
    and dist: "distinct (map aa_name (st_active_actions (mj_status_of fs)))"
  shows "follows pass stored w (snd (reconcile_live r fs w))"
proof (cases "validateSpec (r_registry r) (mj_spec_of fs)")
  case (Some e)
  let ?m = "setCondition (r_client r) (mj_generation fs) ConditionReady False ''InvalidSpec'' (err_text e)"
  let ?after = "\<lambda>rw. case rw of (Inl pe, w1) \<Rightarrow> (failing pe, w1) | (Inr fs', w1) \<Rightarrow> (settled, w1)"
  have "follows pass stored w (snd (?after (patchStatus r fs ?m w)))"
    by (rule patch_pass [OF r sync]) (auto split: sum.splits)
  with Some show ?thesis by (simp add: reconcile_live_def)
next
  case None
  with maybeStartRun_pass [OF r sync] reconcileRevert_pass [OF r reg sync dist, of None False]
    reconcile_run_pass [OF r reg sync dist]
  show ?thesis by (auto simp: reconcile_live_def split: option.splits)
qed

lemma Reconcile_pass:
  assumes r: "r_client r = c" and reg: "r_registry r = Get"
    and dist: "\<And>s. stored w = Some s \<Longrightarrow> distinct (map aa_name (st_active_actions s))"
  shows "follows pass stored w (snd (Reconcile r k w))"
proof (cases "getMJ c w k")
  case (Inl e)
  then show ?thesis by (simp add: Reconcile_def r keeps_pass)
next
  case (Inr fs)
  have key: "mj_key fs = k" and st: "stored w = Some (mj_status_of fs)" using read [OF Inr] by auto
  then have sync: "synced stored k w fs" by (simp add: synced_def)
  have dist': "distinct (map aa_name (st_active_actions (mj_status_of fs)))" by (rule dist [OF st])
  obtain res w1 where upd: "updateMJ c w (addFinalizer c fs FinalizerName) = (res, w1)" by fastforce
  have "mj_key (addFinalizer c fs FinalizerName) = k" using key by (simp add: finalizer_key)
  with spec_write [OF upd] have keep: "keeps stored w w1"
    and new: "res = Inr fs' \<Longrightarrow> synced stored k w1 fs' \<and> mj_status_of fs' = mj_status_of fs" for fs'
    using st by auto
  show ?thesis
    using reconcileDelete_pass [OF r reg sync dist'] reconcile_live_pass [OF r reg sync dist']
      reconcile_live_pass [OF r reg, of w1] new dist' keeps_follows_trans [OF keep] keeps_pass [OF keep]
    by (cases res) (auto simp: Reconcile_def r Inr upd)
qed

end

section \<open>The API server\<close>

context single_writer
begin

lemma mutate_keeps: "sv_client s = c \<Longrightarrow> mutate s name f w = (e, w') \<Longrightarrow> keeps stored w w'"
proof -
  assume s: "sv_client s = c" and "mutate s name f w = (e, w')"
  then obtain res where upd: "retryOnConflict c (mutate_once s name f) w = (res, w')"
    by (auto simp: mutate_def split: prod.splits sum.splits)
  have step: "keeps stored w w2" if "keeps stored w w1" "mutate_once s name f w1 = (x, w2)" for w1 x w2
    using that(2) s spec_write keeps_trans [OF that(1)]
    by (fastforce simp: mutate_once_def split: sum.splits)
  show "keeps stored w w'"
    by (rule conflict_retry.preserves [OF retry upd keeps_refl]) (rule step)
qed

lemma reset_loop_keeps:
  assumes s: "sv_client s = c"
  shows "reset_loop s names w = (e, w') \<Longrightarrow> keeps stored w w'"
proof (induction names arbitrary: w)
  case (Cons name names)
  then show ?case
    by (auto split: prod.splits option.splits dest!: mutate_keeps [OF s] intro: keeps_trans)
qed simp

lemma routes_keep:
  assumes s: "sv_client s = c"
  shows "keeps stored w (snd (routes s e w))"
proof (cases e)
  case (RunScenario name len body)
  obtain runID w1 where u: "newUUID (sv_client s) w = (runID, w1)" by fastforce
  then have "keeps stored w w1" using other_writes(9) [of w] s by simp
  with RunScenario u show ?thesis
    by (auto simp: handleRun_def split: sum.splits option.splits prod.splits dest!: mutate_keeps [OF s]
        intro: keeps_trans)
qed (auto simp: handleList_def handleGet_def handleEnable_def handleDisable_def handleReset_def
      split: sum.splits option.splits prod.splits dest: mutate_keeps [OF s] reset_loop_keeps [OF s])

end

section \<open>Every reachable state\<close>

text \<open>
  The worlds that calls of Reconcile, requests to the API server and anything else can lead to,
  from a world without the scenario. Anything else (the user, the cluster, time, the work on
  other scenarios) may change all but the status, and may delete the scenario and create it
  anew. A crash of the operator in the middle of a call is a client whose later calls fail.
\<close>

inductive reachable ::
  "'w reconciler \<Rightarrow> 'w server \<Rightarrow> nsname \<Rightarrow> ('w \<Rightarrow> mj_status option) \<Rightarrow> 'w \<Rightarrow> bool"
  for r s k stored where
  initial: "stored w = None \<Longrightarrow> reachable r s k stored w"
| created: "reachable r s k stored w \<Longrightarrow> stored w = None \<Longrightarrow> stored w' = Some st \<Longrightarrow>
     st_current_run st = None \<Longrightarrow> st_active_actions st = [] \<Longrightarrow> reachable r s k stored w'"
| reconciled: "reachable r s k stored w \<Longrightarrow> reachable r s k stored (snd (Reconcile r k w))"
| served: "reachable r s k stored w \<Longrightarrow> reachable r s k stored (snd (routes s e w))"
| elsewhere: "reachable r s k stored w \<Longrightarrow> keeps stored w w' \<Longrightarrow> reachable r s k stored w'"

lemma life_ok_names: "life_ok (life_of s) \<Longrightarrow> distinct (map aa_name (st_active_actions s))"
  by (simp add: life_ok_def comp_def)

lemma reachable_ok:
  assumes writer: "single_writer c k stored" and r: "r_client r = c" "r_registry r = Get" and s: "sv_client s = c"
  shows "reachable r s k stored w \<Longrightarrow> stored w = Some st \<Longrightarrow> life_ok (life_of st)"
proof (induction arbitrary: st rule: reachable.induct)
  case (created w w' st')
  then show ?case by (simp add: life_ok_def)
next
  case (reconciled w)
  have "distinct (map aa_name (st_active_actions st0))" if "stored w = Some st0" for st0
    using reconciled.IH [OF that] by (rule life_ok_names)
  from single_writer.Reconcile_pass [OF writer r this] reconciled.prems obtain st0
    where "stored w = Some st0" "pass (life_of st0) (life_of st)" by (auto simp: follows_def)
  with reconciled.IH show ?case by (blast intro: pass_ok)
next
  case (served w e)
  with single_writer.routes_keep [OF writer s, of w e] show ?case by (auto simp: keeps_def)
next
  case (elsewhere w w')
  then show ?case by (auto simp: keeps_def)
qed simp

section \<open>The cluster in memory\<close>

definition stored_status :: "nsname \<Rightarrow> cluster \<Rightarrow> mj_status option" where
  "stored_status k cl = map_option mj_status_of (lookup mj_key (cl_mjs cl) k)"

lemma find_obj_stored: "find_obj mj_key (cl_mjs cl) k = Inr fs \<Longrightarrow> mj_key fs = k \<and> stored_status k cl = Some (mj_status_of fs)"
  by (auto simp: find_obj_def stored_status_def split: option.splits dest: lookup_key)

lemma keeps_stored: "cl_mjs cl' = cl_mjs cl \<Longrightarrow> keeps (stored_status k) cl cl'"
  by (simp add: keeps_def stored_status_def)

lemma store_mj_stored:
  assumes "store_mj fs cl = (res, cl')"
  shows "\<exists>v. res = Inr (fs\<lparr>mj_resource_version := v\<rparr>)"
    and "stored_status k cl' =
      (if k \<noteq> mj_key fs then stored_status k cl
       else if mj_deletion_timestamp fs \<noteq> None \<and> mj_finalizers fs = [] then None else Some (mj_status_of fs))"
  using assms by (auto simp: store_mj_def Let_def stored_status_def lookup_put lookup_remove mj_key_def)

lemma mem_updateMJ_stored:
  assumes "mem_updateMJ cl fs = (res, cl')"
  shows "keeps (stored_status k) cl cl' \<and> (\<forall>fs'. mj_key fs = k \<longrightarrow> res = Inr fs' \<longrightarrow>
     synced (stored_status k) k cl' fs' \<and> stored_status k cl = Some (mj_status_of fs'))"
proof (cases "lookup mj_key (cl_mjs cl) (mj_key fs)")
  case (Some cur)
  show ?thesis
  proof (cases "mj_resource_version fs = mj_resource_version cur")
    case True
    let ?new = "fs\<lparr>mj_status_of := mj_status_of cur,
      mj_generation := mj_generation cur + (if mj_spec_of fs = mj_spec_of cur then 0 else 1)\<rparr>"
    have st: "store_mj ?new cl = (res, cl')" using assms Some True by (simp add: mem_updateMJ_def)
    have key: "mj_key ?new = mj_key fs" by (simp add: mj_key_def)
    obtain v where "res = Inr (?new\<lparr>mj_resource_version := v\<rparr>)" using store_mj_stored(1) [OF st] by blast
    with store_mj_stored(2) [OF st, of k] key Some show ?thesis
      by (auto simp: keeps_def synced_def stored_status_def mj_key_def)
  qed (use assms Some in \<open>auto simp: mem_updateMJ_def\<close>)
qed (use assms in \<open>auto simp: mem_updateMJ_def\<close>)

lemma mem_updateMJStatus_stored:
  assumes "mem_updateMJStatus cl fs = (res, cl')" and "mj_key fs = k"
  shows "case res of
      Inr fs' \<Rightarrow> synced (stored_status k) k cl' fs' \<and> mj_status_of fs' = mj_status_of fs
    | Inl e \<Rightarrow> keeps (stored_status k) cl cl' \<or> \<not> isConflict e \<and> stored_status k cl' = Some (mj_status_of fs)"
proof (cases "lookup mj_key (cl_mjs cl) (mj_key fs)")
  case (Some cur)
  then have cur: "mj_key cur = k" using assms(2) lookup_key by metis
  show ?thesis
  proof (cases "mj_resource_version fs = mj_resource_version cur")
    case True
    let ?new = "cur\<lparr>mj_status_of := mj_status_of fs\<rparr>"
    have st: "store_mj ?new cl = (res, cl')" using assms Some True by (simp add: mem_updateMJStatus_def)
    have key: "mj_key ?new = k" using cur by (simp add: mj_key_def)
    obtain v where "res = Inr (?new\<lparr>mj_resource_version := v\<rparr>)" using store_mj_stored(1) [OF st] by blast
    with store_mj_stored(2) [OF st, of k] key show ?thesis
      by (auto simp: synced_def mj_key_def)
  qed (use assms Some in \<open>auto simp: mem_updateMJStatus_def\<close>)
qed (use assms in \<open>auto simp: mem_updateMJStatus_def\<close>)

lemma mem_single_writer: "single_writer mem_client k (stored_status k)"
proof (rule single_writer.intro)
  show "conflict_retry (retryOnConflict mem_client)"
    by (simp add: mem_client_def flip: retry_ok_iff)
  show "mj_key fs = k \<and> stored_status k w = Some (mj_status_of fs)" if "getMJ mem_client w k = Inr fs" for w fs
    using that by (simp add: mem_client_def find_obj_stored)
  show "case res of
         Inr fs' \<Rightarrow> synced (stored_status k) k w' fs' \<and> mj_status_of fs' = mj_status_of fs
       | Inl e \<Rightarrow> keeps (stored_status k) w w' \<or> \<not> isConflict e \<and> stored_status k w' = Some (mj_status_of fs)"
    if "updateMJStatus mem_client w fs = (res, w')" "mj_key fs = k" for w fs res w'
    using that by (intro mem_updateMJStatus_stored) (simp_all add: mem_client_def)
  show "keeps (stored_status k) w w' \<and> (\<forall>fs'. mj_key fs = k \<longrightarrow> res = Inr fs' \<longrightarrow>
      synced (stored_status k) k w' fs' \<and> stored_status k w = Some (mj_status_of fs'))"
    if "updateMJ mem_client w fs = (res, w')" for w fs res w'
    using that by (intro mem_updateMJ_stored) (simp add: mem_client_def)
qed (auto simp: mem_client_def mem_createJob_def mem_deleteJob_def mem_patchDeployment_def mem_createChaos_def
    mem_deleteChaos_def mem_createConfigMap_def mem_updateConfigMap_def Let_def mj_key_def
    intro!: keeps_stored split: option.splits propagation.splits)

interpretation mem: single_writer mem_client k "stored_status k"
  by (rule mem_single_writer)

text \<open>A scenario that is created, switched off again over the API, and reverted.\<close>

definition sample_server :: "cluster server" where
  "sample_server = \<lparr>sv_client = mem_client, sv_addr = '':8080'', sv_namespace = ''shop''\<rparr>"

definition idle_mj :: maintenance_job where
  "idle_mj = sample_mj\<lparr>mj_status_of := sample_status\<lparr>st_phase := PhaseIdle, st_current_run := None\<rparr>\<rparr>"

definition outage :: nsname where
  "outage = (''shop'', ''outage'')"

definition pass_once :: "cluster \<Rightarrow> cluster" where
  "pass_once cl = snd (Reconcile (sample_reconciler mem_client) outage cl)"

definition created_cluster :: cluster where
  "created_cluster = sample_cluster\<lparr>cl_mjs := [idle_mj]\<rparr>"

definition active_cluster :: cluster where
  "active_cluster = pass_once (pass_once created_cluster)"

definition disabled_cluster :: cluster where
  "disabled_cluster = snd (routes sample_server (Disable ''outage'') active_cluster)"

lemma created_reachable: "reachable (sample_reconciler mem_client) sample_server outage (stored_status outage) created_cluster"
proof (rule reachable.created [OF reachable.initial])
  show "stored_status outage (sample_cluster\<lparr>cl_mjs := []\<rparr>) = None" by (simp add: stored_status_def lookup_def)
  then show "stored_status outage (sample_cluster\<lparr>cl_mjs := []\<rparr>) = None" .
  show "stored_status outage created_cluster = Some (mj_status_of idle_mj)"
    by (simp add: stored_status_def lookup_def created_cluster_def idle_mj_def sample_mj_def mj_key_def outage_def)
qed (simp_all add: idle_mj_def sample_status_def)

lemma active_reachable: "reachable (sample_reconciler mem_client) sample_server outage (stored_status outage) active_cluster"
  unfolding active_cluster_def pass_once_def by (intro reachable.reconciled created_reachable)

lemma disabled_reachable: "reachable (sample_reconciler mem_client) sample_server outage (stored_status outage) disabled_cluster"
  unfolding disabled_cluster_def by (intro reachable.served active_reachable)

lemma active_names: "map_option (map aa_name \<circ> st_active_actions) (stored_status outage active_cluster) = Some [''down'']"
  by code_simp

lemma disabled_names:
  "map_option (map aa_name \<circ> st_active_actions) (stored_status outage disabled_cluster) = Some [''down'']"
  "map_option (map aa_name \<circ> st_active_actions) (stored_status outage (pass_once disabled_cluster)) = Some []"
  by code_simp+

section \<open>The properties\<close>







end
