(* ===== verification/Healing.thy ===== *)
theory Healing
  imports Drained LifecycleProps
begin

text \<open>
  How a run ends: the API's request to disable a scenario, and the end of its duration, composed with
  the passes of the reconciler, from any reachable state to a status at rest, which then lasts.
\<close>

section \<open>A scenario at rest\<close>

text \<open>
  In service: not being deleted, with the finalizer and a valid spec. Such a scenario wants no run when
  it is neither enabled nor has a trigger that is still to be served. At rest it has no run and no
  active actions either.
\<close>

definition in_service :: "'w reconciler \<Rightarrow> maintenance_job \<Rightarrow> bool" where
  "in_service r fs \<longleftrightarrow> mj_deletion_timestamp fs = None \<and> FinalizerName \<in> set (mj_finalizers fs)
     \<and> validateSpec (r_registry r) (mj_spec_of fs) = None"

definition no_wish :: "mj_spec \<Rightarrow> string \<Rightarrow> bool" where
  "no_wish spec served \<longleftrightarrow> \<not> sp_enabled spec
     \<and> (case sp_trigger spec of None \<Rightarrow> True | Some t \<Rightarrow> ts_run_id t = [] \<or> ts_run_id t = served)"

definition at_rest :: "maintenance_job \<Rightarrow> bool" where
  "at_rest fs \<longleftrightarrow> st_current_run (mj_status_of fs) = None \<and> st_active_actions (mj_status_of fs) = []
     \<and> no_wish (mj_spec_of fs) (st_last_completed_run_id (mj_status_of fs))"

definition resting :: "'w reconciler \<Rightarrow> nsname \<Rightarrow> 'w \<Rightarrow> bool" where
  "resting r k w \<longleftrightarrow> (\<exists>fs. getMJ (r_client r) w k = Inr fs \<and> in_service r fs \<and> at_rest fs)"

lemma in_service_status [simp]: "in_service r (with_status fs s v) = in_service r fs"
  by (simp add: in_service_def)

lemma in_service_live: "in_service r fs \<Longrightarrow> live_object fs"
  by (simp add: in_service_def live_object_def)

lemma in_service_not_deleting: "in_service r fs \<Longrightarrow> \<not> deleting fs"
  by (simp add: in_service_def deleting_def)

lemma no_wish_desires:
  "no_wish (mj_spec_of fs) (st_last_completed_run_id (mj_status_of fs)) \<Longrightarrow> desiredRun c fs w = (None, w)"
  by (auto simp: no_wish_def desiredRun_def Let_def split: option.splits)

lemma validateSpec_switched [simp]:
  "validateSpec reg (s\<lparr>sp_enabled := b, sp_trigger := t\<rparr>) = validateSpec reg s"
  "validateSpec reg (s\<lparr>sp_enabled := b\<rparr>) = validateSpec reg s"
  by (simp_all add: validateSpec_def)

lemma Reconcile_in_service:
  assumes "quiet_store (r_client r) k" and "getMJ (r_client r) w k = Inr fs" and "in_service r fs"
  shows "Reconcile r k w = (case st_current_run (mj_status_of fs) of
     None \<Rightarrow> if st_active_actions (mj_status_of fs) \<noteq> [] then reconcileRevert r fs None False w
             else maybeStartRun r fs w
   | Some run \<Rightarrow> reconcile_run r fs run w)"
  using assms(2,3) quiet_storeD(5) [OF assms(1)] by (simp add: Reconcile_def in_service_def reconcile_live_def)

section \<open>The passes\<close>

lemma passes_Suc: "passes r k env (Suc n) w = env (snd (Reconcile r k (passes r k env n w)))"
  by (induction n arbitrary: w) simp_all

lemma passes_add: "passes r k env (m + n) w = passes r k env n (passes r k env m w)"
  by (induction m arbitrary: w) simp_all

text \<open>The pass that ends the run.\<close>

lemma finishing_pass:
  assumes q: "quiet_store (r_client r) k" and get: "getMJ (r_client r) w k = Inr fs" and svc: "in_service r fs"
    and revert: "Reconcile r k w = reconcileRevert r fs (Some cr) (deleting fs) w"
    and none: "st_active_actions (mj_status_of fs) = []" and wish: "no_wish (mj_spec_of fs) (cr_id cr)"
  obtains s v where "getMJ (r_client r) (snd (Reconcile r k w)) k = Inr (with_status fs s v)"
    "at_rest (with_status fs s v)" "\<exists>w1 e. updated r w w1 \<and> snd (Reconcile r k w) = recordEvent (r_client r) w1 e"
proof -
  let ?c = "r_client r"
  have key: "mj_key fs = k" using quiet_storeD(2) [OF q get] .
  let ?entry = "\<lparr>he_id = cr_id cr, he_trigger = cr_trigger cr, he_started_at = cr_started_at cr,
    he_ended_at = Some (clock ?c w), he_result = finished_result cr (clock ?c w) RunResultReverted, he_message = []\<rparr>"
  let ?m = "close_run ?c (mj_generation fs) ?entry (cr_id cr)"
  obtain v w' where p: "patchStatus r fs ?m w = (Inr (with_status fs (observed fs (?m w (mj_status_of fs))) v), w')"
    "getMJ ?c w' k = Inr (with_status fs (observed fs (?m w (mj_status_of fs))) v)"
    by (rule patchStatus_quiet [OF q get in_service_live [OF svc] key])
  have pass: "\<exists>e. snd (Reconcile r k w) = recordEvent ?c w' e"
    unfolding revert using p(1) in_service_not_deleting [OF svc] none
    by (auto simp: reconcileRevert_def finishRun_def Let_def eventf_def)
  then have "getMJ ?c (snd (Reconcile r k w)) k = getMJ ?c w' k" using quiet_storeD(4) [OF q] by auto
  moreover have "updated r w w'" using p(1) unfolding updated_def by blast
  ultimately show thesis
    using p(2) none wish pass
    by (intro that [of "observed fs (?m w (mj_status_of fs))" v])
       (auto simp: at_rest_def close_run_def setCondition_def observed_def)
qed

text \<open>At rest nothing is started, and the object stays at rest.\<close>

lemma resting_pass:
  assumes q: "quiet_store (r_client r) k" and get: "getMJ (r_client r) w k = Inr fs"
    and svc: "in_service r fs" and rest: "at_rest fs"
  obtains s v where "getMJ (r_client r) (snd (Reconcile r k w)) k = Inr (with_status fs s v)"
    "at_rest (with_status fs s v)" "updated r w (snd (Reconcile r k w))"
proof -
  let ?c = "r_client r"
  have key: "mj_key fs = k" using quiet_storeD(2) [OF q get] .
  have rec: "Reconcile r k w = maybeStartRun r fs w"
    using Reconcile_in_service [OF q get svc] rest by (simp add: at_rest_def)
  have desires: "desiredRun ?c fs w = (None, w)"
    using rest by (intro no_wish_desires) (simp add: at_rest_def)
  let ?m = "\<lambda>v s. setCondition ?c (mj_generation fs) ConditionReady True ''Idle'' ''scenario is idle'' v
    (s\<lparr>st_phase := PhaseIdle\<rparr>)"
  obtain v w' where p: "patchStatus r fs ?m w = (Inr (with_status fs (observed fs (?m w (mj_status_of fs))) v), w')"
    "getMJ ?c w' k = Inr (with_status fs (observed fs (?m w (mj_status_of fs))) v)"
    by (rule patchStatus_quiet [OF q get in_service_live [OF svc] key])
  have same: "with_status fs (mj_status_of fs) (mj_resource_version fs) = fs"
    by (simp add: with_status_def)
  have pass: "snd (Reconcile r k w) = w \<or> snd (Reconcile r k w) = w'"
    using rec p(1) desires by (simp add: maybeStartRun_def)
  then have kept: "updated r w (snd (Reconcile r k w))" using p(1) unfolding updated_def by metis
  from pass get have "getMJ ?c (snd (Reconcile r k w)) k = Inr fs \<or> getMJ ?c (snd (Reconcile r k w)) k = getMJ ?c w' k"
    by auto
  then show thesis
  proof
    assume "getMJ ?c (snd (Reconcile r k w)) k = Inr fs"
    then show thesis by (intro that [of "mj_status_of fs" "mj_resource_version fs"]) (simp_all add: same rest kept)
  next
    assume "getMJ ?c (snd (Reconcile r k w)) k = getMJ ?c w' k"
    then show thesis
      using p(2) rest kept
      by (intro that [of "observed fs (?m w (mj_status_of fs))" v]) (simp_all add: at_rest_def setCondition_def observed_def)
  qed
qed

lemma rests_on:
  assumes q: "quiet_store (r_client r) k"
    and env: "\<And>w. getMJ (r_client r) (env w) k = getMJ (r_client r) w k" and rest: "resting r k w"
  shows "resting r k (passes r k env n w) \<and> (\<forall>P. steady r env P \<longrightarrow> P w \<longrightarrow> P (passes r k env n w))"
proof (induction n)
  case (Suc n)
  let ?w = "passes r k env n w"
  from Suc obtain fs where fs: "getMJ (r_client r) ?w k = Inr fs" "in_service r fs" "at_rest fs"
    by (auto simp: resting_def)
  obtain s v where pass: "getMJ (r_client r) (snd (Reconcile r k ?w)) k = Inr (with_status fs s v)"
    "at_rest (with_status fs s v)" "updated r ?w (snd (Reconcile r k ?w))"
    by (rule resting_pass [OF q fs])
  have "resting r k (passes r k env (Suc n) w)"
    using pass(1,2) fs(2) unfolding passes_Suc resting_def env by (metis in_service_status)
  moreover have "P (passes r k env (Suc n) w)" if "steady r env P" "P w" for P
    using Suc pass(3) that unfolding passes_Suc steady_def by blast
  ultimately show ?case by blast
qed (use rest in simp)

text \<open>
  From a reason to revert that lasts as long as there is a run, to rest: the passes that drain the
  active actions, the pass that ends the run, and all passes after them.
\<close>

lemma comes_to_rest:
  assumes q: "quiet_store (r_client r) k" and settle: "settling r k env rc A todo" and lasts: "lasting r k env ends"
    and undo: "undoing r env rc A undone"
    and get: "getMJ (r_client r) w k = Inr fs" and svc: "in_service r fs" and ends: "ends fs w"
    and rc: "runContext r fs (st_current_run (mj_status_of fs)) = rc"
    and names: "distinct (map aa_name (st_active_actions (mj_status_of fs)))"
    and tokens: "token_of ` set (st_active_actions (mj_status_of fs)) \<subseteq> A"
    and run: "st_current_run (mj_status_of fs) = Some cr" and wish: "no_wish (mj_spec_of fs) (cr_id cr)"
    and m: "left_to_do todo w (st_active_actions (mj_status_of fs)) < m"
  shows "resting r k (passes r k env m w)
    \<and> (\<forall>aa \<in> set (st_active_actions (mj_status_of fs)). undone (token_of aa) (passes r k env m w))"
proof -
  let ?c = "r_client r" and ?n = "left_to_do todo w (st_active_actions (mj_status_of fs))"
  note env = settlingD(1) [OF settle]
  obtain n s v where n: "n \<le> ?n" "getMJ ?c (passes r k env n w) k = Inr (with_status fs s v)"
    "st_active_actions s = []" "st_current_run s = Some cr" "ends (with_status fs s v) (passes r k env n w)"
    "\<forall>b \<in> A. undone b w \<or> b \<in> token_of ` set (st_active_actions (mj_status_of fs)) \<longrightarrow> undone b (passes r k env n w)"
    using drained_by [OF q settle lasts undo get in_service_live [OF svc] _ rc names tokens] ends run by (metis option.distinct(1))
  let ?fs = "with_status fs s v" and ?w = "passes r k env n w" and ?w' = "passes r k env (Suc n) w"
  have revert: "Reconcile r k ?w = reconcileRevert r ?fs (Some cr) (deleting ?fs) ?w"
    using lasts n(2,4,5) by (simp add: lasting_def)
  have fs: "in_service r ?fs" "st_active_actions (mj_status_of ?fs) = []" "no_wish (mj_spec_of ?fs) (cr_id cr)"
    using svc n(3) wish by simp_all
  obtain s' v' w1 e where finish: "getMJ ?c (snd (Reconcile r k ?w)) k = Inr (with_status ?fs s' v')"
    "at_rest (with_status ?fs s' v')" "updated r ?w w1" "snd (Reconcile r k ?w) = recordEvent ?c w1 e"
    using finishing_pass [OF q n(2) fs(1) revert fs(2,3)] by metis
  have rest: "resting r k ?w'"
    using finish(1,2) svc unfolding passes_Suc resting_def env by (metis in_service_status)
  have "m - Suc n + Suc n = m" using n(1) m by simp
  then have split: "passes r k env m w = passes r k env (m - Suc n) ?w'" by (metis passes_add add.commute)
  have "undone (token_of aa) (passes r k env m w)" if aa: "aa \<in> set (st_active_actions (mj_status_of fs))" for aa
  proof -
    have a: "token_of aa \<in> A" "token_of aa \<in> token_of ` set (st_active_actions (mj_status_of fs))" using tokens aa by auto
    note steady = undoing.steady [OF undo a(1)]
    have "undone (token_of aa) ?w" using n(6) a by blast
    then have "undone (token_of aa) ?w'"
      unfolding passes_Suc finish(4) using steady finish(3) by (simp add: steady_def)
    then show ?thesis unfolding split using rests_on [OF q env rest] steady by blast
  qed
  then show ?thesis unfolding split using rests_on [OF q env rest] by blast
qed

section \<open>Two reasons that last\<close>

text \<open>The run is not wanted any more; or its time is over, and stays so.\<close>

definition unwanted :: "'w reconciler \<Rightarrow> maintenance_job \<Rightarrow> bool" where
  "unwanted r fs \<longleftrightarrow> in_service r fs
     \<and> (\<exists>run. st_current_run (mj_status_of fs) = Some run \<and> \<not> runStillWanted fs run)"

definition overdue :: "'w reconciler \<Rightarrow> current_run \<Rightarrow> maintenance_job \<Rightarrow> 'w \<Rightarrow> bool" where
  "overdue r run fs w \<longleftrightarrow> in_service r fs \<and> \<not> sp_enabled (mj_spec_of fs)
     \<and> st_current_run (mj_status_of fs) = Some run \<and> expired run (clock (r_client r) w)"

lemma reconcile_run_unwanted:
  "\<not> runStillWanted fs run \<Longrightarrow> reconcile_run r fs run w = reconcileRevert r fs (Some run) False w"
  by (cases "cr_trigger run") (simp_all add: reconcile_run_def Let_def runStillWanted_def)

lemma unwanted_lasts:
  assumes "quiet_store (r_client r) k"
  shows "lasting r k env (\<lambda>fs w. unwanted r fs)"
proof -
  have "Reconcile r k w = reconcileRevert r fs (st_current_run (mj_status_of fs)) (deleting fs) w"
    if "getMJ (r_client r) w k = Inr fs" "unwanted r fs" for fs w
    using Reconcile_in_service [OF assms that(1)] that(2) in_service_not_deleting [of r fs]
    by (auto simp: unwanted_def reconcile_run_unwanted)
  moreover have "unwanted r (with_status fs s v)"
    if "unwanted r fs" "st_current_run s = st_current_run (mj_status_of fs)" for fs s v
    using that by (auto simp: unwanted_def)
  ultimately show ?thesis unfolding lasting_def by blast
qed

lemma overdue_lasts:
  assumes "quiet_store (r_client r) k"
    and "\<And>w. expired run (clock (r_client r) w) \<Longrightarrow> expired run (clock (r_client r) (env (snd (Reconcile r k w))))"
  shows "lasting r k env (overdue r run)"
proof -
  have "Reconcile r k w = reconcileRevert r fs (st_current_run (mj_status_of fs)) (deleting fs) w"
    if "getMJ (r_client r) w k = Inr fs" "overdue r run fs w" for fs w
    using Reconcile_in_service [OF assms(1) that(1)] that(2) in_service_not_deleting [of r fs]
    by (auto simp: overdue_def reconcile_run_def Let_def)
  moreover have "overdue r run (with_status fs s v) (env (snd (Reconcile r k w)))"
    if "overdue r run fs w" "st_current_run s = st_current_run (mj_status_of fs)" for fs s v w
    using that assms(2) by (simp add: overdue_def)
  ultimately show ?thesis unfolding lasting_def by blast
qed

section \<open>The store of a scenario\<close>

text \<open>What the server documents of a successful update: the identity and the finalizers are those sent.\<close>

definition keeps_metadata :: "'w client \<Rightarrow> bool" where
  "keeps_metadata c \<longleftrightarrow> (\<forall>w fs fs' w'. updateMJ c w fs = (Inr fs', w') \<longrightarrow>
     mj_name fs' = mj_name fs \<and> mj_namespace fs' = mj_namespace fs \<and> mj_uid fs' = mj_uid fs
     \<and> mj_finalizers fs' = mj_finalizers fs)"

text \<open>
  What the server documents of the last finalizer of an object being deleted: the update that removes it
  removes the object.
\<close>

definition releases :: "'w client \<Rightarrow> nsname \<Rightarrow> bool" where
  "releases c k \<longleftrightarrow> (\<forall>w fs. getMJ c w k = Inr fs \<longrightarrow> mj_deletion_timestamp fs \<noteq> None \<longrightarrow>
     mj_finalizers fs = [FinalizerName] \<longrightarrow>
     (\<exists>fs' w' e. updateMJ c w (removeFinalizer c fs FinalizerName) = (Inr fs', w')
        \<and> getMJ c w' k = Inl e \<and> isNotFound e))"

text \<open>
  The store of a scenario: nobody but the reconciler writes its status, no other client gets in the way
  of its updates, and updates keep and release what they should.
\<close>

locale scenario_store = single_writer c k stored
  for c :: "'w client" and k :: nsname and stored :: "'w \<Rightarrow> mj_status option" +
  assumes quiet: "quiet_store c k" and spec: "spec_store c" and metadata: "keeps_metadata c" and release: "releases c k"
begin

lemma status_ok:
  assumes "r_client r = c" and "r_registry r = Get" and "sv_client s = c" and "reachable r s k stored w"
    and "getMJ c w k = Inr fs"
  shows "distinct (map aa_name (st_active_actions (mj_status_of fs)))"
    and "st_current_run (mj_status_of fs) = None \<Longrightarrow> st_active_actions (mj_status_of fs) = []"
proof -
  have "stored w = Some (mj_status_of fs)" using read [OF assms(5)] by simp
  from reachable_ok [OF single_writer_axioms assms(1-4) this] have ok: "life_ok (life_of (mj_status_of fs))" .
  then show "distinct (map aa_name (st_active_actions (mj_status_of fs)))" by (rule life_ok_names)
  show "st_current_run (mj_status_of fs) = None \<Longrightarrow> st_active_actions (mj_status_of fs) = []"
    using ok by (simp add: life_ok_def)
qed

end

lemma mem_keeps_metadata: "keeps_metadata mem_client"
  by (auto simp: keeps_metadata_def mem_client_def mem_updateMJ_def store_mj_def Let_def split: option.splits if_splits)

lemma mem_releases: "releases mem_client k"
proof -
  have "\<exists>fs' w'. mem_updateMJ w (fs\<lparr>mj_finalizers := []\<rparr>) = (Inr fs', w') \<and> find_obj mj_key (cl_mjs w') k = Inl absent"
    if get: "find_obj mj_key (cl_mjs w) k = Inr fs" and del: "mj_deletion_timestamp fs \<noteq> None" for w fs
  proof -
    have look: "lookup mj_key (cl_mjs w) k = Some fs" and key: "mj_key fs = k"
      using get lookup_key [of mj_key "cl_mjs w" k fs] by (auto simp: find_obj_def split: option.splits)
    then show ?thesis
      using del by (auto simp: mem_updateMJ_def store_mj_def Let_def find_obj_def lookup_remove mj_key_def)
  qed
  then show ?thesis
    unfolding releases_def by (fastforce simp: mem_client_def)
qed

lemma mem_scenario_store: "scenario_store mem_client k (stored_status k)"
  by (intro scenario_store.intro scenario_store_axioms.intro mem_single_writer mem_quiet mem_spec_store
      mem_keeps_metadata mem_releases)

interpretation mem_store: scenario_store mem_client k "stored_status k"
  by (rule mem_scenario_store)

section \<open>Changes of the spec\<close>

lemma spec_update:
  assumes store: "spec_store (r_client r)" and meta: "keeps_metadata (r_client r)"
    and get: "getMJ (r_client r) w k = Inr fs" and svc: "in_service r (fs\<lparr>mj_spec_of := spec\<rparr>)"
  obtains fs' w' where "updateMJ (r_client r) w (fs\<lparr>mj_spec_of := spec\<rparr>) = (Inr fs', w')"
    "getMJ (r_client r) w' k = Inr fs'" "mj_spec_of fs' = spec" "mj_status_of fs' = mj_status_of fs"
    "in_service r fs'" "\<And>run. runContext r fs' run = runContext r fs run"
proof -
  have "mj_deletion_timestamp fs = None" using svc by (simp add: in_service_def)
  then obtain fs' w' where u: "updateMJ (r_client r) w (fs\<lparr>mj_spec_of := spec\<rparr>) = (Inr fs', w')"
    and fs': "getMJ (r_client r) w' k = Inr fs'" "mj_spec_of fs' = spec"
      "mj_status_of fs' = mj_status_of fs" "mj_deletion_timestamp fs' = None"
    using store get unfolding spec_store_def by blast
  let ?sent = "fs\<lparr>mj_spec_of := spec\<rparr>"
  have "mj_name fs' = mj_name ?sent \<and> mj_namespace fs' = mj_namespace ?sent \<and> mj_uid fs' = mj_uid ?sent
      \<and> mj_finalizers fs' = mj_finalizers ?sent"
    using meta u unfolding keeps_metadata_def by blast
  then have same: "mj_name fs' = mj_name fs" "mj_namespace fs' = mj_namespace fs" "mj_uid fs' = mj_uid fs"
      "mj_finalizers fs' = mj_finalizers fs"
    by simp_all
  show thesis
  proof (rule that [OF u fs'(1-3)])
    show "in_service r fs'" using svc fs'(2,4) same by (simp add: in_service_def)
    show "runContext r fs' run = runContext r fs run" for run using same by (simp add: runContext_def)
  qed
qed

lemma disable_updates:
  assumes "spec_store (sv_client s)" and "getMJ (sv_client s) w (sv_namespace s, name) = Inr fs"
    and "updateMJ (sv_client s) w (switch_off fs) = (Inr fs', w')"
  shows "handleDisable s name w = (writeJSON 200 (StatusReply ''disabled''), w')"
proof -
  have retry: "conflict_retry (retryOnConflict (sv_client s))"
    using assms(1) by (simp add: spec_store_def retry_ok_iff)
  have "mutate_once s name switch_off w = (Inr fs', w')"
    using assms(2,3) by (simp add: mutate_once_def)
  then have "retryOnConflict (sv_client s) (mutate_once s name switch_off) w = (Inr fs', w')"
    by (rule conflict_retry.no_conflict [OF retry]) simp
  then show ?thesis by (simp add: handleDisable_def mutate_def)
qed

text \<open>The token of the active scenario of the samples, and that it is undone.\<close>

definition web_token :: scale_token where
  "web_token = \<lparr>st_kind = ''Deployment'', st_namespace = ''shop'', st_name = ''web'', st_previous_replicas = 3\<rparr>"

definition web_back :: "cluster \<Rightarrow> bool" where
  "web_back cl \<longleftrightarrow>
     (case lookup dep_key (cl_deps cl) (''shop'', ''web'') of
        None \<Rightarrow> True
      | Some d \<Rightarrow> holder d \<noteq> [] \<and> \<not> hasPrefix (holder d) ''outage/'' \<or> dep_replicas d = Some 3 \<and> holder d = [])"

lemma web_tokens:
  assumes "getMJ mem_client w0 outage = Inr fs"
    and "map token_of (st_active_actions (mj_status_of fs)) = [(ActionTypeScale, marshal_scale web_token)]"
  shows "token_of ` set (st_active_actions (mj_status_of fs)) \<subseteq> plain_tokens (\<lambda>_. 3) (\<lambda>_ _. [])"
    and "(\<forall>aa \<in> set (st_active_actions (mj_status_of fs)). plain_undone (runContext r fs run) (token_of aa) w) \<longleftrightarrow> web_back w"
    and "left_to_do (plain_todo rc) w (st_active_actions (mj_status_of fs)) = 1"
proof -
  obtain aa where aa: "(st_active_actions (mj_status_of fs)) = [aa]" "token_of aa = (ActionTypeScale, marshal_scale web_token)"
    using assms(2) by auto
  have ok: "int32_ok (st_previous_replicas web_token)" "st_previous_replicas web_token = 3"
    by (simp_all add: web_token_def int32_ok_def)
  from ok aa show "token_of ` set (st_active_actions (mj_status_of fs)) \<subseteq> plain_tokens (\<lambda>_. 3) (\<lambda>_ _. [])" by (simp add: plain_scale)
  have "mj_name fs = ''outage''" using quiet_storeD(2) [OF mem_quiet assms(1)] by (simp add: mj_key_def outage_def)
  then have "scale_undone (runContext r fs run) web_token w \<longleftrightarrow> web_back w"
    by (simp add: scale_undone_def web_back_def held_by_other_def runContext_def web_token_def st_key_def
        split: option.split)
  with ok aa show "(\<forall>aa \<in> set (st_active_actions (mj_status_of fs)). plain_undone (runContext r fs run) (token_of aa) w) \<longleftrightarrow> web_back w" by simp
  from aa show "left_to_do (plain_todo rc) w (st_active_actions (mj_status_of fs)) = 1" by (simp add: left_to_do_def plain_todo_def)
qed

lemma active_facts:
  "case getMJ mem_client active_cluster outage of
     Inl e \<Rightarrow> False
   | Inr fs \<Rightarrow> in_service (sample_reconciler mem_client) fs
       \<and> map token_of (st_active_actions (mj_status_of fs)) = [(ActionTypeScale, marshal_scale web_token)]"
  by code_simp

section \<open>The properties\<close>




text \<open>The same scenario with a duration, of a nanosecond, seen after its end.\<close>

definition short_mj :: maintenance_job where
  "short_mj = idle_mj\<lparr>mj_spec_of := sample_spec\<lparr>sp_duration := Some 1\<rparr>\<rparr>"

definition short_cluster :: cluster where
  "short_cluster = (pass_once (pass_once (sample_cluster\<lparr>cl_mjs := [short_mj]\<rparr>)))\<lparr>cl_now := 6 * second\<rparr>"

definition past_end :: "cluster \<Rightarrow> cluster" where
  "past_end cl = collect (cl\<lparr>cl_now := 6 * second\<rparr>)"

lemma short_reachable: "reachable (sample_reconciler mem_client) sample_server outage (stored_status outage) short_cluster"
  unfolding short_cluster_def pass_once_def
proof (rule reachable.elsewhere [OF reachable.reconciled [OF reachable.reconciled [OF reachable.created [OF reachable.initial]]]])
  show "stored_status outage (sample_cluster\<lparr>cl_mjs := []\<rparr>) = None" by (simp add: stored_status_def lookup_def)
  then show "stored_status outage (sample_cluster\<lparr>cl_mjs := []\<rparr>) = None" .
  show "stored_status outage (sample_cluster\<lparr>cl_mjs := [short_mj]\<rparr>) = Some (mj_status_of short_mj)"
    by (simp add: stored_status_def lookup_def short_mj_def idle_mj_def sample_mj_def mj_key_def outage_def)
qed (simp_all add: short_mj_def idle_mj_def sample_status_def keeps_stored)

lemma short_facts:
  "case getMJ mem_client short_cluster outage of
     Inl e \<Rightarrow> False
   | Inr fs \<Rightarrow> in_service (sample_reconciler mem_client) fs
       \<and> map token_of (st_active_actions (mj_status_of fs)) = [(ActionTypeScale, marshal_scale web_token)]
       \<and> sp_enabled (mj_spec_of fs) \<and> sp_trigger (mj_spec_of fs) = None
       \<and> (case st_current_run (mj_status_of fs) of
            None \<Rightarrow> False
          | Some run \<Rightarrow> cr_trigger run = RunTriggerEnabled \<and> expired run (clock mem_client short_cluster)
              \<and> expired run (6 * second))"
  by code_simp

lemma past_end_settling: "settling (sample_reconciler mem_client) k past_end rc (plain_tokens f g) (plain_todo rc)"
proof -
  have "plain_todo rc a (past_end cl) = plain_todo rc a (collect cl)" for a cl
    by (simp add: plain_todo_def past_end_def collect_def deploy_todo_def split: action_type.split sum.split)
  moreover have "getMJ mem_client (past_end cl) k = getMJ mem_client (collect cl) k" for cl
    by (simp add: past_end_def collect_def mem_client_def)
  ultimately show ?thesis
    using mem_settling [of k rc f g] unfolding settling_def by simp
qed

lemma past_end_undoing:
  "undoing (sample_reconciler mem_client) past_end rc (plain_tokens f g) (plain_undone rc)"
  by (rule plain_undoing, rule plain_undone_frame) (simp_all add: past_end_def collect_def)


section \<open>Deletion\<close>

definition gone :: "'w client \<Rightarrow> nsname \<Rightarrow> 'w \<Rightarrow> bool" where
  "gone c k w \<longleftrightarrow> (\<exists>e. getMJ c w k = Inl e \<and> isNotFound e)"

lemma gone_pass: "gone (r_client r) k w \<Longrightarrow> Reconcile r k w = (settled, w)"
  by (auto simp: gone_def Reconcile_def)

lemma gone_on:
  assumes "\<And>w. getMJ (r_client r) (env w) k = getMJ (r_client r) w k" and "gone (r_client r) k w"
  shows "gone (r_client r) k (passes r k env n w) \<and> (\<forall>P. steady r env P \<longrightarrow> P w \<longrightarrow> P (passes r k env n w))"
proof (induction n)
  case (Suc n)
  then have "Reconcile r k (passes r k env n w) = (settled, passes r k env n w)" by (intro gone_pass) simp
  then have pass: "passes r k env (Suc n) w = env (passes r k env n w)" unfolding passes_Suc by simp
  from Suc have "gone (r_client r) k (passes r k env (Suc n) w)" unfolding pass gone_def assms(1) by blast
  moreover have "P (passes r k env (Suc n) w)" if "steady r env P" "P w" for P
    unfolding pass using Suc that unfolding steady_def by blast
  ultimately show ?case by blast
qed (use assms(2) in simp)


text \<open>The active scenario again, deleted by somebody.\<close>

definition leave :: "maintenance_job \<Rightarrow> maintenance_job" where
  "leave fs = fs\<lparr>mj_deletion_timestamp := Some (5 * second)\<rparr>"

definition leaving_cluster :: cluster where
  "leaving_cluster = active_cluster\<lparr>cl_mjs := map leave (cl_mjs active_cluster)\<rparr>"

lemma lookup_leave: "lookup mj_key (map leave xs) k = map_option leave (lookup mj_key xs k)"
  by (induction xs) (auto simp: lookup_def leave_def mj_key_def)

lemma leaving_reachable:
  "reachable (sample_reconciler mem_client) sample_server outage (stored_status outage) leaving_cluster"
  by (rule reachable.elsewhere [OF active_reachable])
     (simp add: keeps_def stored_status_def leaving_cluster_def lookup_leave leave_def option.map_comp comp_def)

lemma leaving_facts:
  "case getMJ mem_client active_cluster outage of
     Inl e \<Rightarrow> False
   | Inr fs \<Rightarrow> mj_finalizers fs = [FinalizerName] \<and> go_get (mj_annotations fs) ForceReleaseAnnotation \<noteq> ''true''"
  by code_simp


end
