(* ===== verification/HoldRace.thy ===== *)
theory HoldRace
  imports Scale Sample
begin

text \<open>
  Two scenarios on one Deployment. Up to four reconciles run at the same time
  (\<^verbatim>\<open>MaxConcurrentReconciles\<close>), and Scale reads the Deployment, looks at the hold, and then sends a merge
  patch (\<^verbatim>\<open>client.MergeFrom\<close>) that carries no resource version; between the two calls another scenario's
  Ensure can run as a whole.
\<close>

section \<open>Merge patches\<close>

text \<open>The server applies the differences between the two objects of the patch to what it has stored.\<close>

definition merge_field :: "'a \<Rightarrow> 'a \<Rightarrow> 'a \<Rightarrow> 'a" where
  "merge_field old new cur = (if new = old then cur else new)"

definition merge_map :: "('k \<rightharpoonup> 'v) \<Rightarrow> ('k \<rightharpoonup> 'v) \<Rightarrow> ('k \<rightharpoonup> 'v) \<Rightarrow> ('k \<rightharpoonup> 'v)" where
  "merge_map old new cur = (\<lambda>k. merge_field (old k) (new k) (cur k))"

definition merge_patch :: "deployment \<Rightarrow> deployment \<Rightarrow> deployment \<Rightarrow> deployment" where
  "merge_patch old new cur = cur\<lparr>
     dep_labels := merge_map (dep_labels old) (dep_labels new) (dep_labels cur),
     dep_annotations := merge_map (dep_annotations old) (dep_annotations new) (dep_annotations cur),
     dep_replicas := merge_field (dep_replicas old) (dep_replicas new) (dep_replicas cur),
     dep_containers := merge_field (dep_containers old) (dep_containers new) (dep_containers cur)\<rparr>"

definition merges :: "'w client \<Rightarrow> bool" where
  "merges c \<longleftrightarrow> (\<forall>w k old new cur. getDeployment c w k = Inr cur \<longrightarrow> dep_key cur = k \<and>
     (dep_key old = k \<longrightarrow> (\<exists>w'. patchDeployment c w old new = (None, w')
        \<and> getDeployment c w' k = Inr (merge_patch old new cur))))"

text \<open>The client of a reconcile in which \<open>other\<close> happens just before the patch.\<close>

definition interrupted :: "('w \<Rightarrow> 'w) \<Rightarrow> 'w client \<Rightarrow> 'w client" where
  "interrupted other c = c\<lparr>patchDeployment := (\<lambda>w old new. patchDeployment c (other w) old new)\<rparr>"

lemma interrupted_simps [simp]:
  "getDeployment (interrupted other c) = getDeployment c" "getMJ (interrupted other c) = getMJ c"
  "patchDeployment (interrupted other c) w old new = patchDeployment c (other w) old new"
  by (simp_all add: interrupted_def)

section \<open>The race\<close>

lemma Ensure_of_free:
  assumes "getDeployment c w (st_key t) = Inr dep" and "holder dep = []" and "int32_ok (st_previous_replicas t)"
    and "act_scale act = Some sa"
  shows "Scale_Ensure c rc act (marshal_scale t) w =
    (case patchDeployment c w dep (dep\<lparr>dep_replicas := Some (sa_replicas sa),
        dep_annotations := (dep_annotations dep)(HeldByAnnotation \<mapsto> held_by rc)\<rparr>) of
       (Some e, w1) \<Rightarrow> (Failed e, w1)
     | (None, w1) \<Rightarrow> (Returned True 0, w1))"
proof -
  have "holder dep \<noteq> held_by rc" using assms(2) by (simp add: held_by_def)
  with assms show ?thesis by (simp add: Scale_Ensure_def check_holder_def held_by_other_def Let_def)
qed

text \<open>
  The hold does not exclude the race. Two scenarios find the same Deployment free; the Ensure of the
  second runs between the read and the patch of the first. Both report success, the first holds the
  Deployment in the end, and the count is the first's, unless that is the count it read: then its hold
  stands over the count of the second.
\<close>

theorem hold_race:
  assumes "merges c" and "getDeployment c w (st_key t) = Inr dep" and "holder dep = []"
    and "int32_ok (st_previous_replicas t)" and "act_scale act1 = Some sa1" and "act_scale act2 = Some sa2"
  shows "\<exists>w2 w1 d. Scale_Ensure c rc2 act2 (marshal_scale t) w = (Returned True 0, w2)
    \<and> Scale_Ensure (interrupted (\<lambda>w. snd (Scale_Ensure c rc2 act2 (marshal_scale t) w)) c) rc1 act1 (marshal_scale t) w
        = (Returned True 0, w1)
    \<and> getDeployment c w1 (st_key t) = Inr d \<and> holder d = held_by rc1
    \<and> dep_replicas d = (if dep_replicas dep = Some (sa_replicas sa1) then Some (sa_replicas sa2) else Some (sa_replicas sa1))"
proof -
  let ?new = "\<lambda>rc sa. dep\<lparr>dep_replicas := Some (sa_replicas sa),
    dep_annotations := (dep_annotations dep)(HeldByAnnotation \<mapsto> held_by rc)\<rparr>"
  have key: "dep_key dep = st_key t" using assms(1,2) unfolding merges_def by blast
  obtain w2 where w2: "patchDeployment c w dep (?new rc2 sa2) = (None, w2)"
    "getDeployment c w2 (st_key t) = Inr (merge_patch dep (?new rc2 sa2) dep)"
    using assms(1,2) key unfolding merges_def by blast
  note ensure2 = Ensure_of_free [OF assms(2-4,6), of rc2]
  have e2: "Scale_Ensure c rc2 act2 (marshal_scale t) w = (Returned True 0, w2)"
    using ensure2 w2(1) by simp
  let ?c = "interrupted (\<lambda>w. snd (Scale_Ensure c rc2 act2 (marshal_scale t) w)) c"
  have "getDeployment ?c w (st_key t) = Inr dep" using assms(2) by simp
  note ensure1 = Ensure_of_free [OF this assms(3-5), of rc1]
  obtain w1 where w1: "patchDeployment c w2 dep (?new rc1 sa1) = (None, w1)"
    "getDeployment c w1 (st_key t) = Inr (merge_patch dep (?new rc1 sa1) (merge_patch dep (?new rc2 sa2) dep))"
    using assms(1) w2(2) key unfolding merges_def by blast
  let ?d = "merge_patch dep (?new rc1 sa1) (merge_patch dep (?new rc2 sa2) dep)"
  have "Scale_Ensure ?c rc1 act1 (marshal_scale t) w = (Returned True 0, w1)"
    using ensure1 e2 w1(1) by simp
  moreover have "dep_annotations dep HeldByAnnotation \<noteq> Some (held_by rc1)"
    using assms(3) by (auto simp: holder_def held_by_def go_get_def split: option.splits)
  then have "holder ?d = held_by rc1"
    by (auto simp: merge_patch_def merge_map_def merge_field_def holder_def go_get_def dest: sym)
  moreover have "dep_replicas ?d = (if dep_replicas dep = Some (sa_replicas sa1) then Some (sa_replicas sa2) else Some (sa_replicas sa1))"
    by (auto simp: merge_patch_def merge_field_def)
  ultimately show ?thesis using e2 w1(2) by blast
qed

definition mem_merging :: "cluster client" where
  "mem_merging = mem_client\<lparr>patchDeployment := (\<lambda>cl old new.
     case lookup dep_key (cl_deps cl) (dep_key old) of
       None \<Rightarrow> (Some absent, cl)
     | Some cur \<Rightarrow> (None, cl\<lparr>cl_deps := put dep_key (merge_patch old new cur) (cl_deps cl)\<rparr>))\<rparr>"

lemma mem_merges: "merges mem_merging"
proof -
  have "dep_key (merge_patch old new cur) = dep_key cur" for old new cur
    by (simp add: merge_patch_def dep_key_def)
  then show ?thesis
    by (auto simp: merges_def mem_merging_def mem_client_def find_obj_def lookup_put split: option.splits dest: lookup_key)
qed

theorem hold_race_witness:
  "\<exists>t rc1 rc2 w1 d. Scale_Ensure mem_merging rc2 sample_scale (marshal_scale t) sample_cluster
      = (Returned True 0, snd (Scale_Ensure mem_merging rc2 sample_scale (marshal_scale t) sample_cluster))
    \<and> rc_scenario_name rc1 \<noteq> rc_scenario_name rc2
    \<and> Scale_Ensure (interrupted (\<lambda>w. snd (Scale_Ensure mem_merging rc2 sample_scale (marshal_scale t) w)) mem_merging)
        rc1 sample_scale (marshal_scale t) sample_cluster = (Returned True 0, w1)
    \<and> getDeployment mem_merging w1 (st_key t) = Inr d \<and> holder d = held_by rc1"
proof -
  let ?t = "\<lparr>st_kind = ''Deployment'', st_namespace = ''shop'', st_name = ''web'', st_previous_replicas = 3\<rparr>"
  let ?rc = "\<lambda>n. \<lparr>rc_scenario_name = n, rc_scenario_uid = ''u1'', rc_namespace = ''shop'', rc_run_id = ''r1'',
    rc_run_duration = 0, rc_operator_image = ''op''\<rparr>"
  obtain sa where sa: "act_scale sample_scale = Some sa" by (simp add: sample_scale_def)
  have dep: "getDeployment mem_merging sample_cluster (st_key ?t) = Inr sample_dep" "holder sample_dep = []"
    by (simp_all add: mem_merging_def mem_client_def sample_cluster_def sample_dep_def find_obj_def lookup_def
        dep_key_def st_key_def holder_def go_get_def)
  have "int32_ok (st_previous_replicas ?t)" by (simp add: int32_ok_def)
  from hold_race [OF mem_merges dep this sa sa, of "?rc ''b''" "?rc ''a''"] obtain w2 w1 d where
    "Scale_Ensure mem_merging (?rc ''b'') sample_scale (marshal_scale ?t) sample_cluster = (Returned True 0, w2)"
    "Scale_Ensure (interrupted (\<lambda>w. snd (Scale_Ensure mem_merging (?rc ''b'') sample_scale (marshal_scale ?t) w)) mem_merging)
       (?rc ''a'') sample_scale (marshal_scale ?t) sample_cluster = (Returned True 0, w1)"
    "getDeployment mem_merging w1 (st_key ?t) = Inr d" "holder d = held_by (?rc ''a'')"
    by blast
  then show ?thesis
    by (intro exI [of _ ?t] exI [of _ "?rc ''a''"] exI [of _ "?rc ''b''"] exI [of _ w1] exI [of _ d]) simp
qed

end
