(* ===== verification/Programs.thy ===== *)
theory Programs
  imports Telemetry LoadRun CatalogVariant Fulfillment Recommendation
begin

text \<open>
  The Go services with their telemetry. Each service has its own telemetry.go, the same text in all of
  them; here are its functions for each service, and the programs with their set-up for the telemetry
  that their parts leave open. The world of a program has the globals of OpenTelemetry beside it; a
  deferred shutdown runs when main returns, and is skipped by \<^verbatim>\<open>os.Exit\<close>.
\<close>

section \<open>The telemetry of each service\<close>

type_synonym 'w observed_world = "'w \<times> otel_globals"

type_synonym 'w telemetry = "'w observed_world \<Rightarrow> go_error option \<times> 'w observed_world"

definition load_initTelemetry :: "'w otel_env \<Rightarrow> string \<Rightarrow> 'w telemetry" where
  "load_initTelemetry = initTelemetry_setup"

definition load_multiHandler :: "('h, 'w) slog \<Rightarrow> ('h list, 'w) slog" where
  "load_multiHandler = multiHandler"

definition fulfillment_initTelemetry :: "'w otel_env \<Rightarrow> string \<Rightarrow> 'w telemetry" where
  "fulfillment_initTelemetry = initTelemetry_setup"

definition fulfillment_shutdownTelemetry :: "'w otel_env \<Rightarrow> 'w \<Rightarrow> go_error option \<times> 'w" where
  "fulfillment_shutdownTelemetry = shutdown_all"

definition fulfillment_multiHandler :: "('h, 'w) slog \<Rightarrow> ('h list, 'w) slog" where
  "fulfillment_multiHandler = multiHandler"

definition rec_initTelemetry :: "'w otel_env \<Rightarrow> string \<Rightarrow> 'w telemetry" where
  "rec_initTelemetry = initTelemetry_setup"

definition rec_multiHandler :: "('h, 'w) slog \<Rightarrow> ('h list, 'w) slog" where
  "rec_multiHandler = multiHandler"

lemmas telemetry_same_text =
  load_initTelemetry_def fulfillment_initTelemetry_def rec_initTelemetry_def fulfillment_shutdownTelemetry_def

section \<open>The programs\<close>

definition load_program ::
  "'w otel_env \<Rightarrow> 'w observed_world lg_env \<Rightarrow> (string \<rightharpoonup> string) \<Rightarrow> 'w observed_world
   \<Rightarrow> (string \<times> load_plan option) list option \<times> 'w observed_world" where
  "load_program oe env vars = load_main (load_initTelemetry oe ''load-generator'') env vars"

definition catalog_program ::
  "'w otel_env \<Rightarrow> 'w observed_world catalog_env \<Rightarrow> (string \<rightharpoonup> string) \<Rightarrow> http_request list \<Rightarrow> 'w observed_world
   \<Rightarrow> http_answer list option \<times> 'w observed_world" where
  "catalog_program oe env vars =
     catalog_main (env\<lparr>ce_telemetry := initTelemetry_setup oe ''product-catalog''\<rparr>) vars"

definition gc_program ::
  "(json \<Rightarrow> string) \<Rightarrow> 'w otel_env \<Rightarrow> 'w observed_world catalog_env \<Rightarrow> (string \<rightharpoonup> string) \<Rightarrow> http_request list
   \<Rightarrow> 'w observed_world \<Rightarrow> (http_answer \<times> int) list option \<times> 'w observed_world" where
  "gc_program marshal oe env vars =
     gc_main marshal (env\<lparr>ce_telemetry := initTelemetry_setup oe ''product-catalog''\<rparr>) vars"

definition rec_program ::
  "'w otel_env \<Rightarrow> 'w observed_world rec_env \<Rightarrow> (string \<rightharpoonup> string) \<Rightarrow> 'w observed_world \<Rightarrow> bool \<times> 'w observed_world" where
  "rec_program oe env vars = rec_start (env\<lparr>re_telemetry := rec_initTelemetry oe ''recommendation-service''\<rparr>) vars"

definition leak_program ::
  "'w otel_env \<Rightarrow> 'w observed_world rec_env \<Rightarrow> (string \<rightharpoonup> string) \<Rightarrow> 'w observed_world \<Rightarrow> bool \<times> 'w observed_world" where
  "leak_program oe env vars = leak_start (env\<lparr>re_telemetry := rec_initTelemetry oe ''recommendation-service''\<rparr>) vars"

text \<open>The one program whose main returns: its deferred shutdown of the telemetry runs after its own.\<close>

definition fulfillment_program ::
  "'w otel_env \<Rightarrow> 'w observed_world ff_env \<Rightarrow> (string \<rightharpoonup> string) \<Rightarrow> 'w observed_world
   \<Rightarrow> (exit_code \<times> 'w observed_world) option" where
  "fulfillment_program oe env vars s =
     (case fulfillment_main (env\<lparr>initTelemetry := fulfillment_initTelemetry oe ''fulfillment-service''\<rparr>) vars s of
        None \<Rightarrow> None
      | Some (Exit1, s1) \<Rightarrow> Some (Exit1, s1)
      | Some (Exit0, (w1, g1)) \<Rightarrow> Some (Exit0, (snd (fulfillment_shutdownTelemetry oe w1), g1)))"

section \<open>The set-up comes first\<close>

definition all_observed :: "string \<Rightarrow> otel_globals \<Rightarrow> bool" where
  "all_observed service g \<longleftrightarrow> og_providers g = [TracerProvider, MeterProvider, LoggerProvider]
     \<and> og_propagator g \<and> og_logger g = Some service"

definition no_telemetry :: otel_globals where
  "no_telemetry = \<lparr>og_providers = [], og_propagator = False, og_logger = None\<rparr>"

lemma setup_observed:
  "initTelemetry_setup oe service (w, no_telemetry) = (None, s) \<Longrightarrow> all_observed service (snd s)"
  by (auto simp: initTelemetry_setup_def install_def all_observed_def no_telemetry_def Let_def
      split: prod.splits option.splits)

text \<open>
  A service whose telemetry cannot be set up does nothing else: it opens no database, dials, sends and
  listens to nothing, and the world it leaves is that of the set-up; the load generator has drawn its
  users before. A service that goes on has its three providers, the propagator and the logger under its
  own name.
\<close>

theorem telemetry_first:
  "(\<forall>e s. initTelemetry_setup oe ''load-generator'' (snd (init_config lenv vars (w, g))) = (Some e, s) \<longrightarrow>
       load_program oe lenv vars (w, g) = (None, s))
   \<and> (\<forall>e s. initTelemetry_setup oe ''product-catalog'' (w, g) = (Some e, s) \<longrightarrow>
       catalog_program oe cenv vars rs (w, g) = (None, s) \<and> gc_program marshal oe cenv vars rs (w, g) = (None, s))
   \<and> (\<forall>e s. initTelemetry_setup oe ''recommendation-service'' (w, g) = (Some e, s) \<longrightarrow>
       rec_program oe renv vars (w, g) = (False, s) \<and> leak_program oe renv vars (w, g) = (False, s))
   \<and> (\<forall>e s. initTelemetry_setup oe ''fulfillment-service'' (w, g) = (Some e, s) \<longrightarrow>
       fulfillment_program oe fenv vars (w, g) = Some (Exit1, s))
   \<and> (\<forall>service s. initTelemetry_setup oe service (w, no_telemetry) = (None, s) \<longrightarrow> all_observed service (snd s))"
proof (intro conjI allI impI)
  fix e s
  assume "initTelemetry_setup oe ''load-generator'' (snd (init_config lenv vars (w, g))) = (Some e, s)"
  then show "load_program oe lenv vars (w, g) = (None, s)"
    by (simp add: load_program_def load_main_def telemetry_same_text case_prod_unfold Let_def)
next
  fix e s
  assume "initTelemetry_setup oe ''product-catalog'' (w, g) = (Some e, s)"
  then show "catalog_program oe cenv vars rs (w, g) = (None, s)" "gc_program marshal oe cenv vars rs (w, g) = (None, s)"
    by (simp_all add: catalog_program_def gc_program_def catalog_main_def gc_main_def catalog_start_def gc_start_def Let_def)
next
  fix e s
  assume "initTelemetry_setup oe ''recommendation-service'' (w, g) = (Some e, s)"
  then show "rec_program oe renv vars (w, g) = (False, s)" "leak_program oe renv vars (w, g) = (False, s)"
    by (simp_all add: rec_program_def leak_program_def rec_start_def leak_start_def telemetry_same_text)
next
  fix e s
  assume "initTelemetry_setup oe ''fulfillment-service'' (w, g) = (Some e, s)"
  then show "fulfillment_program oe fenv vars (w, g) = Some (Exit1, s)"
    by (simp add: fulfillment_program_def fulfillment_main_def telemetry_same_text)
qed (rule setup_observed)

text \<open>
  The deferred shutdown runs on the way out of main alone: a program that exits with status 1 after its
  set-up leaves the world as the failing stage left it, with the providers not shut down and what they
  hold not flushed.
\<close>

lemma exit_skips_shutdown:
  assumes "fulfillment_main (env\<lparr>initTelemetry := fulfillment_initTelemetry oe ''fulfillment-service''\<rparr>) vars s = Some (Exit1, s1)"
  shows "fulfillment_program oe env vars s = Some (Exit1, s1)"
  using assms by (simp add: fulfillment_program_def)

end
