(* ===== verification/Spec2Isabelle.thy ===== *)
theory Spec2Isabelle
  imports Drained Safety DeploymentProps ObjectProps ReconcileProps Release Invariant Startup LoadRun
    FulfillmentProps Recommendation TelemetryProps DeepCopyProps LifecycleProps
    Healing HoldRace Programs
begin

text \<open>
  The verification development of the Go code of the repository: the operator that injects faults into
  a demonstration shop and takes them back (src/operator), and the shop's Go services
  (src/services/load-generator, fulfillment-service, product-catalog, recommendation-service, with the
  variants gc-pressure and memory-leak).

  \<^bold>\<open>The program.\<close> A scenario is a MaintenanceJob: a list of actions, and a status with the current
  run, the active actions with their revert tokens, a history and conditions. The reconciler starts a
  run when the spec asks for it, plans each action, stores its revert token in the status, and only
  then applies it; when the run is over it reverts the active actions from their tokens, the last
  first. The API server changes specs; the startup sweep removes what is left of scenarios that are
  gone; dbtool is the query runner that the Jobs of two actions run. The load generator sends requests
  to the shop; the catalog asks the recommendation service; the fulfillment service consumes order
  events.

  \<^bold>\<open>Theories and code\<close> (operator, under src/operator):
  \<^item> Prelude: Go's integers, strings, strconv and fmt; Json: documents, raw messages, errors, and the
    decoding of fields; Durations, ParseDuration: the text of durations and times, and its parser;
    Sha256; Flags: the package flag; Services: what the services share (startup waits, requests and
    answers, the ServeMux, times in JSON).
  \<^item> Types: api/v1alpha1/maintenancejob_types.go. Memory, DeepCopy: the deep copies of
    zz_generated.deepcopy.go, over a memory of cells. Client: the Kubernetes client, a record of functions
    over an arbitrary world. Cluster, Sample: a cluster in memory, for the witnesses.
  \<^item> Names, Labelled, Workload, Scale, DeployImage, ChaosMesh, DBExec, Actions: internal/actions, one
    theory per action, each with its token, Plan, Ensure and Revert, and the registry.
  \<^item> Helpers, Controller: internal/controller/helpers.go and maintenancejob_controller.go, one call of
    Reconcile as a function of the world. Sweeper: internal/controller/sweeper.go.
  \<^item> Api: the handlers of internal/api/server.go; ApiServer: its routes by method and path, and Start.
    Watch: the API group, its registration, and the watches of SetupWithManager. Dbtool:
    internal/dbtool/dbtool.go and the choice of the subcommand; Startup: the start of the manager
    (cmd/main.go).

  and, under src/services:
  \<^item> LoadGen: the configuration and every request scenario of load-generator/main.go; LoadPool: the
    table of scenarios, the weighted choice, and ticker, queue and workers as a step relation; LoadRun:
    all services with the counters they share, and the reporter of the statistics.
  \<^item> Fulfillment: fulfillment-service/main.go. Its consume loop is a \<^verbatim>\<open>partial_function\<close>.
  \<^item> Catalog: product-catalog/main.go; CatalogVariant: its variant gc-pressure.
  \<^item> Recommendation: recommendation-service/main.go and its variant memory-leak.
  \<^item> Telemetry: telemetry.go, one text in all four services; Programs: the programs, each composed with
    its own telemetry.

  \<^bold>\<open>What the lemmas show.\<close>
  \<^item> Safety: the revert token of every write is stored before it (the contract \<open>ensure_contract\<close>,
    interpreted for the five actions). Draining, Mended, Settling, Undone, Drained: repeated
    passes take a scenario down to no active actions, and what the actions did is undone (the contract
    \<open>undoing\<close>, met by Workload, ChaosMesh, Scale and DeployImage on the cluster in memory). Release: what
    a revert writes, and when the finalizer goes (\<open>revert_contract\<close>).
    Invariant: no status that breaks the invariant of the stored status is ever sent.
  \<^item> Lifecycle, LifecycleProps: the abstract life of a scenario (the run, and a stack of tokens) and the
    proof that each call of Reconcile refines it, under the contract \<open>single_writer\<close>: nobody else
    writes the status. Its reachable states, under requests, passes, sweeps and other writers of the
    spec, keep the invariant of the life.
  \<^item> Healing: how runs end, from any reachable state: a request to disable the scenario, the end of the
    run's duration, and the deletion of the scenario, each composed with the passes of the reconciler up
    to a status at rest, or to the end of the object, with the effects of the actions undone, which then
    lasts. HoldRace: two scenarios on one Deployment, with another's Ensure between the read and the
    merge patch.
  \<^item> ApiServer: the patterns of the ServeMux as a table; what only the commands may do; Start as a step
    relation of listener, context and select, with a bound on its steps and no goroutine left behind.
  \<^item> DeepCopyProps: a deep copy means what its original means and shares no cell with it (the contract
    \<open>deep_copier\<close>, interpreted for each type; \<open>apimachinery\<close> is the contract of the library's copies).
  \<^item> DeploymentProps, ObjectProps: the round trips, holds and marks of Scale and DeployImage; the
    objects of Workload, ChaosMesh (\<open>labelled_action\<close>) and DBExec. ReconcileProps: validation, the
    start and the end of runs, intervals.
  \<^item> Sweeper, Api, Dbtool: what is deleted; the requests composed with the reconciler's decision; the
    Job's arguments read back by the program that the Job runs, and the workers of its loop mode.
  \<^item> LoadProps, LoadRun: the choice by weight, the bound on queues and workers and the accounting of the
    shared counters in every interleaving of all services, the termination of the wait
    for an order, the size of carts.
  \<^item> FulfillmentProps: the attempts of a reservation, the protocol of the calls for one order, and the
    loop as a fold over the polled records. The calls are recorded by an instrumented environment; the
    contract \<open>lifted_env\<close> says that such an environment acts as the original on its part of the world.
  \<^item> CatalogProps, Recommendation: paging, statuses, read-only requests, the variants, and the catalog
    composed with the recommendation service, by the contract \<open>recommender\<close>, which the service and
    its variant keep. TelemetryProps: the fan-out of log records.

  \<^bold>\<open>How the code is modelled.\<close> A struct is a record with a prefix per type, an enum a datatype, a
  pointer that may be nil an option. A function with effects takes the world and returns its results
  and the new world; an error is a value of \<^typ>\<open>go_error\<close> in a sum or an option; a panic is a value of
  its own (\<open>Panicked\<close>, \<open>Crash\<close>, \<open>None\<close> where the text says so). Integers are \<^typ>\<open>int\<close> with the
  wrap-around of 32 or 64 bits written out where the code computes; times and durations are
  nanoseconds; strings are bytes. What the code calls and the repository does not hold (the Kubernetes
  API, databases, Kafka, HTTP peers, gRPC, OpenTelemetry, the random source, the clock) is a record of
  functions over the world, and hypotheses state its documented behaviour; each property with a
  hypothesis has a witness on a concrete instance.

  \<^bold>\<open>Bounds and fuel.\<close> Loops over lists and counters are structural. The retry of a conflict has as many
  steps as client-go's default; the waits for a backend make 30 pings, the gateway's 60. The loops that
  need not end, the consume loop and the wait for an order, are partial functions, and the properties
  show when they return. The workers of dbtool and of the load generator are driven by a schedule or a
  step relation, so that every interleaving is covered.

  \<^bold>\<open>Abstractions.\<close> JSON is modelled as documents, not as text; values are
  immutable, and shared memory is modelled for the deep copies alone; a nil and an empty slice or map
  are the same, except where the output differs; statements in SQL are kept up to white space; logs,
  traces, metrics, pools of connections and the timeouts of single calls are left out. Paths of HTTP
  requests are taken to be clean.

  \<^bold>\<open>Not modelled.\<close> The protobuf and gRPC stubs; the files of the embedded web UI; the listening
  of the shop's services; the deployment manifests; the services in other languages.
\<close>

end
